(* ===== verification/Prelude.thy ===== *)
theory Prelude
  imports Main "HOL-Library.Word" "HOL-Library.Char_ord" "HOL-Library.List_Lexorder"
    "HOL-Library.Sublist"
begin

text \<open>
  What every component shares: Rust results with panics kept apart from errors, programs that
  pass a state explicitly and their two-exit postconditions, fixed-width arithmetic, byte
  strings (a Rust \<open>String\<close> is the list of its UTF-8 bytes, so \<open>len()\<close> is \<open>length\<close>) and the
  decimal text of integers.
\<close>

named_theorems post_simps \<open>postconditions of the basic programs\<close>
named_theorems returns \<open>what it means that a program returns\<close>
named_theorems keeps_intros \<open>programs that keep an invariant\<close>

type_synonym u8 = "8 word"
type_synonym u32 = "32 word"
type_synonym u64 = "64 word"

section \<open>Results and errors\<close>

text \<open>
  An \<open>anyhow::Error\<close> is observed in two ways only: by its message, and by the downcast
  \<open>error.is::<ReconcileInterrupted>()\<close>.
\<close>

datatype error = Msg string | ReconcileInterrupted

fun error_text :: "error \<Rightarrow> string" where
  "error_text (Msg m) = m"
| "error_text ReconcileInterrupted = ''reconciliation interrupted by a control request''"

text \<open>A panic is no error: nothing in the program catches it.\<close>

datatype 'a res = Ok 'a | Err error | Panic string

fun is_Ok :: "'a res \<Rightarrow> bool" where
  "is_Ok (Ok _) = True"
| "is_Ok (Err _) = False"
| "is_Ok (Panic _) = False"

fun is_Err :: "'a res \<Rightarrow> bool" where
  "is_Err (Err _) = True"
| "is_Err (Ok _) = False"
| "is_Err (Panic _) = False"

text \<open>The operator \<open>?\<close> on results, \<open>ensure!\<close> and \<open>context\<close>.\<close>

fun and_then :: "'a res \<Rightarrow> ('a \<Rightarrow> 'b res) \<Rightarrow> 'b res" where
  "and_then (Ok x) f = f x"
| "and_then (Err e) f = Err e"
| "and_then (Panic p) f = Panic p"

definition ensure :: "bool \<Rightarrow> string \<Rightarrow> unit res" where
  "ensure b m = (if b then Ok () else Err (Msg m))"

fun or_error :: "'a option \<Rightarrow> string \<Rightarrow> 'a res" where
  "or_error (Some x) m = Ok x"
| "or_error None m = Err (Msg m)"

fun or_panic :: "'a option \<Rightarrow> string \<Rightarrow> 'a res" where
  "or_panic (Some x) m = Ok x"
| "or_panic None m = Panic m"

lemma ensure_Ok [simp]: "ensure b m = Ok u \<longleftrightarrow> b"
  by (simp add: ensure_def)

lemma ensure_not_Panic [simp]: "ensure b m \<noteq> Panic p"
  by (simp add: ensure_def)

lemma and_then_Ok [simp]: "and_then r f = Ok y \<longleftrightarrow> (\<exists>x. r = Ok x \<and> f x = Ok y)"
  by (cases r) auto

lemma and_then_Panic [simp]:
  "and_then r f = Panic p \<longleftrightarrow> r = Panic p \<or> (\<exists>x. r = Ok x \<and> f x = Panic p)"
  by (cases r) auto

lemma or_error_Ok [simp]: "or_error x m = Ok y \<longleftrightarrow> x = Some y"
  by (cases x) auto

lemma or_error_not_Panic [simp]: "or_error x m \<noteq> Panic p"
  by (cases x) auto

lemma or_panic_Ok [simp]: "or_panic x m = Ok y \<longleftrightarrow> x = Some y"
  by (cases x) auto

lemma or_panic_Panic [simp]: "or_panic x m = Panic p \<longleftrightarrow> x = None \<and> p = m"
  by (cases x) auto

section \<open>Programs over an explicit state\<close>

type_synonym ('s, 'a) prog = "'s \<Rightarrow> 'a res \<times> 's"

definition ret :: "'a \<Rightarrow> ('s, 'a) prog" where
  "ret x s = (Ok x, s)"

definition throw :: "error \<Rightarrow> ('s, 'a) prog" where
  "throw e s = (Err e, s)"

definition give :: "'a res \<Rightarrow> ('s, 'a) prog" where
  "give r s = (r, s)"

definition bind_p :: "('s, 'a) prog \<Rightarrow> ('a \<Rightarrow> ('s, 'b) prog) \<Rightarrow> ('s, 'b) prog" where
  "bind_p m f s = (case m s of
      (Ok x, t) \<Rightarrow> f x t | (Err e, t) \<Rightarrow> (Err e, t) | (Panic p, t) \<Rightarrow> (Panic p, t))"

definition seq_p :: "('s, 'a) prog \<Rightarrow> ('s, 'b) prog \<Rightarrow> ('s, 'b) prog" where
  "seq_p m n = bind_p m (\<lambda>_. n)"

definition reads :: "('s \<Rightarrow> 'a) \<Rightarrow> ('s, 'a) prog" where
  "reads f s = (Ok (f s), s)"

definition modify :: "('s \<Rightarrow> 's) \<Rightarrow> ('s, unit) prog" where
  "modify f s = (Ok (), f s)"

definition ensure_p :: "bool \<Rightarrow> string \<Rightarrow> ('s, unit) prog" where
  "ensure_p b m = give (ensure b m)"

text \<open>
  \<open>attempt m\<close> turns an error into a value, as \<open>let result = m;\<close> without \<open>?\<close> does; a panic
  passes through.
\<close>

definition attempt :: "('s, 'a) prog \<Rightarrow> ('s, 'a res) prog" where
  "attempt m s = (case m s of
      (Ok x, t) \<Rightarrow> (Ok (Ok x), t) | (Err e, t) \<Rightarrow> (Ok (Err e), t) | (Panic p, t) \<Rightarrow> (Panic p, t))"

definition when_p :: "bool \<Rightarrow> ('s, unit) prog \<Rightarrow> ('s, unit) prog" where
  "when_p b m = (if b then m else ret ())"

fun fold_p :: "('b \<Rightarrow> 'a \<Rightarrow> ('s, 'b) prog) \<Rightarrow> 'b \<Rightarrow> 'a list \<Rightarrow> ('s, 'b) prog" where
  "fold_p f acc [] = ret acc"
| "fold_p f acc (x # xs) = bind_p (f acc x) (\<lambda>acc'. fold_p f acc' xs)"

lemma bind_reads: "bind_p (reads f) g s = g (f s) s"
  by (simp add: bind_p_def reads_def)

lemma bind_give_Ok: "bind_p (give (Ok x)) g s = g x s"
  by (simp add: bind_p_def give_def)

text \<open>
  \<open>post Q R (m s)\<close>: \<open>m\<close> run in \<open>s\<close> does not panic, its result satisfies \<open>Q\<close> when it returns and
  \<open>R\<close> when it fails. It is the weakest precondition of \<open>m\<close>, so the equations below compute it
  backwards through a program.
\<close>

fun post :: "('a \<Rightarrow> 's \<Rightarrow> bool) \<Rightarrow> (error \<Rightarrow> 's \<Rightarrow> bool) \<Rightarrow> 'a res \<times> 's \<Rightarrow> bool" where
  "post Q R (Ok x, s) = Q x s"
| "post Q R (Err e, s) = R e s"
| "post Q R (Panic p, s) = False"

lemma outcome_cases [case_names Ok Err Panic]:
  fixes r :: "'a res \<times> 's"
  obtains x t where "r = (Ok x, t)" | e t where "r = (Err e, t)" | p t where "r = (Panic p, t)"
  by (cases r; cases "fst r") auto

lemma post_ret [post_simps, simp]: "post Q R (ret x s) = Q x s"
  by (simp add: ret_def)

lemma post_throw [post_simps, simp]: "post Q R (throw e s) = R e s"
  by (simp add: throw_def)

lemma post_give [post_simps]:
  "post Q R (give r s) =
     (case r of Ok x \<Rightarrow> Q x s | Err e \<Rightarrow> R e s | Panic p \<Rightarrow> False)"
  by (cases r) (simp_all add: give_def)

lemma post_bind [post_simps, simp]:
  "post Q R (bind_p m f s) = post (\<lambda>x t. post Q R (f x t)) R (m s)"
  by (cases "m s" rule: outcome_cases) (simp_all add: bind_p_def)

lemma post_seq [post_simps, simp]:
  "post Q R (seq_p m n s) = post (\<lambda>_ t. post Q R (n t)) R (m s)"
  by (simp add: seq_p_def)

lemma post_reads [post_simps, simp]: "post Q R (reads f s) = Q (f s) s"
  by (simp add: reads_def)

lemma post_modify [post_simps, simp]: "post Q R (modify f s) = Q () (f s)"
  by (simp add: modify_def)

lemma post_ensure [post_simps, simp]:
  "post Q R (ensure_p b m s) = (if b then Q () s else R (Msg m) s)"
  by (simp add: ensure_p_def give_def ensure_def)

lemma post_attempt [post_simps, simp]:
  "post Q R (attempt m s) = post (\<lambda>x. Q (Ok x)) (\<lambda>e. Q (Err e)) (m s)"
  by (cases "m s" rule: outcome_cases) (simp_all add: attempt_def)

lemma post_when [post_simps, simp]:
  "post Q R (when_p b m s) = (if b then post Q R (m s) else Q () s)"
  by (simp add: when_p_def)

lemma post_if [post_simps, simp]:
  "post Q R ((if b then m else n) s) = (if b then post Q R (m s) else post Q R (n s))"
  by simp

lemma post_mono:
  assumes "post Q R r" "\<And>x s. Q x s \<Longrightarrow> Q' x s" "\<And>e s. R e s \<Longrightarrow> R' e s"
  shows "post Q' R' r"
  using assms by (cases r rule: outcome_cases) auto

lemma post_conj:
  assumes "post Q R r" "post Q' R' r"
  shows "post (\<lambda>x s. Q x s \<and> Q' x s) (\<lambda>e s. R e s \<and> R' e s) r"
  using assms by (cases r rule: outcome_cases) auto

lemma post_Ok: "post Q R (m s) \<Longrightarrow> m s = (Ok x, t) \<Longrightarrow> Q x t"
  by simp

lemma post_Err: "post Q R (m s) \<Longrightarrow> m s = (Err e, t) \<Longrightarrow> R e t"
  by simp

lemma post_no_panic: "post Q R (m s) \<Longrightarrow> fst (m s) \<noteq> Panic p"
  by (cases "m s" rule: outcome_cases) auto

text \<open>Inversion: how a program came to return.\<close>

lemma bind_returns [returns]:
  "bind_p m f s = (Ok y, t) \<longleftrightarrow> (\<exists>x u. m s = (Ok x, u) \<and> f x u = (Ok y, t))"
  by (cases "m s" rule: outcome_cases) (auto simp: bind_p_def)

lemma seq_returns [returns]:
  "seq_p m n s = (Ok y, t) \<longleftrightarrow> (\<exists>x u. m s = (Ok x, u) \<and> n u = (Ok y, t))"
  by (simp add: seq_p_def bind_returns)

lemma basic_returns [returns]:
  "ret x s = (Ok y, t) \<longleftrightarrow> y = x \<and> t = s" "throw er s \<noteq> (Ok y, t)"
  "give r s = (Ok y, t) \<longleftrightarrow> r = Ok y \<and> t = s" "reads f s = (Ok y, t) \<longleftrightarrow> y = f s \<and> t = s"
  "modify g s = (Ok u, t) \<longleftrightarrow> t = g s" "ensure_p b m s = (Ok u, t) \<longleftrightarrow> b \<and> t = s"
  by (auto simp: ret_def throw_def give_def reads_def modify_def ensure_p_def)

lemma when_returns [returns]:
  "when_p b m s = (Ok u, t) \<longleftrightarrow> (if b then m s = (Ok u, t) else t = s)"
  by (auto simp: when_p_def ret_def)

lemma attempt_returns [returns]:
  "attempt m s = (Ok r, t) \<longleftrightarrow> (case m s of (Ok x, u) \<Rightarrow> r = Ok x \<and> t = u
     | (Err er, u) \<Rightarrow> r = Err er \<and> t = u | (Panic p, u) \<Rightarrow> False)"
  by (cases "m s" rule: outcome_cases) (auto simp: attempt_def)

text \<open>The loop rule: an invariant of the accumulator and the state.\<close>

lemma post_fold:
  assumes "I acc s"
    and "\<And>acc x s. x \<in> set xs \<Longrightarrow> I acc s \<Longrightarrow> post I R (f acc x s)"
  shows "post I R (fold_p f acc xs s)"
  using assms
proof (induction xs arbitrary: acc s)
  case Nil
  then show ?case by simp
next
  case (Cons x xs)
  have "post I R (f acc x s)" using Cons.prems by simp
  then have "post (\<lambda>acc' t. post I R (fold_p f acc' xs t)) R (f acc x s)"
    by (rule post_mono) (use Cons in auto)
  then show ?case by simp
qed

text \<open>
  \<open>keeps I W m\<close>: from a state with \<open>I\<close>, \<open>m\<close> returns or fails in one with \<open>I\<close>; it may panic only in
  one with \<open>W\<close>.
\<close>

definition keeps :: "('s \<Rightarrow> bool) \<Rightarrow> ('s \<Rightarrow> bool) \<Rightarrow> ('s, 'a) prog \<Rightarrow> bool" where
  "keeps I W m \<longleftrightarrow> (\<forall>s. I s \<longrightarrow> (case m s of
      (Ok _, t) \<Rightarrow> I t | (Err _, t) \<Rightarrow> I t | (Panic _, t) \<Rightarrow> W t))"

lemma keeps_post: "(\<And>s. I s \<Longrightarrow> post (\<lambda>_. I) (\<lambda>_. I) (m s)) \<Longrightarrow> keeps I W m"
  unfolding keeps_def
proof (intro allI impI)
  fix s assume a: "\<And>s. I s \<Longrightarrow> post (\<lambda>_. I) (\<lambda>_. I) (m s)" and "I s"
  then show "case m s of (Ok _, t) \<Rightarrow> I t | (Err _, t) \<Rightarrow> I t | (Panic _, t) \<Rightarrow> W t"
    using a [of s] by (cases "m s" rule: outcome_cases) auto
qed

lemma keeps_end: "keeps I I m \<Longrightarrow> I s \<Longrightarrow> I (snd (m s))"
  by (cases "m s" rule: outcome_cases) (auto simp: keeps_def)

lemma keeps_iff_post: "keeps I (\<lambda>_. False) m \<longleftrightarrow> (\<forall>s. I s \<longrightarrow> post (\<lambda>_. I) (\<lambda>_. I) (m s))"
proof
  assume k: "keeps I (\<lambda>_. False) m"
  show "\<forall>s. I s \<longrightarrow> post (\<lambda>_. I) (\<lambda>_. I) (m s)"
  proof (intro allI impI)
    fix s assume "I s"
    with k have "case m s of (Ok _, t) \<Rightarrow> I t | (Err _, t) \<Rightarrow> I t | (Panic _, t) \<Rightarrow> False"
      by (simp add: keeps_def)
    then show "post (\<lambda>_. I) (\<lambda>_. I) (m s)" by (cases "m s" rule: outcome_cases) auto
  qed
qed (auto intro: keeps_post)

lemma keeps_ret [keeps_intros]: "keeps I W (ret x)"
  by (rule keeps_post) simp

lemma keeps_throw [keeps_intros]: "keeps I W (throw e)"
  by (rule keeps_post) simp

lemma keeps_reads [keeps_intros]: "keeps I W (reads f)"
  by (rule keeps_post) simp

lemma keeps_ensure [keeps_intros]: "keeps I W (ensure_p b m)"
  by (rule keeps_post) simp

lemma keeps_give: "(\<And>p. r \<noteq> Panic p) \<Longrightarrow> keeps I W (give r)"
  by (rule keeps_post) (simp add: post_give split: res.split)

lemma keeps_modify [keeps_intros]: "(\<And>s. I s \<Longrightarrow> I (f s)) \<Longrightarrow> keeps I W (modify f)"
  by (rule keeps_post) simp

lemma keeps_bind [keeps_intros]:
  assumes "keeps I W m" "\<And>x. keeps I W (f x)"
  shows "keeps I W (bind_p m f)"
  unfolding keeps_def
proof (intro allI impI)
  fix s assume "I s"
  with assms(1) have m: "case m s of (Ok _, t) \<Rightarrow> I t | (Err _, t) \<Rightarrow> I t | (Panic _, t) \<Rightarrow> W t"
    by (simp add: keeps_def)
  show "case bind_p m f s of (Ok _, t) \<Rightarrow> I t | (Err _, t) \<Rightarrow> I t | (Panic _, t) \<Rightarrow> W t"
    using m assms(2) by (cases "m s" rule: outcome_cases) (simp_all add: bind_p_def keeps_def)
qed

lemma keeps_bind_give:
  "(\<And>p. r \<noteq> Panic p) \<Longrightarrow> (\<And>x. r = Ok x \<Longrightarrow> keeps I W (f x)) \<Longrightarrow>
     keeps I W (bind_p (give r) f)"
  by (cases r) (auto simp: keeps_def bind_p_def give_def)

lemma keeps_seq [keeps_intros]: "keeps I W m \<Longrightarrow> keeps I W n \<Longrightarrow> keeps I W (seq_p m n)"
  unfolding seq_p_def by (intro keeps_bind)

lemma keeps_when [keeps_intros]: "(b \<Longrightarrow> keeps I W m) \<Longrightarrow> keeps I W (when_p b m)"
  by (simp add: when_p_def keeps_ret)

lemma keeps_if [keeps_intros]:
  "(b \<Longrightarrow> keeps I W m) \<Longrightarrow> (\<not> b \<Longrightarrow> keeps I W n) \<Longrightarrow> keeps I W (if b then m else n)"
  by simp

lemma keeps_attempt [keeps_intros]:
  assumes "keeps I W m"
  shows "keeps I W (attempt m)"
  unfolding keeps_def
proof (intro allI impI)
  fix s assume "I s"
  with assms have m: "case m s of (Ok _, t) \<Rightarrow> I t | (Err _, t) \<Rightarrow> I t | (Panic _, t) \<Rightarrow> W t"
    by (simp add: keeps_def)
  then show "case attempt m s of (Ok _, t) \<Rightarrow> I t | (Err _, t) \<Rightarrow> I t | (Panic _, t) \<Rightarrow> W t"
    by (cases "m s" rule: outcome_cases) (simp_all add: attempt_def)
qed

lemma keeps_option [keeps_intros]:
  "keeps I W m \<Longrightarrow> (\<And>x. keeps I W (f x)) \<Longrightarrow>
     keeps I W (case v of None \<Rightarrow> m | Some x \<Rightarrow> f x)"
  by (cases v) auto

lemma keeps_res [keeps_intros]:
  "(\<And>x. keeps I W (f x)) \<Longrightarrow> (\<And>e. keeps I W (g e)) \<Longrightarrow> (\<And>p. keeps I W (h p)) \<Longrightarrow>
     keeps I W (case v of Ok x \<Rightarrow> f x | Err e \<Rightarrow> g e | Panic p \<Rightarrow> h p)"
  by (cases v) auto

lemma keeps_sum [keeps_intros]:
  "(\<And>x. keeps I W (f x)) \<Longrightarrow> (\<And>y. keeps I W (g y)) \<Longrightarrow>
     keeps I W (case v of Inl x \<Rightarrow> f x | Inr y \<Rightarrow> g y)"
  by (cases v) auto

lemma keeps_fold [keeps_intros]:
  "(\<And>acc x. x \<in> set xs \<Longrightarrow> keeps I W (f acc x)) \<Longrightarrow> keeps I W (fold_p f acc xs)"
  by (induction xs arbitrary: acc) (auto intro!: keeps_intros)

section \<open>Fixed-width arithmetic\<close>

definition saturating_add :: "'a::len word \<Rightarrow> 'a word \<Rightarrow> 'a word" where
  "saturating_add a b = (if unat a + unat b < 2 ^ LENGTH('a) then a + b else - 1)"

definition saturating_sub :: "'a::len word \<Rightarrow> 'a word \<Rightarrow> 'a word" where
  "saturating_sub a b = (if b \<le> a then a - b else 0)"

definition saturating_mul :: "'a::len word \<Rightarrow> 'a word \<Rightarrow> 'a word" where
  "saturating_mul a b = (if unat a * unat b < 2 ^ LENGTH('a) then a * b else - 1)"

definition checked_mul :: "'a::len word \<Rightarrow> 'a word \<Rightarrow> 'a word option" where
  "checked_mul a b = (if unat a * unat b < 2 ^ LENGTH('a) then Some (a * b) else None)"

lemma unat_saturating_add:
  "unat (saturating_add a b) = min (unat a + unat b) (2 ^ LENGTH('a) - 1)"
  for a b :: "'a::len word"
proof (cases "unat a + unat b < 2 ^ LENGTH('a)")
  case True
  then show ?thesis by (simp add: saturating_add_def unat_word_ariths)
next
  case False
  then show ?thesis by (simp add: saturating_add_def unsigned_minus_1_eq_mask mask_eq_exp_minus_1)
qed

lemma unat_saturating_sub: "unat (saturating_sub a b) = unat a - unat b"
  by (auto simp: saturating_sub_def unat_sub word_le_nat_alt)

lemma unat_checked_mul: "checked_mul a b = Some c \<Longrightarrow> unat c = unat a * unat b"
  by (auto simp: checked_mul_def unat_word_ariths split: if_splits)

lemma saturating_add_mono: "a \<le> saturating_add a b"
  for a b :: "'a::len word"
proof -
  have "unat a < 2 ^ LENGTH('a)" by (rule unsigned_less)
  then have "unat a \<le> 2 ^ LENGTH('a) - Suc 0" by linarith
  then show ?thesis by (simp add: word_le_nat_alt unat_saturating_add)
qed

section \<open>Byte strings\<close>

definition byte :: "char \<Rightarrow> nat" where
  "byte c = of_char c"

definition is_ascii_digit :: "char \<Rightarrow> bool" where
  "is_ascii_digit c \<longleftrightarrow> 48 \<le> byte c \<and> byte c \<le> 57"

definition is_ascii_alphabetic :: "char \<Rightarrow> bool" where
  "is_ascii_alphabetic c \<longleftrightarrow>
     65 \<le> byte c \<and> byte c \<le> 90 \<or> 97 \<le> byte c \<and> byte c \<le> 122"

definition is_ascii_alphanumeric :: "char \<Rightarrow> bool" where
  "is_ascii_alphanumeric c \<longleftrightarrow> is_ascii_digit c \<or> is_ascii_alphabetic c"

definition to_ascii_lowercase :: "char \<Rightarrow> char" where
  "to_ascii_lowercase c =
     (if 65 \<le> byte c \<and> byte c \<le> 90 then char_of (byte c + 32) else c)"

fun strip_prefix :: "string \<Rightarrow> string \<Rightarrow> string option" where
  "strip_prefix [] s = Some s"
| "strip_prefix (p # ps) [] = None"
| "strip_prefix (p # ps) (c # s) = (if p = c then strip_prefix ps s else None)"

definition starts_with :: "string \<Rightarrow> string \<Rightarrow> bool" where
  "starts_with p s \<longleftrightarrow> strip_prefix p s \<noteq> None"

definition ends_with :: "string \<Rightarrow> string \<Rightarrow> bool" where
  "ends_with p s \<longleftrightarrow> starts_with (rev p) (rev s)"

definition split_once :: "char \<Rightarrow> string \<Rightarrow> (string \<times> string) option" where
  "split_once c s = (case dropWhile (\<lambda>x. x \<noteq> c) s of
      [] \<Rightarrow> None | _ # rest \<Rightarrow> Some (takeWhile (\<lambda>x. x \<noteq> c) s, rest))"

text \<open>\<open>s.rsplit(c).next()\<close>: what follows the last \<open>c\<close>.\<close>

definition last_segment :: "char \<Rightarrow> string \<Rightarrow> string" where
  "last_segment c s = rev (takeWhile (\<lambda>x. x \<noteq> c) (rev s))"

lemma strip_prefix_Some: "strip_prefix p s = Some t \<longleftrightarrow> s = p @ t"
  by (induction p s rule: strip_prefix.induct) auto

lemma starts_with_prefix: "starts_with p s \<longleftrightarrow> prefix p s"
  by (simp add: starts_with_def prefix_def strip_prefix_Some)

lemma ends_with_suffix: "ends_with p s \<longleftrightarrow> suffix p s"
  by (simp add: ends_with_def starts_with_prefix suffix_to_prefix)

lemma split_once_Some: "split_once c s = Some (a, b) \<longleftrightarrow> s = a @ c # b \<and> c \<notin> set a"
proof -
  have "s = a @ c # b \<Longrightarrow> c \<notin> set a \<Longrightarrow> split_once c s = Some (a, b)"
    by (simp add: split_once_def dropWhile_append2 takeWhile_append2)
      (auto simp: dropWhile_append takeWhile_append)
  moreover have "s = a @ c # b \<and> c \<notin> set a" if sp: "split_once c s = Some (a, b)"
  proof -
    obtain d rest where dr: "dropWhile (\<lambda>x. x \<noteq> c) s = d # rest"
      using sp by (cases "dropWhile (\<lambda>x. x \<noteq> c) s") (simp_all add: split_once_def del: dropWhile_eq_Nil_conv)
    then have d: "dropWhile (\<lambda>x. x \<noteq> c) s = d # b" and a: "a = takeWhile (\<lambda>x. x \<noteq> c) s"
      using sp by (simp_all add: split_once_def)
    have "d = c" using d hd_dropWhile [of "\<lambda>x. x \<noteq> c" s] by auto
    then show ?thesis
      using a d takeWhile_dropWhile_id [of "\<lambda>x. x \<noteq> c" s] by (auto dest: set_takeWhileD)
  qed
  ultimately show ?thesis by blast
qed

text \<open>
  The characters with the Unicode property White\_Space (\<open>char::is_whitespace\<close>), as their UTF-8
  byte sequences. UTF-8 is self-synchronising, so in a valid \<open>String\<close> such a sequence only
  occurs as that character.
\<close>

definition bytes :: "nat list \<Rightarrow> string" where
  "bytes ns = map char_of ns"

definition whitespace_sequences :: "string list" where
  "whitespace_sequences =
     [[CHR 0x09], [CHR 0x0A], [CHR 0x0B], [CHR 0x0C], [CHR 0x0D], [CHR 0x20],
      [CHR 0xC2, CHR 0x85], [CHR 0xC2, CHR 0xA0], [CHR 0xE1, CHR 0x9A, CHR 0x80],
      [CHR 0xE2, CHR 0x80, CHR 0x80], [CHR 0xE2, CHR 0x80, CHR 0x81],
      [CHR 0xE2, CHR 0x80, CHR 0x82], [CHR 0xE2, CHR 0x80, CHR 0x83],
      [CHR 0xE2, CHR 0x80, CHR 0x84], [CHR 0xE2, CHR 0x80, CHR 0x85],
      [CHR 0xE2, CHR 0x80, CHR 0x86], [CHR 0xE2, CHR 0x80, CHR 0x87],
      [CHR 0xE2, CHR 0x80, CHR 0x88], [CHR 0xE2, CHR 0x80, CHR 0x89],
      [CHR 0xE2, CHR 0x80, CHR 0x8A], [CHR 0xE2, CHR 0x80, CHR 0xA8],
      [CHR 0xE2, CHR 0x80, CHR 0xA9], [CHR 0xE2, CHR 0x80, CHR 0xAF],
      [CHR 0xE2, CHR 0x81, CHR 0x9F], [CHR 0xE3, CHR 0x80, CHR 0x80]]"

fun strip_first :: "string list \<Rightarrow> string \<Rightarrow> string option" where
  "strip_first [] s = None"
| "strip_first (p # ps) s = (case strip_prefix p s of Some t \<Rightarrow> Some t | None \<Rightarrow> strip_first ps s)"

fun contains_any :: "string list \<Rightarrow> string \<Rightarrow> bool" where
  "contains_any ps [] \<longleftrightarrow> strip_first ps [] \<noteq> None"
| "contains_any ps (c # s) \<longleftrightarrow> strip_first ps (c # s) \<noteq> None \<or> contains_any ps s"

definition has_whitespace :: "string \<Rightarrow> bool" where
  "has_whitespace s = contains_any whitespace_sequences s"

text \<open>Repeated stripping; every sequence is nonempty, so the length of the string is enough fuel.\<close>

fun strip_all :: "string list \<Rightarrow> nat \<Rightarrow> string \<Rightarrow> string" where
  "strip_all ps 0 s = s"
| "strip_all ps (Suc n) s = (case strip_first ps s of None \<Rightarrow> s | Some t \<Rightarrow> strip_all ps n t)"

definition trim_start :: "string \<Rightarrow> string" where
  "trim_start s = strip_all whitespace_sequences (length s) s"

definition trim_end :: "string \<Rightarrow> string" where
  "trim_end s = rev (strip_all (map rev whitespace_sequences) (length s) (rev s))"

definition trim :: "string \<Rightarrow> string" where
  "trim s = trim_end (trim_start s)"

section \<open>Decimal text\<close>

definition digit :: "nat \<Rightarrow> char" where
  "digit n = char_of (48 + n)"

fun decimal :: "nat \<Rightarrow> string" where
  "decimal n = (if n < 10 then [digit n] else decimal (n div 10) @ [digit (n mod 10)])"

declare decimal.simps [simp del]

definition digits_value :: "string \<Rightarrow> nat" where
  "digits_value s = foldl (\<lambda>a c. a * 10 + (byte c - 48)) 0 s"

text \<open>
  \<open>str::parse\<close> for an unsigned integer of width \<open>w\<close>: an optional \<open>+\<close>, then at least one digit
  and nothing else, and a value that fits.
\<close>

definition parse_unsigned :: "nat \<Rightarrow> string \<Rightarrow> nat option" where
  "parse_unsigned w s =
     (let ds = (case s of [] \<Rightarrow> s | c # cs \<Rightarrow> if c = CHR ''+'' then cs else s) in
      if ds \<noteq> [] \<and> list_all is_ascii_digit ds \<and> digits_value ds < 2 ^ w
      then Some (digits_value ds) else None)"

definition parse_u64 :: "string \<Rightarrow> u64 option" where
  "parse_u64 s = map_option of_nat (parse_unsigned 64 s)"

definition text_of :: "'a::len word \<Rightarrow> string" where
  "text_of w = decimal (unat w)"

lemma byte_digit [simp]: "n < 10 \<Longrightarrow> byte (digit n) = 48 + n"
  by (simp add: byte_def digit_def)

lemma is_ascii_digit_digit [simp]: "n < 10 \<Longrightarrow> is_ascii_digit (digit n)"
  by (simp add: is_ascii_digit_def)

lemma decimal_digits: "list_all is_ascii_digit (decimal n) \<and> decimal n \<noteq> []"
proof (induction n rule: decimal.induct)
  case (1 n)
  then show ?case by (cases "n < 10") (simp_all add: decimal.simps [of n])
qed

lemma digits_value_decimal: "digits_value (decimal n) = n"
proof (induction n rule: decimal.induct)
  case (1 n)
  then show ?case
    by (cases "n < 10") (simp_all add: decimal.simps [of n] digits_value_def)
qed

lemma parse_unsigned_decimal: "n < 2 ^ w \<Longrightarrow> parse_unsigned w (decimal n) = Some n"
proof -
  assume n: "n < 2 ^ w"
  obtain c cs where c: "decimal n = c # cs" using decimal_digits [of n] by (cases "decimal n") auto
  with decimal_digits [of n] have "is_ascii_digit c" by simp
  then have "c \<noteq> CHR ''+''" by (auto simp: is_ascii_digit_def byte_def)
  with c n decimal_digits [of n] digits_value_decimal [of n] show ?thesis
    by (simp add: parse_unsigned_def)
qed

lemma parse_u64_text_of: "parse_u64 (text_of w) = Some w"
proof -
  have "unat w < 2 ^ 64" using unsigned_less [of w] by simp
  then have "parse_unsigned 64 (decimal (unat w)) = Some (unat w)" by (rule parse_unsigned_decimal)
  then show ?thesis by (simp add: parse_u64_def text_of_def)
qed

end
