(* ===== verification/Ordered_Map.thy ===== *)
theory Ordered_Map
  imports Prelude
begin

text \<open>
  \<open>std::collections::BTreeMap<String, V>\<close>: the entries in increasing key order, which is the
  order \<open>keys\<close>, \<open>values\<close> and \<open>iter\<close> visit and which the manager's round robin and JSON output
  depend on. Keys are compared bytewise, as \<open>String\<close> is.
\<close>

section \<open>The interface\<close>

text \<open>
  What a client of an ordered map relies on: lookups after an insertion or a removal, the keys
  in order, the invariant kept.
\<close>

locale finite_map =
  fixes empty :: "'m"
    and lookup :: "'m \<Rightarrow> 'k \<Rightarrow> 'v option"
    and insert :: "'k \<Rightarrow> 'v \<Rightarrow> 'm \<Rightarrow> 'm"
    and delete :: "'k \<Rightarrow> 'm \<Rightarrow> 'm"
    and keys :: "'m \<Rightarrow> 'k list"
    and invar :: "'m \<Rightarrow> bool"
  assumes lookup_empty: "lookup empty k = None"
    and lookup_insert: "lookup (insert k v m) = (lookup m)(k \<mapsto> v)"
    and lookup_delete: "lookup (delete k m) = (lookup m)(k := None)"
    and set_keys: "set (keys m) = dom (lookup m)"
    and invar_empty: "invar empty"
    and invar_insert: "invar m \<Longrightarrow> invar (insert k v m)"
    and invar_delete: "invar m \<Longrightarrow> invar (delete k m)"
begin

lemma keys_empty: "set (keys empty) = {}"
  by (auto simp: set_keys lookup_empty)

lemma keys_insert: "set (keys (insert k v m)) = Set.insert k (set (keys m))"
  by (auto simp: set_keys lookup_insert)

lemma keys_delete: "set (keys (delete k m)) = set (keys m) - {k}"
  by (auto simp: set_keys lookup_delete)

lemma lookup_in_keys: "lookup m k = Some v \<Longrightarrow> k \<in> set (keys m)"
  by (auto simp: set_keys)

lemma in_keys_lookup: "k \<in> set (keys m) \<Longrightarrow> \<exists>v. lookup m k = Some v"
  by (auto simp: set_keys)

lemma not_in_keys: "k \<notin> set (keys m) \<longleftrightarrow> lookup m k = None"
  by (auto simp: set_keys)

end

locale ordered_finite_map = finite_map +
  fixes less :: "'k \<Rightarrow> 'k \<Rightarrow> bool"
  assumes irrefl: "\<not> less k k"
    and keys_sorted: "invar m \<Longrightarrow> sorted_wrt less (keys m)"
begin

lemma keys_distinct: "invar m \<Longrightarrow> distinct (keys m)"
  using keys_sorted [of m] unfolding distinct_conv_nth sorted_wrt_iff_nth_less
  by (metis irrefl linorder_neqE_nat)

lemma card_keys: "invar m \<Longrightarrow> card (set (keys m)) = length (keys m)"
  by (simp add: distinct_card keys_distinct)

lemma length_insert_old:
  "invar m \<Longrightarrow> k \<in> set (keys m) \<Longrightarrow> length (keys (insert k v m)) = length (keys m)"
  using card_keys [of m] card_keys [of "insert k v m"] invar_insert [of m k v]
  by (simp add: keys_insert insert_absorb)

lemma length_insert_new:
  "invar m \<Longrightarrow> k \<notin> set (keys m) \<Longrightarrow> length (keys (insert k v m)) = Suc (length (keys m))"
  using card_keys [of m] card_keys [of "insert k v m"] invar_insert [of m k v]
  by (simp add: keys_insert)

lemma length_delete_le: "invar m \<Longrightarrow> length (keys (delete k m)) \<le> length (keys m)"
  using card_keys [of m] card_keys [of "delete k m"] invar_delete [of m k]
    card_mono [of "set (keys m)" "set (keys m) - {k}"]
  by (simp add: keys_delete)

end

section \<open>The map of the standard library\<close>

type_synonym 'v bmap = "(string \<times> 'v) list"

abbreviation bm_get :: "'v bmap \<Rightarrow> string \<Rightarrow> 'v option" where
  "bm_get m \<equiv> map_of m"

fun bm_insert :: "string \<Rightarrow> 'v \<Rightarrow> 'v bmap \<Rightarrow> 'v bmap" where
  "bm_insert k v [] = [(k, v)]"
| "bm_insert k v ((k', v') # m) =
     (if k < k' then (k, v) # (k', v') # m
      else if k = k' then (k, v) # m
      else (k', v') # bm_insert k v m)"

definition bm_remove :: "string \<Rightarrow> 'v bmap \<Rightarrow> 'v bmap" where
  "bm_remove k m = filter (\<lambda>e. fst e \<noteq> k) m"

definition bm_keys :: "'v bmap \<Rightarrow> string list" where
  "bm_keys m = map fst m"

definition bm_values :: "'v bmap \<Rightarrow> 'v list" where
  "bm_values m = map snd m"

definition bm_contains_key :: "'v bmap \<Rightarrow> string \<Rightarrow> bool" where
  "bm_contains_key m k \<longleftrightarrow> bm_get m k \<noteq> None"

text \<open>\<open>get_mut\<close> followed by an assignment through the reference; a missing key changes nothing.\<close>

definition bm_update :: "string \<Rightarrow> ('v \<Rightarrow> 'v) \<Rightarrow> 'v bmap \<Rightarrow> 'v bmap" where
  "bm_update k f m = map (\<lambda>e. if fst e = k then (fst e, f (snd e)) else e) m"

text \<open>\<open>values_mut().filter(p)\<close> with an assignment in the loop body.\<close>

definition bm_update_where :: "('v \<Rightarrow> bool) \<Rightarrow> ('v \<Rightarrow> 'v) \<Rightarrow> 'v bmap \<Rightarrow> 'v bmap" where
  "bm_update_where p f m = map (\<lambda>e. if p (snd e) then (fst e, f (snd e)) else e) m"

definition bm_of_list :: "(string \<times> 'v) list \<Rightarrow> 'v bmap" where
  "bm_of_list xs = fold (\<lambda>e. bm_insert (fst e) (snd e)) xs []"

definition bm_invar :: "'v bmap \<Rightarrow> bool" where
  "bm_invar m \<longleftrightarrow> sorted_wrt (<) (bm_keys m)"

lemma set_bm_keys: "set (bm_keys m) = dom (bm_get m)"
  by (simp add: bm_keys_def dom_map_of_conv_image_fst)

lemma bm_get_insert [simp]: "bm_get (bm_insert k v m) = (bm_get m)(k \<mapsto> v)"
  by (induction k v m rule: bm_insert.induct) auto

lemma bm_get_remove [simp]: "bm_get (bm_remove k m) = (bm_get m)(k := None)"
  by (induction m) (auto simp: bm_remove_def)

lemma set_keys_insert: "set (bm_keys (bm_insert k v m)) = insert k (set (bm_keys m))"
  by (auto simp: set_bm_keys)

lemma bm_invar_insert [simp]: "bm_invar m \<Longrightarrow> bm_invar (bm_insert k v m)"
proof (induction k v m rule: bm_insert.induct)
  case (2 k v k' v' m)
  have "set (map fst (bm_insert k v m)) = insert k (set (map fst m))"
    using set_keys_insert [of k v m] by (simp add: bm_keys_def)
  with 2 show ?case by (auto simp: bm_invar_def bm_keys_def)
qed (simp add: bm_invar_def bm_keys_def)

lemma bm_invar_remove [simp]: "bm_invar m \<Longrightarrow> bm_invar (bm_remove k m)"
  unfolding bm_invar_def bm_keys_def bm_remove_def
  by (induction m) auto

interpretation bm: finite_map "[] :: 'v bmap" bm_get bm_insert bm_remove bm_keys bm_invar
  by unfold_locales (simp_all add: set_bm_keys, simp add: bm_invar_def bm_keys_def)

interpretation obm: ordered_finite_map "[] :: 'v bmap" bm_get bm_insert bm_remove bm_keys bm_invar
  "(<)"
  by unfold_locales (auto simp: bm_invar_def)

section \<open>Updates in place\<close>

lemma bm_keys_update [simp]: "bm_keys (bm_update k f m) = bm_keys m"
  by (auto simp: bm_keys_def bm_update_def)

lemma bm_keys_update_where [simp]: "bm_keys (bm_update_where p f m) = bm_keys m"
  by (auto simp: bm_keys_def bm_update_where_def)

lemma bm_invar_update [simp]: "bm_invar (bm_update k f m) = bm_invar m"
  by (simp add: bm_invar_def)

lemma bm_invar_update_where [simp]: "bm_invar (bm_update_where p f m) = bm_invar m"
  by (simp add: bm_invar_def)

lemma bm_get_update [simp]:
  "bm_get (bm_update k f m) x = (if x = k then map_option f (bm_get m k) else bm_get m x)"
  by (induction m) (auto simp: bm_update_def)

lemma bm_get_update_where [simp]:
  "bm_get (bm_update_where p f m) x = map_option (\<lambda>v. if p v then f v else v) (bm_get m x)"
  by (induction m) (auto simp: bm_update_where_def)

lemma bm_contains_key_keys: "bm_contains_key m k \<longleftrightarrow> k \<in> set (bm_keys m)"
  by (auto simp: bm_contains_key_def set_bm_keys)

lemma set_bm_values: "bm_invar m \<Longrightarrow> set (bm_values m) = ran (bm_get m)"
  using obm.keys_distinct [of m]
  by (simp add: bm_values_def bm_keys_def ran_distinct)

lemma bm_values_iff: "bm_invar m \<Longrightarrow> v \<in> set (bm_values m) \<longleftrightarrow> (\<exists>k. bm_get m k = Some v)"
  by (auto simp: set_bm_values ran_def)

lemma bm_get_values: "bm_get m k = Some v \<Longrightarrow> v \<in> set (bm_values m)"
  by (force simp: bm_values_def dest: map_of_SomeD)

lemma bm_values_the: "bm_invar m \<Longrightarrow> bm_values m = map (\<lambda>k. the (bm_get m k)) (bm_keys m)"
  using obm.keys_distinct [of m] by (auto simp: bm_values_def bm_keys_def)

lemma bm_values_map:
  assumes "bm_invar m" "bm_keys m' = bm_keys m" "\<And>k. bm_get m' k = map_option f (bm_get m k)"
  shows "bm_values m' = map f (bm_values m)"
proof -
  have "bm_invar m'" using assms(1,2) by (simp add: bm_invar_def)
  moreover have "\<exists>v. bm_get m k = Some v" if "k \<in> set (bm_keys m)" for k
    using that by (rule bm.in_keys_lookup)
  ultimately show ?thesis using assms by (fastforce simp: bm_values_the)
qed

lemma length_bm_values: "length (bm_values m) = length (bm_keys m)"
  by (simp add: bm_values_def bm_keys_def)

lemma length_bm_keys: "length (bm_keys m) = length m"
  by (simp add: bm_keys_def)

lemma length_bm_update [simp]: "length (bm_update k f m) = length m"
  by (simp add: bm_update_def)

lemma length_bm_update_where [simp]: "length (bm_update_where p f m) = length m"
  by (simp add: bm_update_where_def)

lemma fold_insert_aux:
  "bm_invar a \<Longrightarrow>
     bm_invar (fold (\<lambda>e. bm_insert (fst e) (snd e)) xs a)
     \<and> set (bm_keys (fold (\<lambda>e. bm_insert (fst e) (snd e)) xs a)) = set (bm_keys a) \<union> fst ` set xs"
  by (induction xs arbitrary: a) (auto simp: bm.keys_insert)

lemma bm_of_list_invar [simp]: "bm_invar (bm_of_list xs)"
  using fold_insert_aux [of "[]" xs] by (simp add: bm_of_list_def bm.invar_empty)

lemma bm_of_list_keys: "set (bm_keys (bm_of_list xs)) = fst ` set xs"
  using fold_insert_aux [of "[]" xs] by (simp add: bm_of_list_def bm.invar_empty bm.keys_empty)

end
