(* ===== verification/Json_Value.thy ===== *)
theory Json_Value
  imports Complex_Main Ordered_Map
begin

text \<open>
  The JSON values the program builds and reads (\<open>serde_json::Value\<close>): the data type of JSON, its
  objects being ordered maps, and the accessors the code uses. Indexing a value that is no
  object, or has no such key, gives \<open>Null\<close>.
\<close>

section \<open>Floating-point numbers\<close>

text \<open>
  An \<open>f64\<close> as its exact value, an infinity (negative or not) or a NaN. The code compares and
  prints such numbers but never computes with them, so no rounding is modelled; the two zeros
  are one value, as they are for \<open>==\<close>.
\<close>

datatype f64 = Finite rat | Infinity bool | NaN

fun f64_eq :: "f64 \<Rightarrow> f64 \<Rightarrow> bool" where
  "f64_eq (Finite a) (Finite b) = (a = b)"
| "f64_eq (Infinity a) (Infinity b) = (a = b)"
| "f64_eq _ _ = False"

fun option_f64_eq :: "f64 option \<Rightarrow> f64 option \<Rightarrow> bool" where
  "option_f64_eq None None = True"
| "option_f64_eq (Some a) (Some b) = f64_eq a b"
| "option_f64_eq _ _ = False"

text \<open>The double nearest to one hundredth, the literal \<open>0.01\<close> of the source.\<close>

definition f64_hundredth :: rat where
  "f64_hundredth = 5764607523034235 / 2 ^ 59"

section \<open>Values\<close>

datatype json =
    JNull
  | JBool bool
  | JNum int
  | JFloat f64
  | JStr string
  | JArr "json list"
  | JObj "(string \<times> json) list"

definition jobj :: "(string \<times> json) list \<Rightarrow> json" where
  "jobj kvs = JObj (bm_of_list kvs)"

text \<open>serde writes a double that is not finite as \<open>null\<close>.\<close>

definition f64_json :: "f64 \<Rightarrow> json" where
  "f64_json c = (case c of Finite q \<Rightarrow> JFloat (Finite q) | _ \<Rightarrow> JNull)"

definition jword :: "'a::len word \<Rightarrow> json" where
  "jword w = JNum (uint w)"

fun jopt :: "('a \<Rightarrow> json) \<Rightarrow> 'a option \<Rightarrow> json" where
  "jopt f None = JNull"
| "jopt f (Some x) = f x"

fun json_find :: "json \<Rightarrow> string \<Rightarrow> json option" where
  "json_find (JObj kvs) k = bm_get kvs k"
| "json_find _ k = None"

definition json_get :: "json \<Rightarrow> string \<Rightarrow> json" where
  "json_get v k = (case json_find v k of None \<Rightarrow> JNull | Some x \<Rightarrow> x)"

fun json_nth :: "json \<Rightarrow> nat \<Rightarrow> json" where
  "json_nth (JArr vs) i = (if i < length vs then vs ! i else JNull)"
| "json_nth _ i = JNull"

fun as_str :: "json \<Rightarrow> string option" where
  "as_str (JStr s) = Some s"
| "as_str _ = None"

fun as_array :: "json \<Rightarrow> json list option" where
  "as_array (JArr vs) = Some vs"
| "as_array _ = None"

fun as_u64 :: "json \<Rightarrow> u64 option" where
  "as_u64 (JNum n) = (if 0 \<le> n \<and> n < 2 ^ 64 then Some (word_of_int n) else None)"
| "as_u64 _ = None"

fun as_bool :: "json \<Rightarrow> bool option" where
  "as_bool (JBool b) = Some b"
| "as_bool _ = None"

text \<open>Assignment through an index: a \<open>Null\<close> becomes an object, any other non-object panics.\<close>

fun json_set :: "string \<Rightarrow> json \<Rightarrow> json \<Rightarrow> json res" where
  "json_set k v (JObj kvs) = Ok (JObj (bm_insert k v kvs))"
| "json_set k v JNull = Ok (JObj (bm_insert k v []))"
| "json_set k v _ = Panic ''cannot access key in JSON value''"

lemma json_find_jobj_update [simp]:
  "json_find (JObj (bm_insert k v kvs)) x = (if x = k then Some v else json_find (JObj kvs) x)"
  by simp

lemma json_get_set:
  "json_set k v j = Ok j' \<Longrightarrow> json_get j' x = (if x = k then v else json_get j x)"
  by (cases j) (auto simp: json_get_def)

lemma as_u64_jword [simp]: "as_u64 (jword w) = Some w" for w :: u64
proof -
  have "uint w < 2 ^ 64" using unsigned_less [of w] by simp
  then show ?thesis by (simp add: jword_def)
qed

end
