(* ===== verification/Config.thy ===== *)
theory Config
  imports Json_Value
begin

text \<open>
  The configuration (src/config.rs): its data, the validation every configuration passes before
  it is stored, the warnings, and the paths and credential references. The declarative
  specification of a valid configuration is \<open>well_formed_config\<close>; \<open>validate\<close> implements it.
\<close>

section \<open>Data\<close>

record app_auth =
  app_id :: string
  installation_id :: u64
  private_key :: string

record auth =
  au_credential :: string
  au_app :: "app_auth option"

definition auth_pat :: "string \<Rightarrow> auth" where
  "auth_pat c = \<lparr>au_credential = c, au_app = None\<rparr>"

record manager =
  mg_poll_interval_seconds :: u64
  mg_max_runners :: u32
  mg_max_parallel_creates :: u32
  mg_log_retention_days :: u64

definition default_manager :: manager where
  "default_manager =
     \<lparr>mg_poll_interval_seconds = 30, mg_max_runners = 16, mg_max_parallel_creates = 1,
      mg_log_retention_days = 7\<rparr>"

record pool =
  pl_name :: string
  pl_organization :: string
  pl_repository :: "string option"
  pl_auth :: string
  pl_labels :: "string list"
  pl_runner_group :: string
  pl_replicas :: u32
  pl_image :: string
  pl_docker_socket :: bool
  pl_allow_privilege_escalation :: bool
  pl_cpus :: "f64 option"
  pl_memory :: "string option"

record config =
  cfg_schema_version :: u32
  cfg_auth :: "auth bmap"
  cfg_manager :: manager
  cfg_pools :: "pool list"

definition default_config :: config where
  "default_config =
     \<lparr>cfg_schema_version = 1, cfg_auth = [], cfg_manager = default_manager, cfg_pools = []\<rparr>"

section \<open>Scopes and addresses of a pool\<close>

definition pool_target :: "pool \<Rightarrow> string" where
  "pool_target p = (case pl_repository p of Some r \<Rightarrow> r | None \<Rightarrow> pl_organization p)"

definition api_scope :: "pool \<Rightarrow> string" where
  "api_scope p = (case pl_repository p of
      Some repo \<Rightarrow> ''/repos/'' @ repo
    | None \<Rightarrow> ''/orgs/'' @ pl_organization p)"

definition pool_url :: "pool \<Rightarrow> string" where
  "pool_url p = ''https://github.com/'' @ pool_target p"

definition default_group :: string where
  "default_group = ''Default''"

definition default_image :: string where
  "default_image = ''ghcr.io/clroot/runnerctl-runner:v0.3.1''"

section \<open>Validation of the parts\<close>

definition validate_image :: "string \<Rightarrow> unit res" where
  "validate_image img =
     and_then (ensure (img \<noteq> [] \<and> \<not> starts_with ''-'' img \<and> \<not> has_whitespace img)
        ''invalid image'') (\<lambda>_.
     and_then (ensure (CHR ''@'' \<in> set img \<or> CHR '':'' \<in> set (last_segment (CHR ''/'') img))
        ''pin image with a version tag or digest'') (\<lambda>_.
     ensure (\<not> ends_with '':latest'' img)
        ''latest image tag is not allowed; pin a version''))"

definition valid_org :: "string \<Rightarrow> bool" where
  "valid_org s \<longleftrightarrow> s \<noteq> [] \<and> length s \<le> 39
     \<and> list_all (\<lambda>b. is_ascii_alphanumeric b \<or> b = CHR ''-'') s
     \<and> is_ascii_alphanumeric (hd s)"

definition valid_repo :: "string \<Rightarrow> bool" where
  "valid_repo s = (case split_once (CHR ''/'') s of
      None \<Rightarrow> False
    | Some (owner, repo) \<Rightarrow> valid_org owner \<and> repo \<noteq> [] \<and> length repo \<le> 100
        \<and> repo \<noteq> ''.'' \<and> repo \<noteq> ''..''
        \<and> list_all (\<lambda>b. is_ascii_alphanumeric b \<or> b \<in> set ''-_.'') repo)"

text \<open>\<open>Path::is_absolute\<close> on Unix.\<close>

definition is_absolute :: "string \<Rightarrow> bool" where
  "is_absolute p = starts_with ''/'' p"

definition validate_reference :: "string \<Rightarrow> unit res" where
  "validate_reference reference = (case strip_prefix ''file:'' reference of
      Some p \<Rightarrow> ensure (is_absolute p) ''credential file must be absolute''
    | None \<Rightarrow> (case strip_prefix ''env:'' reference of
        Some e \<Rightarrow> ensure (e \<noteq> [] \<and> list_all (\<lambda>b. is_ascii_alphanumeric b \<or> b = CHR ''_'') e)
                   ''invalid credential environment reference''
      | None \<Rightarrow> Err (Msg ''credential must use file: or env:'')))"

definition memory_multiplier :: "string \<Rightarrow> u64 option" where
  "memory_multiplier s =
     (if s = '''' \<or> s = ''b'' then Some 1
      else if s = ''k'' then Some 1024
      else if s = ''m'' then Some (1024 * 1024)
      else if s = ''g'' then Some (1024 * 1024 * 1024)
      else None)"

definition memory_bytes :: "string \<Rightarrow> u64 res" where
  "memory_bytes s =
     and_then (or_error (parse_u64 (takeWhile is_ascii_digit s))
        ''memory must be an integer with optional b/k/m/g suffix'') (\<lambda>value.
     and_then (or_error (memory_multiplier (map to_ascii_lowercase (dropWhile is_ascii_digit s)))
        ''memory must use b/k/m/g suffix'') (\<lambda>multiplier.
     and_then (or_error (checked_mul value multiplier) ''memory limit too large'') (\<lambda>bytes.
     and_then (ensure (6 * 1024 * 1024 \<le> bytes) ''memory must be at least 6 MiB'') (\<lambda>_.
     Ok bytes))))"

definition valid_name :: "string \<Rightarrow> bool" where
  "valid_name s \<longleftrightarrow> s \<noteq> [] \<and> length s \<le> 48
     \<and> list_all (\<lambda>b. is_ascii_alphanumeric b \<or> b = CHR ''-'' \<or> b = CHR ''_'') s
     \<and> is_ascii_alphanumeric (hd s)"

definition valid_cpus :: "f64 \<Rightarrow> bool" where
  "valid_cpus c = (case c of Finite q \<Rightarrow> f64_hundredth \<le> q | _ \<Rightarrow> False)"

definition valid_label :: "string \<Rightarrow> bool" where
  "valid_label l \<longleftrightarrow> trim l \<noteq> [] \<and> length l \<le> 255
     \<and> CHR '','' \<notin> set l \<and> CHR 0x0A \<notin> set l \<and> CHR 0x0D \<notin> set l
     \<and> \<not> starts_with ''pool:'' l"

section \<open>Validation of a configuration\<close>

definition validate_app :: "auth \<Rightarrow> app_auth \<Rightarrow> unit res" where
  "validate_app a app =
     and_then (ensure (au_credential a = [])
        ''choose PAT or GitHub App authentication, not both'') (\<lambda>_.
     and_then (ensure (0 < installation_id app \<and> app_id app \<noteq> [] \<and> length (app_id app) \<le> 64
          \<and> list_all (\<lambda>b. is_ascii_alphanumeric b \<or> b = CHR ''_'') (app_id app))
        ''invalid GitHub App identity'') (\<lambda>_.
     validate_reference (private_key app)))"

definition validate_auth :: "string \<Rightarrow> auth \<Rightarrow> unit res" where
  "validate_auth name a =
     and_then (ensure (valid_name name) ''invalid auth profile name'') (\<lambda>_.
     case au_app a of
       Some app \<Rightarrow> validate_app a app
     | None \<Rightarrow> validate_reference (au_credential a))"

fun validate_auths :: "auth bmap \<Rightarrow> unit res" where
  "validate_auths [] = Ok ()"
| "validate_auths ((name, a) # rest) =
     and_then (validate_auth name a) (\<lambda>_. validate_auths rest)"

text \<open>The body of the loop over the pools; \<open>names\<close> holds the pool names seen so far.\<close>

definition validate_pool :: "auth bmap \<Rightarrow> string list \<Rightarrow> pool \<Rightarrow> unit res" where
  "validate_pool auths names p =
     and_then (ensure (valid_name (pl_name p) \<and> pl_name p \<notin> set names)
        (''invalid or duplicate pool name: '' @ pl_name p)) (\<lambda>_.
     and_then (case pl_repository p of
          Some repo \<Rightarrow> ensure (pl_organization p = [] \<and> valid_repo repo)
            ''invalid repository or both organization/repository set''
        | None \<Rightarrow> ensure (valid_org (pl_organization p)) ''invalid organization'') (\<lambda>_.
     and_then (ensure (pl_repository p = None \<or> pl_runner_group p = ''Default'')
        ''runner groups are only available for organization pools'') (\<lambda>_.
     and_then (case pl_cpus p of
          Some c \<Rightarrow> ensure (valid_cpus c) ''cpus must be finite and at least 0.01''
        | None \<Rightarrow> Ok ()) (\<lambda>_.
     and_then (case pl_memory p of
          Some m \<Rightarrow> and_then (memory_bytes m) (\<lambda>_. Ok ())
        | None \<Rightarrow> Ok ()) (\<lambda>_.
     and_then (ensure (bm_contains_key auths (pl_auth p))
        (''unknown auth profile: '' @ pl_auth p)) (\<lambda>_.
     and_then (ensure (pl_labels p \<noteq> [] \<and> length (pl_labels p) < 100)
        ''pool needs 1..99 custom labels'') (\<lambda>_.
     and_then (ensure (list_all valid_label (pl_labels p)) ''invalid or reserved label'') (\<lambda>_.
     and_then (ensure (trim (pl_runner_group p) \<noteq> [] \<and> CHR 0x0A \<notin> set (pl_runner_group p)
          \<and> CHR 0x0D \<notin> set (pl_runner_group p)) ''invalid runner group'') (\<lambda>_.
     validate_image (pl_image p))))))))))"

fun validate_pools :: "auth bmap \<Rightarrow> string list \<Rightarrow> pool list \<Rightarrow> unit res" where
  "validate_pools auths names [] = Ok ()"
| "validate_pools auths names (p # ps) =
     and_then (validate_pool auths names p) (\<lambda>_. validate_pools auths (pl_name p # names) ps)"

definition total_replicas :: "config \<Rightarrow> nat" where
  "total_replicas c = sum_list (map (unat \<circ> pl_replicas) (cfg_pools c))"

definition validate :: "config \<Rightarrow> unit res" where
  "validate c =
     and_then (ensure (cfg_schema_version c = 1) ''unsupported schema_version'') (\<lambda>_.
     and_then (ensure (5 \<le> mg_poll_interval_seconds (cfg_manager c)
          \<and> mg_poll_interval_seconds (cfg_manager c) \<le> 3600)
        ''poll interval must be 5..3600 seconds'') (\<lambda>_.
     and_then (ensure (0 < mg_max_runners (cfg_manager c)
          \<and> 0 < mg_max_parallel_creates (cfg_manager c)
          \<and> mg_max_parallel_creates (cfg_manager c) \<le> mg_max_runners (cfg_manager c))
        ''invalid manager capacity'') (\<lambda>_.
     and_then (validate_auths (cfg_auth c)) (\<lambda>_.
     and_then (validate_pools (cfg_auth c) [] (cfg_pools c)) (\<lambda>_.
     ensure (total_replicas c \<le> unat (mg_max_runners (cfg_manager c)))
        ''sum of replicas exceeds max_runners (including stopped pools)'')))))"

text \<open>
  \<open>Config::parse\<close>. The TOML reader is a library and a parameter here: \<open>from_toml\<close> is None on
  a text it rejects, and gives the auth profiles in the order of the text; they are collected
  into the ordered map of the field.
\<close>

definition ordered_config :: "config \<Rightarrow> config" where
  "ordered_config c = c\<lparr>cfg_auth := bm_of_list (cfg_auth c)\<rparr>"

definition parse_config :: "(string \<Rightarrow> config option) \<Rightarrow> string \<Rightarrow> config res" where
  "parse_config from_toml text =
     and_then (or_error (map_option ordered_config (from_toml text)) ''invalid config TOML'') (\<lambda>c.
     and_then (validate c) (\<lambda>_. Ok c))"

section \<open>Warnings\<close>

definition shares_labels :: "pool \<Rightarrow> pool \<Rightarrow> bool" where
  "shares_labels a b \<longleftrightarrow> api_scope a = api_scope b \<and> list_ex (\<lambda>l. l \<in> set (pl_labels b)) (pl_labels a)"

definition label_warning :: "pool \<Rightarrow> pool \<Rightarrow> string" where
  "label_warning a b = pl_name a @ '' and '' @ pl_name b
     @ '' share routing labels; use pool:<name> to target a pool''"

fun label_warnings :: "pool list \<Rightarrow> string list" where
  "label_warnings [] = []"
| "label_warnings (a # bs) =
     map (label_warning a) (filter (shares_labels a) bs) @ label_warnings bs"

definition warnings :: "config \<Rightarrow> string list" where
  "warnings c =
     (if 1 < mg_max_parallel_creates (cfg_manager c)
      then [''Provisioning is serialized; max_parallel_creates values above 1 do not enable concurrency'']
      else []) @ label_warnings (cfg_pools c)"

section \<open>Paths\<close>

text \<open>\<open>Path::join\<close> with a relative name, on Unix.\<close>

definition join :: "string \<Rightarrow> string \<Rightarrow> string" where
  "join base name =
     (if base = [] \<or> ends_with ''/'' base then base @ name else base @ ''/'' @ name)"

definition config_path :: "string \<Rightarrow> string" where
  "config_path home = join home ''config.toml''"

definition run_dir :: "string \<Rightarrow> string \<Rightarrow> string" where
  "run_dir home rid = join (join home ''runs'') rid"

section \<open>Specification\<close>

definition well_formed_auth :: "string \<Rightarrow> auth \<Rightarrow> bool" where
  "well_formed_auth name a \<longleftrightarrow> valid_name name \<and>
     (case au_app a of
        None \<Rightarrow> validate_reference (au_credential a) = Ok ()
      | Some app \<Rightarrow> au_credential a = [] \<and> 0 < installation_id app \<and> app_id app \<noteq> []
          \<and> length (app_id app) \<le> 64
          \<and> (\<forall>b \<in> set (app_id app). is_ascii_alphanumeric b \<or> b = CHR ''_'')
          \<and> validate_reference (private_key app) = Ok ())"

definition well_formed_pool :: "auth bmap \<Rightarrow> pool \<Rightarrow> bool" where
  "well_formed_pool auths p \<longleftrightarrow>
     valid_name (pl_name p)
     \<and> (case pl_repository p of
          Some repo \<Rightarrow> pl_organization p = [] \<and> valid_repo repo \<and> pl_runner_group p = ''Default''
        | None \<Rightarrow> valid_org (pl_organization p))
     \<and> (\<forall>c. pl_cpus p = Some c \<longrightarrow> valid_cpus c)
     \<and> (\<forall>m. pl_memory p = Some m \<longrightarrow> (\<exists>b. memory_bytes m = Ok b))
     \<and> pl_auth p \<in> set (bm_keys auths)
     \<and> 1 \<le> length (pl_labels p) \<and> length (pl_labels p) \<le> 99
     \<and> (\<forall>l \<in> set (pl_labels p). valid_label l)
     \<and> trim (pl_runner_group p) \<noteq> [] \<and> CHR 0x0A \<notin> set (pl_runner_group p)
     \<and> CHR 0x0D \<notin> set (pl_runner_group p)
     \<and> validate_image (pl_image p) = Ok ()"

definition well_formed_config :: "config \<Rightarrow> bool" where
  "well_formed_config c \<longleftrightarrow>
     cfg_schema_version c = 1
     \<and> 5 \<le> mg_poll_interval_seconds (cfg_manager c)
     \<and> mg_poll_interval_seconds (cfg_manager c) \<le> 3600
     \<and> 0 < mg_max_parallel_creates (cfg_manager c)
     \<and> mg_max_parallel_creates (cfg_manager c) \<le> mg_max_runners (cfg_manager c)
     \<and> (\<forall>(name, a) \<in> set (cfg_auth c). well_formed_auth name a)
     \<and> distinct (map pl_name (cfg_pools c))
     \<and> (\<forall>p \<in> set (cfg_pools c). well_formed_pool (cfg_auth c) p)
     \<and> (\<Sum>p \<leftarrow> cfg_pools c. unat (pl_replicas p)) \<le> unat (mg_max_runners (cfg_manager c))"

lemma validate_image_no_panic [simp]: "validate_image i \<noteq> Panic p"
  by (simp add: validate_image_def)

lemma validate_reference_no_panic [simp]: "validate_reference r \<noteq> Panic p"
  by (simp add: validate_reference_def split: option.splits)

lemma memory_bytes_no_panic [simp]: "memory_bytes m \<noteq> Panic p"
  by (simp add: memory_bytes_def)

lemma validate_auth_Ok: "validate_auth name a = Ok () \<longleftrightarrow> well_formed_auth name a"
  by (auto simp: validate_auth_def validate_app_def well_formed_auth_def list_all_iff
      split: option.splits)

lemma validate_auth_no_panic [simp]: "validate_auth name a \<noteq> Panic p"
  by (auto simp: validate_auth_def validate_app_def split: option.splits)

lemma validate_auths_Ok:
  "validate_auths m = Ok () \<longleftrightarrow> (\<forall>(name, a) \<in> set m. well_formed_auth name a)"
  by (induction m rule: validate_auths.induct) (auto simp: validate_auth_Ok)

lemma validate_auths_no_panic [simp]: "validate_auths m \<noteq> Panic p"
  by (induction m rule: validate_auths.induct) auto

lemma validate_pool_Ok:
  "validate_pool auths names p = Ok () \<longleftrightarrow>
     well_formed_pool auths p \<and> pl_name p \<notin> set names"
  by (auto simp: validate_pool_def well_formed_pool_def bm_contains_key_keys list_all_iff
      Suc_le_eq split: option.splits)

lemma validate_pool_no_panic [simp]: "validate_pool auths names p \<noteq> Panic q"
  by (auto simp: validate_pool_def split: option.splits)

lemma validate_pools_Ok:
  "validate_pools auths names ps = Ok () \<longleftrightarrow>
     (\<forall>p \<in> set ps. well_formed_pool auths p \<and> pl_name p \<notin> set names)
     \<and> distinct (map pl_name ps)"
proof (induction auths names ps rule: validate_pools.induct)
  case (2 auths names p ps)
  show ?case
    by (simp add: validate_pool_Ok "2.IH") (auto dest: sym)
qed simp

lemma validate_pools_no_panic [simp]: "validate_pools auths names ps \<noteq> Panic q"
  by (induction auths names ps rule: validate_pools.induct) auto

lemma validate_no_panic [simp]: "validate c \<noteq> Panic p"
  by (simp add: validate_def)

lemma validate_Ok: "validate c = Ok () \<longleftrightarrow> well_formed_config c"
  by (auto simp: validate_def well_formed_config_def validate_auths_Ok validate_pools_Ok
      total_replicas_def comp_def word_gt_0 simp del: word_neq_0_conv)

lemma parse_config_Ok:
  "parse_config t s = Ok c \<longleftrightarrow>
     (\<exists>c0. t s = Some c0 \<and> c = ordered_config c0) \<and> well_formed_config c"
  by (auto simp: parse_config_def validate_Ok)

lemma parse_config_ordered: "parse_config t s = Ok c \<Longrightarrow> bm_invar (cfg_auth c)"
  by (auto simp: parse_config_Ok ordered_config_def)

lemma parse_config_no_panic [simp]: "parse_config t s \<noteq> Panic p"
  by (simp add: parse_config_def)

text \<open>A failed validation is an ordinary error.\<close>

lemma and_then_not_interrupted [simp]:
  "and_then r f = Err ReconcileInterrupted \<longleftrightarrow>
     r = Err ReconcileInterrupted \<or> (\<exists>x. r = Ok x \<and> f x = Err ReconcileInterrupted)"
  by (cases r) auto

lemma ensure_not_interrupted [simp]: "ensure b m \<noteq> Err ReconcileInterrupted"
  by (simp add: ensure_def)

lemma or_error_not_interrupted [simp]: "or_error x m \<noteq> Err ReconcileInterrupted"
  by (cases x) auto

lemma validate_reference_not_interrupted [simp]: "validate_reference r \<noteq> Err ReconcileInterrupted"
  by (simp add: validate_reference_def split: option.splits)

lemma validate_auths_not_interrupted [simp]: "validate_auths m \<noteq> Err ReconcileInterrupted"
  by (induction m rule: validate_auths.induct)
    (auto simp: validate_auth_def validate_app_def split: option.splits)

lemma validate_pools_not_interrupted [simp]: "validate_pools auths names ps \<noteq> Err ReconcileInterrupted"
  by (induction auths names ps rule: validate_pools.induct)
    (auto simp: validate_pool_def validate_image_def memory_bytes_def split: option.splits)

lemma validate_not_interrupted [simp]: "validate c \<noteq> Err ReconcileInterrupted"
  by (simp add: validate_def)

section \<open>Properties\<close>


lemma unit_letters:
  "char_of (98 :: nat) = CHR ''b''" "char_of (107 :: nat) = CHR ''k''"
  "char_of (109 :: nat) = CHR ''m''" "char_of (103 :: nat) = CHR ''g''"
  by code_simp+

lemma takeWhile_decimal:
  assumes "\<forall>c \<in> set u. \<not> is_ascii_digit c"
  shows "takeWhile is_ascii_digit (decimal n @ u) = decimal n"
    "dropWhile is_ascii_digit (decimal n @ u) = u"
proof -
  have all: "\<forall>c \<in> set (decimal n). is_ascii_digit c" using decimal_digits [of n] by (simp add: list_all_iff)
  have "takeWhile is_ascii_digit u = []" "dropWhile is_ascii_digit u = u"
    using assms by (cases u; simp)+
  with all show "takeWhile is_ascii_digit (decimal n @ u) = decimal n"
    "dropWhile is_ascii_digit (decimal n @ u) = u"
    by (simp_all add: takeWhile_append2 dropWhile_append2)
qed

lemma parse_unsigned_big: "2 ^ w \<le> n \<Longrightarrow> parse_unsigned w (decimal n) = None"
proof -
  assume n: "2 ^ w \<le> n"
  obtain c cs where c: "decimal n = c # cs" using decimal_digits [of n] by (cases "decimal n") auto
  with decimal_digits [of n] have "is_ascii_digit c" by simp
  then have "c \<noteq> CHR ''+''" by (auto simp: is_ascii_digit_def byte_def)
  with c n digits_value_decimal [of n] show ?thesis by (simp add: parse_unsigned_def Let_def)
qed

text \<open>
  C39: a memory limit, a decimal number with the suffix b, k, m, g of either case or none, is
  its number of bytes, or the error for a number beyond 64 bits, a product beyond 64 bits, or less
  than 6 MiB.
\<close>

theorem memory_bytes_decimal:
  assumes "(u, k) \<in> {('''', 1), (''b'', 1), (''B'', 1), (''k'', 2 ^ 10), (''K'', 2 ^ 10), (''m'', 2 ^ 20),
      (''M'', 2 ^ 20), (''g'', 2 ^ 30), (''G'', 2 ^ 30 :: nat)}"
  shows "memory_bytes (decimal n @ u) =
     (if 2 ^ 64 \<le> n then Err (Msg ''memory must be an integer with optional b/k/m/g suffix'')
      else if 2 ^ 64 \<le> n * k then Err (Msg ''memory limit too large'')
      else if n * k < 6 * 2 ^ 20 then Err (Msg ''memory must be at least 6 MiB'')
      else Ok (of_nat (n * k)))"
proof -
  have u: "\<forall>c \<in> set u. \<not> is_ascii_digit c" using assms by (auto simp: is_ascii_digit_def byte_def)
  obtain m where m: "memory_multiplier (map to_ascii_lowercase u) = Some m" "unat m = k"
    using assms by (auto simp: memory_multiplier_def to_ascii_lowercase_def byte_def unit_letters)
  show ?thesis
  proof (cases "2 ^ 64 \<le> n")
    case True
    then show ?thesis by (simp add: memory_bytes_def takeWhile_decimal [OF u] parse_u64_def parse_unsigned_big)
  next
    case False
    then have n: "parse_u64 (decimal n) = Some (of_nat n)" "unat (of_nat n :: u64) = n"
      by (simp_all add: parse_u64_def parse_unsigned_decimal unat_of_nat take_bit_nat_eq_self)
    have prod: "unat (of_nat n * m) = n * k" if "n * k < 2 ^ 64"
      using that n m by (simp add: unat_word_ariths)
    have "6 * 1024 * 1024 \<le> of_nat n * m \<longleftrightarrow> 6 * 2 ^ 20 \<le> n * k" if "n * k < 2 ^ 64"
      using prod [OF that] by (simp add: word_le_nat_alt)
    moreover have "of_nat n * m = of_nat (n * k)" using m(2) by (simp flip: m(2))
    ultimately show ?thesis
      using False m n
      by (auto simp: memory_bytes_def takeWhile_decimal [OF u] checked_mul_def ensure_def not_less)
  qed
qed

theorem memory_bytes_decimal_witness: "memory_bytes ''512m'' = Ok 536870912"
proof -
  have "decimal 512 = ''512''" by code_simp
  with memory_bytes_decimal [of "''m''" "2 ^ 20" 512] show ?thesis by simp
qed

lemma shares_labels_iff: "shares_labels a b \<longleftrightarrow> api_scope a = api_scope b
    \<and> set (pl_labels a) \<inter> set (pl_labels b) \<noteq> {}"
  by (auto simp: shares_labels_def list_ex_iff)

lemma label_warnings_exact:
  "w \<in> set (label_warnings ps) \<longleftrightarrow> (\<exists>i j. i < j \<and> j < length ps \<and> api_scope (ps ! i) = api_scope (ps ! j)
     \<and> set (pl_labels (ps ! i)) \<inter> set (pl_labels (ps ! j)) \<noteq> {} \<and> w = label_warning (ps ! i) (ps ! j))"
proof (induction ps)
  case (Cons a bs)
  have "w \<in> set (label_warnings (a # bs)) \<longleftrightarrow>
      (\<exists>j < length bs. api_scope a = api_scope (bs ! j)
         \<and> set (pl_labels a) \<inter> set (pl_labels (bs ! j)) \<noteq> {} \<and> w = label_warning a (bs ! j))
      \<or> w \<in> set (label_warnings bs)"
    unfolding label_warnings.simps set_append Un_iff set_map set_filter shares_labels_iff
      in_set_conv_nth [of _ bs] by blast
  also have "\<dots> \<longleftrightarrow> (\<exists>i j. i < j \<and> j < length (a # bs) \<and> api_scope ((a # bs) ! i) = api_scope ((a # bs) ! j)
     \<and> set (pl_labels ((a # bs) ! i)) \<inter> set (pl_labels ((a # bs) ! j)) \<noteq> {}
     \<and> w = label_warning ((a # bs) ! i) ((a # bs) ! j))" (is "?L \<longleftrightarrow> ?R")
  proof
    assume ?L
    then show ?R
      unfolding Cons.IH by (elim disjE exE conjE) (rule exI [of _ 0], force, force)
  next
    assume ?R
    then obtain i j where ij: "i < j" "j < length (a # bs)" "api_scope ((a # bs) ! i) = api_scope ((a # bs) ! j)"
     "set (pl_labels ((a # bs) ! i)) \<inter> set (pl_labels ((a # bs) ! j)) \<noteq> {}"
     "w = label_warning ((a # bs) ! i) ((a # bs) ! j)" by blast
    then obtain k where "j = Suc k" by (cases j) auto
    with ij show ?L unfolding Cons.IH by (cases i) auto
  qed
  finally show ?case .
qed simp

text \<open>
  The warnings about a configuration: the one for a useless parallelism, and one for every two
  pools of the same scope that share a label, in their order.
\<close>

theorem warnings_exact:
  "w \<in> set (warnings c) \<longleftrightarrow>
     1 < mg_max_parallel_creates (cfg_manager c)
       \<and> w = ''Provisioning is serialized; max_parallel_creates values above 1 do not enable concurrency''
     \<or> (\<exists>i j. i < j \<and> j < length (cfg_pools c)
          \<and> api_scope (cfg_pools c ! i) = api_scope (cfg_pools c ! j)
          \<and> set (pl_labels (cfg_pools c ! i)) \<inter> set (pl_labels (cfg_pools c ! j)) \<noteq> {}
          \<and> w = label_warning (cfg_pools c ! i) (cfg_pools c ! j))"
  by (auto simp: warnings_def label_warnings_exact)

end
