(* ===== verification/Utf8.thy ===== *)
theory Utf8
  imports Prelude
begin

text \<open>
  What the program uses of Rust's text functions beyond the prelude: decoding UTF-8, strictly and
  with replacement, splitting at white space and into lines, joining.
\<close>

section \<open>Decoding\<close>

text \<open>
  The outcome of reading one character at the head of a nonempty byte string: a character of so
  many bytes, an invalid sequence of so many bytes, or one that the end of the input cuts short.
\<close>

datatype utf8_item = Valid nat | Invalid nat | Incomplete nat

definition continuation :: "char \<Rightarrow> bool" where
  "continuation c \<longleftrightarrow> 128 \<le> byte c \<and> byte c < 192"

text \<open>The bytes allowed in second place after each leading byte.\<close>

definition second_ok :: "nat \<Rightarrow> nat \<Rightarrow> bool" where
  "second_ok a b \<longleftrightarrow>
     (if a = 224 then 160 \<le> b \<and> b < 192
      else if a = 237 then 128 \<le> b \<and> b < 160
      else if a = 240 then 144 \<le> b \<and> b < 192
      else if a = 244 then 128 \<le> b \<and> b < 144
      else 128 \<le> b \<and> b < 192)"

fun continue_char :: "nat \<Rightarrow> nat \<Rightarrow> string \<Rightarrow> utf8_item" where
  "continue_char got 0 s = Valid got"
| "continue_char got (Suc k) [] = Incomplete got"
| "continue_char got (Suc k) (c # s) =
     (if continuation c then continue_char (Suc got) k s else Invalid got)"

definition utf8_width :: "nat \<Rightarrow> nat" where
  "utf8_width a =
     (if a < 128 then 1 else if 194 \<le> a \<and> a < 224 then 2 else if 224 \<le> a \<and> a < 240 then 3
      else if 240 \<le> a \<and> a < 245 then 4 else 0)"

fun utf8_next :: "string \<Rightarrow> utf8_item" where
  "utf8_next [] = Incomplete 0"
| "utf8_next (a # s) =
     (if utf8_width (byte a) = 0 then Invalid 1
      else if utf8_width (byte a) = 1 then Valid 1
      else (case s of
          [] \<Rightarrow> Incomplete 1
        | b # t \<Rightarrow> if second_ok (byte a) (byte b) then continue_char 2 (utf8_width (byte a) - 2) t
                   else Invalid 1))"

definition item_length :: "utf8_item \<Rightarrow> nat" where
  "item_length i = (case i of Valid n \<Rightarrow> n | Invalid n \<Rightarrow> n | Incomplete n \<Rightarrow> n)"

lemma continue_char_length: "got \<le> item_length (continue_char got k s)"
proof (induction got k s rule: continue_char.induct)
  case (3 got k c s)
  then show ?case by (cases "continuation c") (simp_all add: item_length_def)
qed (simp_all add: item_length_def)

lemma utf8_next_length: "s \<noteq> [] \<Longrightarrow> 0 < item_length (utf8_next s)"
  using continue_char_length [of 2]
  by (cases s rule: utf8_next.cases) (auto simp: item_length_def split: list.split
      intro: less_le_trans [of _ 2])

text \<open>\<open>String::from_utf8\<close> with the text of its error; \<open>at\<close> counts the bytes read so far.\<close>

function from_utf8_at :: "nat \<Rightarrow> string \<Rightarrow> error option" where
  "from_utf8_at i s =
     (if s = [] then None
      else (case utf8_next s of
          Valid n \<Rightarrow> from_utf8_at (i + n) (drop n s)
        | Invalid n \<Rightarrow> Some (Msg (''invalid utf-8 sequence of '' @ decimal n @ '' bytes from index '' @ decimal i))
        | Incomplete n \<Rightarrow> Some (Msg (''incomplete utf-8 byte sequence from index '' @ decimal i))))"
  by pat_completeness auto
termination
  by (relation "measure (\<lambda>(i, s). length s)")
    (use utf8_next_length in \<open>fastforce simp: item_length_def\<close>)+

declare from_utf8_at.simps [simp del]

definition from_utf8 :: "string \<Rightarrow> string res" where
  "from_utf8 s = (case from_utf8_at 0 s of None \<Rightarrow> Ok s | Some err \<Rightarrow> Err err)"

text \<open>\<open>String::from_utf8_lossy\<close>: each invalid sequence becomes U+FFFD.\<close>

definition replacement :: string where
  "replacement = bytes [239, 191, 189]"

function utf8_lossy :: "string \<Rightarrow> string" where
  "utf8_lossy s =
     (if s = [] then []
      else (case utf8_next s of
          Valid n \<Rightarrow> take n s @ utf8_lossy (drop n s)
        | Invalid n \<Rightarrow> replacement @ utf8_lossy (drop n s)
        | Incomplete n \<Rightarrow> replacement @ utf8_lossy (drop n s)))"
  by pat_completeness auto
termination
  by (relation "measure length") (use utf8_next_length in \<open>fastforce simp: item_length_def\<close>)+

declare utf8_lossy.simps [simp del]

definition valid_utf8 :: "string \<Rightarrow> bool" where
  "valid_utf8 s \<longleftrightarrow> from_utf8_at 0 s = None"

lemma valid_utf8_at: "from_utf8_at i s = None \<longleftrightarrow> valid_utf8 s"
proof -
  have "from_utf8_at i s = None \<longleftrightarrow> from_utf8_at j s = None" for i j s
  proof (induction "length s" arbitrary: i j s rule: less_induct)
    case less
    show ?case
    proof (cases "s = [] \<or> (\<forall>n. utf8_next s \<noteq> Valid n)")
      case True
      then show ?thesis
        by (cases "utf8_next s") (auto simp: from_utf8_at.simps [of _ s])
    next
      case False
      then obtain n where s: "s \<noteq> []" "utf8_next s = Valid n" by auto
      then have "length (drop n s) < length s"
        using utf8_next_length [OF s(1)] by (simp add: item_length_def)
      then have "from_utf8_at (i + n) (drop n s) = None \<longleftrightarrow> from_utf8_at (j + n) (drop n s) = None"
        by (rule less)
      then show ?thesis using s by (simp add: from_utf8_at.simps [of _ s])
    qed
  qed
  then show ?thesis by (simp add: valid_utf8_def)
qed

lemma from_utf8_Ok [simp]: "from_utf8 s = Ok t \<longleftrightarrow> valid_utf8 s \<and> t = s"
  by (auto simp: from_utf8_def valid_utf8_def split: option.splits)

lemma from_utf8_no_panic [simp]: "from_utf8 s \<noteq> Panic p"
  by (simp add: from_utf8_def split: option.split)

lemma valid_utf8_step:
  assumes "s \<noteq> []" "valid_utf8 s"
  shows "\<exists>n. utf8_next s = Valid n \<and> 0 < n \<and> valid_utf8 (drop n s)"
  using assms utf8_next_length [OF assms(1)]
  by (auto simp: valid_utf8_def [of s] from_utf8_at.simps [of 0 s] item_length_def valid_utf8_at
      split: utf8_item.splits)

text \<open>A valid string passes unchanged.\<close>

lemma utf8_lossy_valid: "valid_utf8 s \<Longrightarrow> utf8_lossy s = s"
proof (induction s rule: utf8_lossy.induct)
  case (1 s)
  show ?case
  proof (cases "s = []")
    case False
    then obtain n where "utf8_next s = Valid n" "valid_utf8 (drop n s)"
      using valid_utf8_step [OF False 1(4)] by blast
    then show ?thesis using 1(1) False by (simp add: utf8_lossy.simps [of s])
  qed (simp add: utf8_lossy.simps)
qed

lemma continue_char_take:
  "continue_char got k s = Valid n \<Longrightarrow> n = got + k \<and> k \<le> length s \<and> continue_char got k (take k s @ t) = Valid n"
  by (induction got k s rule: continue_char.induct) (auto split: if_splits)

lemma utf8_next_take:
  assumes "utf8_next s = Valid n"
  shows "n \<le> length s \<and> utf8_next (take n s @ t) = Valid n"
proof (cases s)
  case Nil
  with assms show ?thesis by simp
next
  case (Cons a r)
  show ?thesis
  proof (cases "utf8_width (byte a) = 1")
    case True
    with assms Cons show ?thesis by auto
  next
    case False
    with assms Cons obtain b u where r: "r = b # u" "second_ok (byte a) (byte b)" "utf8_width (byte a) \<noteq> 0"
      "continue_char 2 (utf8_width (byte a) - 2) u = Valid n"
      by (auto split: if_splits list.splits)
    have w: "2 \<le> utf8_width (byte a)" using False r(3) by (cases "utf8_width (byte a)") auto
    from continue_char_take [OF r(4), of t] have "n = 2 + (utf8_width (byte a) - 2)"
      "utf8_width (byte a) - 2 \<le> length u"
      "continue_char 2 (utf8_width (byte a) - 2) (take (utf8_width (byte a) - 2) u @ t) = Valid n" by auto
    moreover from this(1) w have "n = Suc (Suc (utf8_width (byte a) - 2))" by simp
    ultimately show ?thesis using r(2,3) False Cons r(1) by simp
  qed
qed

lemma valid_utf8_cons:
  assumes "utf8_next s = Valid n" "s \<noteq> []" "valid_utf8 t"
  shows "valid_utf8 (take n s @ t)"
proof -
  have n: "0 < n" using utf8_next_length [OF assms(2)] assms(1) by (simp add: item_length_def)
  have "utf8_next (take n s @ t) = Valid n" "n \<le> length s" using utf8_next_take [OF assms(1)] by auto
  moreover from this(2) n assms(2) have "take n s @ t \<noteq> []" "drop n (take n s @ t) = t" by auto
  ultimately show ?thesis
    using assms(3) valid_utf8_at [of n t] by (simp add: valid_utf8_def [of "take n s @ t"] from_utf8_at.simps [of 0])
qed

lemma valid_replacement: "utf8_next (replacement @ t) = Valid 3"
  by (simp add: replacement_def bytes_def utf8_width_def second_ok_def byte_def continuation_def numeral_3_eq_3
   numeral_2_eq_2)

lemma utf8_lossy_is_valid: "valid_utf8 (utf8_lossy s)"
proof (induction s rule: utf8_lossy.induct)
  case (1 s)
  have rep: "valid_utf8 (replacement @ t)" if "valid_utf8 t" for t
  proof -
    have "take 3 (replacement @ t) = replacement" by (simp add: replacement_def bytes_def)
    with valid_utf8_cons [OF valid_replacement, of t t] that show ?thesis by (simp add: replacement_def bytes_def)
  qed
  show ?case
  proof (cases "s = []")
    case True
    then show ?thesis by (simp add: utf8_lossy.simps valid_utf8_def from_utf8_at.simps)
  next
    case False
    then show ?thesis using 1 rep valid_utf8_cons
      by (cases "utf8_next s") (simp_all add: utf8_lossy.simps [of s])
  qed
qed

lemma length_utf8_lossy: "length (utf8_lossy s) \<le> 3 * length s"
proof (induction s rule: utf8_lossy.induct)
  case (1 s)
  define n where "n = item_length (utf8_next s)"
  show ?case
  proof (cases "s = []")
    case True
    then show ?thesis by (simp add: utf8_lossy.simps)
  next
    case False
    then have n: "0 < n" "0 < length s" by (simp_all add: n_def utf8_next_length)
    have "length (utf8_lossy (drop n s)) \<le> 3 * length (drop n s)"
      using 1 False by (cases "utf8_next s") (simp_all add: n_def item_length_def)
    moreover have "length (utf8_lossy s) \<le> max 3 (length (take n s)) + length (utf8_lossy (drop n s))"
      using False by (cases "utf8_next s")
        (simp_all add: utf8_lossy.simps [of s] n_def item_length_def replacement_def bytes_def)
    moreover have "max 3 (length (take n s)) + 3 * length (drop n s) \<le> 3 * length s"
    proof -
      have "3 + 3 * (length s - n) \<le> 3 * length s" "min (length s) n + 3 * (length s - n) \<le> 3 * length s"
        using n by linarith+
      then show ?thesis by (simp add: max_def)
    qed
    ultimately show ?thesis by linarith
  qed
qed

section \<open>Splitting and joining\<close>

text \<open>\<open>split_whitespace\<close>: the nonempty pieces between white space.\<close>

definition emit :: "string \<Rightarrow> string list" where
  "emit w = (if w = [] then [] else [w])"

fun split_pieces :: "nat \<Rightarrow> string \<Rightarrow> string \<Rightarrow> string list" where
  "split_pieces 0 w s = emit w"
| "split_pieces (Suc k) w s = (case strip_first whitespace_sequences s of
      Some t \<Rightarrow> emit w @ split_pieces k [] t
    | None \<Rightarrow> (case s of [] \<Rightarrow> emit w | c # t \<Rightarrow> split_pieces k (w @ [c]) t))"

definition split_whitespace :: "string \<Rightarrow> string list" where
  "split_whitespace s = split_pieces (length s) [] s"

fun join_with :: "string \<Rightarrow> string list \<Rightarrow> string" where
  "join_with sep [] = []"
| "join_with sep [x] = x"
| "join_with sep (x # y # xs) = x @ sep @ join_with sep (y # xs)"

text \<open>\<open>str::lines\<close>: split after every line feed, dropping it and a carriage return before it.\<close>

definition chomp :: "string \<Rightarrow> string" where
  "chomp l = (if l \<noteq> [] \<and> last l = CHR 0x0D then butlast l else l)"

fun lines_from :: "string \<Rightarrow> string \<Rightarrow> string list" where
  "lines_from cur [] = (if cur = [] then [] else [cur])"
| "lines_from cur (c # s) =
     (if c = CHR 0x0A then chomp cur # lines_from [] s else lines_from (cur @ [c]) s)"

definition lines :: "string \<Rightarrow> string list" where
  "lines s = lines_from [] s"

text \<open>\<open>str::split\<close> at one character: always at least one piece.\<close>

fun split_at :: "char \<Rightarrow> string \<Rightarrow> string list" where
  "split_at d [] = [[]]"
| "split_at d (c # s) =
     (if c = d then [] # split_at d s
      else (case split_at d s of [] \<Rightarrow> [[c]] | p # ps \<Rightarrow> (c # p) # ps))"

lemma split_at_nonempty [simp]: "split_at d s \<noteq> []"
  by (induction s) (auto split: list.split)

lemma split_at_join: "join_with [d] (split_at d s) = s"
proof (induction s)
  case Nil
  then show ?case by simp
next
  case (Cons c s)
  then obtain p ps where "split_at d s = p # ps" by (cases "split_at d s") auto
  with Cons show ?case by (cases ps) auto
qed

lemma split_at_free: "p \<in> set (split_at d s) \<Longrightarrow> d \<notin> set p"
  by (induction s arbitrary: p) (auto split: list.splits if_splits)

lemma split_at_free_prefix: "d \<notin> set x \<Longrightarrow> split_at d (x @ d # s) = x # split_at d s"
  by (induction x) auto

lemma split_at_single: "d \<notin> set x \<Longrightarrow> split_at d x = [x]"
  by (induction x) auto

lemma split_at_join_with:
  assumes "xs \<noteq> []" "\<forall>x \<in> set xs. d \<notin> set x"
  shows "split_at d (join_with [d] xs) = xs"
  using assms
  by (induction "[d]" xs rule: join_with.induct) (auto simp: split_at_single split_at_free_prefix)

end
