(* ===== verification/Manager_State.thy ===== *)
theory Manager_State
  imports Config Utf8
begin

text \<open>
  The persisted state of the manager (src/state.rs) and the control requests
  (src/protocol.rs). A universally unique identifier is a parameter wherever the code draws one.
  The invariant \<open>wf_state\<close> is what every committed state satisfies.
\<close>

section \<open>Data\<close>

datatype retry_scope = Observation | Provisioning

record pool_state =
  ps_id :: string
  ps_running :: bool
  ps_deleting :: bool
  ps_generation :: u64
  ps_failures :: u32
  ps_retry_at :: u64
  ps_retry_scope :: retry_scope
  ps_error :: "string option"
  ps_observed_at :: u64

text \<open>\<open>simple()\<close> of a universally unique identifier: without its hyphens.\<close>

definition simple_uuid :: "string \<Rightarrow> string" where
  "simple_uuid u = filter (\<lambda>c. c \<noteq> CHR ''-'') u"

definition default_pool_state :: "string \<Rightarrow> pool_state" where
  "default_pool_state uuid =
     \<lparr>ps_id = simple_uuid uuid, ps_running = False, ps_deleting = False, ps_generation = 1, ps_failures = 0,
      ps_retry_at = 0, ps_retry_scope = Observation, ps_error = None, ps_observed_at = 0\<rparr>"

text \<open>A run's phase is a string of the source: creating, starting, idle, busy, unknown, cleanup.\<close>

record run =
  run_id :: string
  run_pool_id :: string
  run_pool :: pool
  run_generation :: u64
  run_created_at :: u64
  run_phase :: string
  run_remote_id :: "u64 option"
  run_retiring :: bool
  run_force :: bool
  run_completed_job :: bool
  run_log_saved :: bool

record state =
  s_manager_id :: string
  s_revision :: u64
  s_config :: config
  s_file_hash :: string
  s_pools :: "pool_state bmap"
  s_runs :: "run bmap"

text \<open>
  \<open>State::new\<close>: one fresh identifier per pool, in the order of the pools, and then one for the
  manager; \<open>uuids\<close> supplies them.
\<close>

definition new_pools :: "pool list \<Rightarrow> string list \<Rightarrow> pool_state bmap" where
  "new_pools ps uuids =
     bm_of_list (map (\<lambda>(p, u). (pl_name p, default_pool_state u)) (zip ps uuids))"

definition new_state :: "config \<Rightarrow> string \<Rightarrow> string list \<Rightarrow> string \<Rightarrow> state" where
  "new_state c file_hash uuids manager_id =
     \<lparr>s_manager_id = simple_uuid manager_id, s_revision = 1, s_config = c, s_file_hash = file_hash,
      s_pools = new_pools (cfg_pools c) uuids, s_runs = []\<rparr>"

section \<open>Requests\<close>

datatype request =
    Status "string option"
  | Add pool
  | Start "string option" bool
  | Stop "string option" bool bool
  | Scale string u32
  | Remove string bool
  | Upgrade string string
  | Apply string u64
  | Auth string string "app_auth option"
  | Logs string string
  | Doctor

fun changes_config :: "request \<Rightarrow> bool" where
  "changes_config (Add _) = True"
| "changes_config (Scale _ _) = True"
| "changes_config (Upgrade _ _) = True"
| "changes_config (Auth _ _ _) = True"
| "changes_config _ = False"

text \<open>\<open>mutating\<close> in \<open>handle_local\<close>: everything but \<open>Status\<close>.\<close>

fun mutating :: "request \<Rightarrow> bool" where
  "mutating (Status _) = False"
| "mutating _ = True"

lemma changes_config_mutating: "changes_config r \<Longrightarrow> mutating r"
  by (cases r) auto

section \<open>Views of a state\<close>

definition find_pool :: "string \<Rightarrow> config \<Rightarrow> pool option" where
  "find_pool name c = find (\<lambda>p. pl_name p = name) (cfg_pools c)"

definition pool_names :: "config \<Rightarrow> string list" where
  "pool_names c = map pl_name (cfg_pools c)"

definition pool_ids :: "state \<Rightarrow> string set" where
  "pool_ids s = ps_id ` set (bm_values (s_pools s))"

definition pool_runs :: "string \<Rightarrow> state \<Rightarrow> run list" where
  "pool_runs pid s = filter (\<lambda>r. run_pool_id r = pid) (bm_values (s_runs s))"

definition update_pool :: "string \<Rightarrow> (pool_state \<Rightarrow> pool_state) \<Rightarrow> state \<Rightarrow> state" where
  "update_pool name f s = s\<lparr>s_pools := bm_update name f (s_pools s)\<rparr>"

definition update_runs_of :: "string \<Rightarrow> (run \<Rightarrow> run) \<Rightarrow> state \<Rightarrow> state" where
  "update_runs_of pid f s = s\<lparr>s_runs := bm_update_where (\<lambda>r. run_pool_id r = pid) f (s_runs s)\<rparr>"

definition insert_run :: "run \<Rightarrow> state \<Rightarrow> state" where
  "insert_run r s = s\<lparr>s_runs := bm_insert (run_id r) r (s_runs s)\<rparr>"

definition remove_run :: "string \<Rightarrow> state \<Rightarrow> state" where
  "remove_run rid s = s\<lparr>s_runs := bm_remove rid (s_runs s)\<rparr>"

lemma find_pool_Some: "find_pool name c = Some p \<Longrightarrow> p \<in> set (cfg_pools c) \<and> pl_name p = name"
  by (auto simp: find_pool_def find_Some_iff)

lemma find_pool_None: "find_pool name c = None \<longleftrightarrow> name \<notin> set (pool_names c)"
  by (auto simp: find_pool_def find_None_iff pool_names_def)

lemma find_pool_in: "name \<in> set (pool_names c) \<Longrightarrow> \<exists>p. find_pool name c = Some p"
  using find_pool_None [of name c] by auto

section \<open>The invariant\<close>

text \<open>
  \<open>&manager_id[..8]\<close>, the part of the manager's identifier that names its runs: it panics unless 8
  is a character boundary.
\<close>

definition manager_prefix :: "string \<Rightarrow> string res" where
  "manager_prefix m =
     (if 8 \<le> length m \<and> (length m = 8 \<or> \<not> continuation (m ! 8)) then Ok (take 8 m)
      else Panic ''byte index 8 is not a char boundary'')"

text \<open>
  The maps are ordered, the configuration is valid, it names exactly the pools that have a state,
  every run sits under its own identifier, every run belongs to a pool that still exists, and
  runs can be named.
\<close>

definition wf_runs :: "state \<Rightarrow> bool" where
  "wf_runs s \<longleftrightarrow> bm_invar (s_runs s) \<and> is_Ok (manager_prefix (s_manager_id s))
     \<and> (\<forall>k r. bm_get (s_runs s) k = Some r \<longrightarrow> run_id r = k \<and> run_pool_id r \<in> pool_ids s)"

definition wf_state :: "state \<Rightarrow> bool" where
  "wf_state s \<longleftrightarrow> well_formed_config (s_config s)
     \<and> bm_invar (cfg_auth (s_config s))
     \<and> bm_invar (s_pools s)
     \<and> set (bm_keys (s_pools s)) = set (pool_names (s_config s))
     \<and> wf_runs s"

lemma wf_stateD:
  assumes "wf_state s"
  shows "well_formed_config (s_config s)" "bm_invar (cfg_auth (s_config s))" "bm_invar (s_pools s)"
    "set (bm_keys (s_pools s)) = set (pool_names (s_config s))" "wf_runs s"
  using assms by (simp_all add: wf_state_def)

lemma wf_pool_state: "wf_state s \<Longrightarrow> name \<in> set (pool_names (s_config s)) \<Longrightarrow>
    \<exists>ps. bm_get (s_pools s) name = Some ps"
  using bm.in_keys_lookup [of name "s_pools s"] by (simp add: wf_state_def)

lemma wf_pool_config: "wf_state s \<Longrightarrow> bm_get (s_pools s) name = Some ps \<Longrightarrow>
    \<exists>p. find_pool name (s_config s) = Some p"
  using bm.lookup_in_keys [of "s_pools s" name ps] find_pool_in [of name "s_config s"]
  by (simp add: wf_state_def)

lemma wf_runD: "wf_state s \<Longrightarrow> bm_get (s_runs s) k = Some r \<Longrightarrow>
    run_id r = k \<and> run_pool_id r \<in> pool_ids s"
  by (simp add: wf_state_def wf_runs_def)

lemma wf_auth: "wf_state s \<Longrightarrow> find_pool name (s_config s) = Some p \<Longrightarrow>
    \<exists>a. bm_get (cfg_auth (s_config s)) (pl_auth p) = Some a"
  using find_pool_Some [of name "s_config s" p]
    bm.in_keys_lookup [of "pl_auth p" "cfg_auth (s_config s)"]
  by (auto simp: wf_state_def well_formed_config_def well_formed_pool_def)

subsection \<open>Updates that keep it\<close>

lemma pool_ids_iff:
  assumes "bm_invar (s_pools s)"
  shows "i \<in> pool_ids s \<longleftrightarrow> (\<exists>n ps. bm_get (s_pools s) n = Some ps \<and> ps_id ps = i)"
  using bm_values_iff [OF assms] by (auto simp: pool_ids_def image_iff) metis+

lemma map_values_update:
  "(\<And>v. g (f v) = g v) \<Longrightarrow> map g (bm_values (bm_update k f m)) = map g (bm_values m)"
  by (simp add: bm_values_def bm_update_def comp_def)

lemma pool_ids_update_pool:
  assumes "\<And>ps. ps_id (f ps) = ps_id ps"
  shows "pool_ids (update_pool name f s) = pool_ids s"
  using map_values_update [of ps_id f name "s_pools s", OF assms]
  by (simp add: pool_ids_def update_pool_def) (metis set_map)

lemma wf_update_pool:
  assumes "wf_state s" "\<And>ps. ps_id (f ps) = ps_id ps"
  shows "wf_state (update_pool name f s)"
  using assms pool_ids_update_pool [of f name s]
  by (simp add: wf_state_def wf_runs_def) (simp add: update_pool_def)

lemma wf_update_runs_of:
  assumes "wf_state s" "\<And>r. run_id (f r) = run_id r" "\<And>r. run_pool_id (f r) = run_pool_id r"
  shows "wf_state (update_runs_of pid f s)"
  using assms
  by (auto simp: wf_state_def wf_runs_def update_runs_of_def pool_ids_def)

lemma wf_insert_run:
  assumes "wf_state s" "run_pool_id r \<in> pool_ids s"
  shows "wf_state (insert_run r s)"
  using assms by (auto simp: wf_state_def wf_runs_def insert_run_def pool_ids_def)

lemma wf_remove_run: "wf_state s \<Longrightarrow> wf_state (remove_run rid s)"
  by (auto simp: wf_state_def wf_runs_def remove_run_def pool_ids_def)

lemma set_pool_runs:
  "wf_state s \<Longrightarrow> r \<in> set (pool_runs pid s) \<longleftrightarrow>
     bm_get (s_runs s) (run_id r) = Some r \<and> run_pool_id r = pid"
  by (auto simp: pool_runs_def wf_state_def wf_runs_def bm_values_iff)

lemma distinct_pool_run_ids: "wf_state s \<Longrightarrow> distinct (map run_id (pool_runs pid s))"
proof -
  assume wf: "wf_state s"
  have inv: "bm_invar (s_runs s)" using wf by (simp add: wf_state_def wf_runs_def)
  have "map run_id (bm_values (s_runs s)) = bm_keys (s_runs s)"
    using wf obm.keys_distinct [OF inv]
    by (auto simp: wf_state_def wf_runs_def bm_values_def bm_keys_def)
  with obm.keys_distinct [OF inv] have "distinct (map run_id (bm_values (s_runs s)))" by simp
  then show ?thesis by (simp add: pool_runs_def distinct_map_filter)
qed

lemma wf_new_state:
  assumes "well_formed_config c" "bm_invar (cfg_auth c)" "length uuids = length (cfg_pools c)"
    "is_Ok (manager_prefix (simple_uuid m))"
  shows "wf_state (new_state c h uuids m)"
proof -
  have "(\<lambda>(p, u). (pl_name p, default_pool_state u)) ` set (zip (cfg_pools c) uuids)
      = set (map (\<lambda>(p, u). (pl_name p, default_pool_state u)) (zip (cfg_pools c) uuids))"
    by simp
  moreover have "map fst (map (\<lambda>(p, u). (pl_name p, default_pool_state u)) (zip (cfg_pools c) uuids))
      = pool_names c"
    using assms(3) by (intro nth_equalityI) (simp_all add: pool_names_def case_prod_beta)
  ultimately have "set (bm_keys (new_pools (cfg_pools c) uuids)) = set (pool_names c)"
    unfolding new_pools_def bm_of_list_keys by (metis set_map)
  with assms show ?thesis
    by (simp add: wf_state_def wf_runs_def new_state_def new_pools_def bm.invar_empty)
qed

end
