(* ===== verification/Retry.thy ===== *)
theory Retry
  imports Manager_State
begin

text \<open>
  What a reconciliation concludes from what it observes (src/manager.rs): the phase of a live
  run, unexpected exits and reboots, the bounded exponential backoff, and the health of a pool.
\<close>

section \<open>Observed phases and exits\<close>

record remote_runner =
  rr_id :: u64
  rr_name :: string
  rr_status :: string
  rr_busy :: bool

definition observed_phase :: "remote_runner option \<Rightarrow> string" where
  "observed_phase remote = (case remote of
      Some r \<Rightarrow> if rr_busy r then ''busy'' else if rr_status r = ''online'' then ''idle'' else ''unknown''
    | None \<Rightarrow> ''unknown'')"

definition unexpected_exit :: "run \<Rightarrow> bool" where
  "unexpected_exit r \<longleftrightarrow> \<not> run_completed_job r \<and> \<not> run_retiring r \<and> \<not> run_force r"

text \<open>The report of a reconciliation is its count of unexpected exits.\<close>

definition note_exit :: "nat \<Rightarrow> run \<Rightarrow> bool \<Rightarrow> nat" where
  "note_exit report r interrupted =
     (if unexpected_exit r \<and> \<not> interrupted then report + 1 else report)"

text \<open>
  \<open>started_at\<close>: the reader of RFC 3339 times is a library; \<open>rfc3339\<close> gives nanoseconds since the
  Unix epoch, negative before it.
\<close>

definition started_at :: "(string \<Rightarrow> int option) \<Rightarrow> json \<Rightarrow> u64 option" where
  "started_at rfc3339 container =
     (case as_str (json_get (json_get container ''State'') ''StartedAt'') of
        None \<Rightarrow> None
      | Some s \<Rightarrow> (case rfc3339 s of
            None \<Rightarrow> None
          | Some t \<Rightarrow> if t < 0 then None else Some (word_of_int (t div 10 ^ 9))))"

definition started_before_boot :: "(string \<Rightarrow> int option) \<Rightarrow> json \<Rightarrow> u64 option \<Rightarrow> bool" where
  "started_before_boot rfc3339 container boot_time = (case boot_time of
      None \<Rightarrow> False
    | Some b \<Rightarrow> (case started_at rfc3339 container of None \<Rightarrow> False | Some t \<Rightarrow> t < b))"

section \<open>Backoff\<close>

definition MAX_RETRY_SECONDS :: u64 where
  "MAX_RETRY_SECONDS = 600"

definition retry_delay :: "u32 \<Rightarrow> u64 \<Rightarrow> u64" where
  "retry_delay failures jitter =
     (let base = min (saturating_mul 5 (push_bit (unat (min failures 7)) 1)) MAX_RETRY_SECONDS
      in min (saturating_add base (min jitter 6)) MAX_RETRY_SECONDS)"

definition replenishment_allowed :: "u64 \<Rightarrow> u64 \<Rightarrow> bool" where
  "replenishment_allowed retry_at now \<longleftrightarrow> retry_at \<le> now"

text \<open>
  The body of \<open>record_failure\<close> once the pool is found: \<open>now\<close> is the time read, \<open>b\<close> the random byte.
  A deadline of the same scope that still lies ahead is kept.
\<close>

definition note_failure :: "u64 \<Rightarrow> u8 \<Rightarrow> string \<Rightarrow> retry_scope \<Rightarrow> pool_state \<Rightarrow> pool_state" where
  "note_failure now b err scope p =
     (if now < ps_retry_at p \<and> ps_retry_scope p = scope then p
      else
        (let failures = saturating_add (ps_failures p) 1;
             jitter = ucast (b mod 7)
         in p\<lparr>ps_failures := failures,
              ps_retry_at := saturating_add now (retry_delay failures jitter),
              ps_retry_scope := scope,
              ps_error := Some err\<rparr>))"

section \<open>Health of a pool\<close>

record pool_health =
  ph_ok :: bool
  ph_available :: nat
  ph_unknown :: nat
  ph_reasons :: "string list"

definition pool_health :: "pool \<Rightarrow> pool_state \<Rightarrow> run list \<Rightarrow> u64 \<Rightarrow> pool_health" where
  "pool_health p ps runs now =
     (let available = length (filter (\<lambda>r. run_phase r = ''idle'' \<or> run_phase r = ''busy'') runs);
          unknown = length (filter (\<lambda>r. run_phase r = ''unknown'') runs);
          managed = ps_running ps \<and> \<not> ps_deleting ps \<and> 0 < pl_replicas p;
          reasons = (if managed then
              (case ps_error ps of Some e \<Rightarrow> [''error: '' @ e] | None \<Rightarrow> [])
              @ (if now < ps_retry_at ps then [''retry scheduled at '' @ text_of (ps_retry_at ps)] else [])
              @ (if 0 < unknown then [decimal unknown @ '' unknown runner(s)''] else [])
              @ (if available < unat (pl_replicas p)
                 then [''available capacity '' @ decimal available @ ''/'' @ text_of (pl_replicas p)]
                 else [])
            else [])
      in \<lparr>ph_ok = (reasons = []), ph_available = available, ph_unknown = unknown,
          ph_reasons = reasons\<rparr>)"

section \<open>Lemmas\<close>

lemma unat_min: "unat (min a b) = min (unat a) (unat b)" for a b :: "'a::len word"
  by (simp add: min_def word_le_nat_alt)

lemma unat_power_of_two: "n \<le> 7 \<Longrightarrow> unat (push_bit n 1 :: u64) = 2 ^ n"
proof -
  assume "n \<le> 7"
  then have "n \<in> {0, 1, 2, 3, 4, 5, 6, 7}" by auto
  then show ?thesis by auto
qed

lemma unat_retry_delay:
  "unat (retry_delay failures jitter)
     = min 600 (5 * 2 ^ min (unat failures) 7 + min (unat jitter) 6)"
proof -
  define n where "n = unat (min failures 7)"
  have n: "n = min (unat failures) 7" by (simp add: n_def unat_min)
  have p: "unat (push_bit n 1 :: u64) = 2 ^ n" using n by (intro unat_power_of_two) simp
  have le: "(2::nat) ^ n \<le> 2 ^ 7" using n by (intro power_increasing) auto
  have m: "unat (saturating_mul (5::u64) (push_bit n 1)) = 5 * 2 ^ n"
    using le p by (simp add: saturating_mul_def unat_word_ariths)
  define base :: u64 where "base = min (saturating_mul 5 (push_bit n 1)) MAX_RETRY_SECONDS"
  have b: "unat base = min (5 * 2 ^ n) 600"
    unfolding base_def unat_min m by (simp add: MAX_RETRY_SECONDS_def)
  have "unat (saturating_add base (min jitter 6)) = unat base + min (unat jitter) 6"
    by (simp add: unat_saturating_add unat_min b)
  moreover have "retry_delay failures jitter
      = min (saturating_add base (min jitter 6)) MAX_RETRY_SECONDS"
    by (simp only: retry_delay_def base_def n_def Let_def)
  ultimately have "unat (retry_delay failures jitter)
      = min (min (5 * 2 ^ n) 600 + min (unat jitter) 6) 600"
    by (simp add: unat_min b MAX_RETRY_SECONDS_def)
  then show ?thesis unfolding n by linarith
qed

lemma retry_delay_bounds: "5 \<le> unat (retry_delay f j)" "unat (retry_delay f j) \<le> 600"
proof -
  have "(1::nat) \<le> 2 ^ min (unat f) 7" by simp
  then show "5 \<le> unat (retry_delay f j)" unfolding unat_retry_delay by linarith
qed (simp add: unat_retry_delay)

lemma retry_delay_mono: "f \<le> g \<Longrightarrow> retry_delay f j \<le> retry_delay g j"
proof -
  assume "f \<le> g"
  then have "min (unat f) 7 \<le> min (unat g) 7" by (simp add: word_le_nat_alt)
  then have "(2::nat) ^ min (unat f) 7 \<le> 2 ^ min (unat g) 7" by (rule power_increasing) simp
  then show ?thesis unfolding word_le_nat_alt unat_retry_delay by linarith
qed

lemma note_failure_frame [simp]:
  "ps_id (note_failure now b e sc p) = ps_id p"
  "ps_running (note_failure now b e sc p) = ps_running p"
  "ps_deleting (note_failure now b e sc p) = ps_deleting p"
  "ps_generation (note_failure now b e sc p) = ps_generation p"
  "ps_observed_at (note_failure now b e sc p) = ps_observed_at p"
  by (simp_all add: note_failure_def Let_def)

lemma note_failure_scope: "ps_retry_scope (note_failure now b e sc p) = sc"
  by (simp add: note_failure_def Let_def)

lemma note_failure_deadline:
  assumes "unat now + 606 < 2 ^ 64"
  shows "now < ps_retry_at (note_failure now b e sc p)"
proof (cases "now < ps_retry_at p \<and> ps_retry_scope p = sc")
  case True
  then show ?thesis by (simp add: note_failure_def)
next
  case False
  define d where "d = retry_delay (saturating_add (ps_failures p) 1) (ucast (b mod 7))"
  have "unat (saturating_add now d) = unat now + unat d"
    using assms retry_delay_bounds [of "saturating_add (ps_failures p) 1" "ucast (b mod 7)"]
    by (simp add: unat_saturating_add d_def)
  moreover have "5 \<le> unat d" by (simp add: d_def retry_delay_bounds)
  ultimately have "now < saturating_add now d" by (simp add: word_less_nat_alt)
  with False show ?thesis by (auto simp: note_failure_def Let_def d_def)
qed

lemma note_exit_mono: "report \<le> note_exit report r i"
  by (simp add: note_exit_def)

lemma pool_health_reasons: "ph_ok (pool_health p ps runs now) \<longleftrightarrow> ph_reasons (pool_health p ps runs now) = []"
  by (simp add: pool_health_def Let_def)

text \<open>
  A pool is healthy exactly when it is not meant to run, or it has no error, no deadline
  ahead, no runner in an unknown phase, and as many idle or busy runners as replicas.
\<close>

theorem pool_health_exact:
  "ph_ok (pool_health p ps runs now)
     = (if ps_running ps \<and> \<not> ps_deleting ps \<and> 0 < pl_replicas p then
          ps_error ps = None \<and> ps_retry_at ps \<le> now \<and> list_all (\<lambda>r. run_phase r \<noteq> ''unknown'') runs
          \<and> unat (pl_replicas p) \<le> length (filter (\<lambda>r. run_phase r \<in> {''idle'', ''busy''}) runs)
        else True)"
  by (auto simp: pool_health_def Let_def not_less filter_empty_conv list_all_iff split: option.splits)

end
