(* ===== verification/Retiring.thy ===== *)
theory Retiring
  imports Manager_State
begin

text \<open>
  The choice of the runs to retire (\<open>mark_retiring\<close>, src/manager.rs): of a pool's runs, ordered by
  generation, then creation time, then identifier, the newest \<open>keep\<close> of the current generation
  stay; all others are marked. The specification is \<open>retire_spec\<close>.
\<close>

section \<open>The order of the runs\<close>

text \<open>The tuple the code sorts by, compared lexicographically as Rust compares tuples.\<close>

datatype retire_key = Retire_Key (rk_generation: u64) (rk_created_at: u64) (rk_id: string)

instantiation retire_key :: linorder
begin

fun less_retire_key :: "retire_key \<Rightarrow> retire_key \<Rightarrow> bool" where
  "less_retire_key (Retire_Key g c i) (Retire_Key h d j) \<longleftrightarrow>
     g < h \<or> g = h \<and> (c < d \<or> c = d \<and> i < j)"

definition less_eq_retire_key :: "retire_key \<Rightarrow> retire_key \<Rightarrow> bool" where
  "less_eq_retire_key a b \<longleftrightarrow> a < b \<or> a = b"

instance
proof
  fix a b c :: retire_key
  show "a < b \<longleftrightarrow> a \<le> b \<and> \<not> b \<le> a"
    by (cases a; cases b) (auto simp: less_eq_retire_key_def)
  show "a \<le> a" by (simp add: less_eq_retire_key_def)
  show "a \<le> b \<Longrightarrow> b \<le> c \<Longrightarrow> a \<le> c"
    by (cases a; cases b; cases c) (auto simp: less_eq_retire_key_def)
  show "a \<le> b \<Longrightarrow> b \<le> a \<Longrightarrow> a = b"
    by (cases a; cases b) (auto simp: less_eq_retire_key_def)
  show "a \<le> b \<or> b \<le> a"
    by (cases a; cases b) (auto simp: less_eq_retire_key_def neq_iff)
qed

end

definition retire_key_of :: "run \<Rightarrow> retire_key" where
  "retire_key_of r = Retire_Key (run_generation r) (run_created_at r) (run_id r)"

section \<open>The operation\<close>

definition keep_count :: "pool \<Rightarrow> pool_state \<Rightarrow> nat" where
  "keep_count p ps = (if ps_running ps \<and> \<not> ps_deleting ps then unat (pl_replicas p) else 0)"

definition set_retiring :: "run \<Rightarrow> run" where
  "set_retiring r = r\<lparr>run_retiring := True\<rparr>"

text \<open>\<open>sort_by(|a, b| b.cmp(a))\<close>: decreasing; keys that compare equal are equal.\<close>

definition retire_order :: "run list \<Rightarrow> retire_key list" where
  "retire_order runs = rev (sort (map retire_key_of runs))"

text \<open>The loop over the enumerated order, from position \<open>index\<close> on.\<close>

fun retire_loop :: "nat \<Rightarrow> u64 \<Rightarrow> nat \<Rightarrow> retire_key list \<Rightarrow> run bmap \<Rightarrow> run bmap res" where
  "retire_loop keep gen index [] runs = Ok runs"
| "retire_loop keep gen index (k # ks) runs =
     (case bm_get runs (rk_id k) of
        None \<Rightarrow> Panic ''called Option::unwrap() on a None value''
      | Some r \<Rightarrow> retire_loop keep gen (Suc index) ks
          (if keep \<le> index \<or> run_generation r \<noteq> gen
           then bm_update (rk_id k) set_retiring runs else runs))"

definition mark_retiring :: "string \<Rightarrow> state \<Rightarrow> state res" where
  "mark_retiring name s =
     (case bm_get (s_pools s) name of
        None \<Rightarrow> Panic ''no entry found for key''
      | Some ps \<Rightarrow> (case find_pool name (s_config s) of
            None \<Rightarrow> Panic ''called Option::unwrap() on a None value''
          | Some p \<Rightarrow>
              and_then (retire_loop (keep_count p ps) (ps_generation ps) 0
                  (retire_order (pool_runs (ps_id ps) s)) (s_runs s)) (\<lambda>runs.
              Ok (s\<lparr>s_runs := runs\<rparr>))))"

section \<open>Specification\<close>

text \<open>
  A run keeps its place when it belongs to another pool, or is of the current generation and
  fewer than \<open>keep\<close> runs of its pool come before it in the order.
\<close>

definition newer :: "string \<Rightarrow> state \<Rightarrow> run \<Rightarrow> run list" where
  "newer pid s r = filter (\<lambda>q. retire_key_of r < retire_key_of q) (pool_runs pid s)"

definition keeps_place :: "nat \<Rightarrow> pool_state \<Rightarrow> state \<Rightarrow> run \<Rightarrow> bool" where
  "keeps_place keep ps s r \<longleftrightarrow>
     length (newer (ps_id ps) s r) < keep \<and> run_generation r = ps_generation ps"

definition retire_spec :: "nat \<Rightarrow> pool_state \<Rightarrow> state \<Rightarrow> run \<Rightarrow> run" where
  "retire_spec keep ps s r =
     (if run_pool_id r = ps_id ps \<and> \<not> keeps_place keep ps s r then set_retiring r else r)"

section \<open>The loop meets the specification\<close>

lemma set_retiring_sel [simp]:
  "run_id (set_retiring r) = run_id r" "run_pool_id (set_retiring r) = run_pool_id r"
  "run_generation (set_retiring r) = run_generation r"
  "run_created_at (set_retiring r) = run_created_at r" "run_pool (set_retiring r) = run_pool r"
  "run_force (set_retiring r) = run_force r" "run_retiring (set_retiring r)"
  "run_phase (set_retiring r) = run_phase r"
  by (simp_all add: set_retiring_def)

text \<open>
  The positions below \<open>index\<close> are done; the keys still to come have distinct identifiers, each
  of which has a run. Position of a key in the rest decides what happens to its run.
\<close>

fun position :: "'a \<Rightarrow> 'a list \<Rightarrow> nat option" where
  "position x [] = None"
| "position x (y # ys) = (if x = y then Some 0 else map_option Suc (position x ys))"

lemma position_None: "position x ys = None \<longleftrightarrow> x \<notin> set ys"
  by (induction ys) auto

lemma retire_loop_spec:
  assumes "distinct (map rk_id ks)" "\<forall>k \<in> set ks. bm_get runs (rk_id k) \<noteq> None"
  shows "\<exists>runs'. retire_loop keep gen index ks runs = Ok runs' \<and> bm_keys runs' = bm_keys runs
    \<and> (\<forall>i. bm_get runs' i = (case position i (map rk_id ks) of
          None \<Rightarrow> bm_get runs i
        | Some n \<Rightarrow> map_option (\<lambda>r. if keep \<le> index + n \<or> run_generation r \<noteq> gen
              then set_retiring r else r) (bm_get runs i)))"
  using assms
proof (induction ks arbitrary: index runs)
  case Nil
  then show ?case by simp
next
  case (Cons k ks)
  obtain r where r: "bm_get runs (rk_id k) = Some r" using Cons.prems by auto
  define runs1 where "runs1 = (if keep \<le> index \<or> run_generation r \<noteq> gen
      then bm_update (rk_id k) set_retiring runs else runs)"
  have keys1: "bm_keys runs1 = bm_keys runs" by (simp add: runs1_def)
  have get1: "bm_get runs1 i = (if i = rk_id k then Some (if keep \<le> index \<or> run_generation r \<noteq> gen
      then set_retiring r else r) else bm_get runs i)" for i
    using r by (simp add: runs1_def)
  have "\<forall>k \<in> set ks. bm_get runs1 (rk_id k) \<noteq> None" using Cons.prems by (simp add: get1)
  with Cons.prems obtain runs' where
    loop: "retire_loop keep gen (Suc index) ks runs1 = Ok runs'" "bm_keys runs' = bm_keys runs1"
    and get': "\<And>i. bm_get runs' i = (case position i (map rk_id ks) of
          None \<Rightarrow> bm_get runs1 i
        | Some n \<Rightarrow> map_option (\<lambda>r. if keep \<le> Suc index + n \<or> run_generation r \<noteq> gen
              then set_retiring r else r) (bm_get runs1 i))"
    using Cons.IH [of runs1 "Suc index"] by auto
  have pos: "position (rk_id k) (map rk_id ks) = None" using Cons.prems by (simp add: position_None)
  have "retire_loop keep gen index (k # ks) runs = Ok runs'"
    using r loop(1) by (simp add: runs1_def)
  moreover have "bm_get runs' i = (case position i (map rk_id (k # ks)) of
          None \<Rightarrow> bm_get runs i
        | Some n \<Rightarrow> map_option (\<lambda>r. if keep \<le> index + n \<or> run_generation r \<noteq> gen
              then set_retiring r else r) (bm_get runs i))" for i
  proof (cases "i = rk_id k")
    case True
    have "bm_get runs' (rk_id k) = bm_get runs1 (rk_id k)"
      unfolding get' [of "rk_id k"] pos by simp
    with True show ?thesis by (simp add: get1 r)
  next
    case False
    then have "bm_get runs1 i = bm_get runs i" by (simp add: get1)
    with False show ?thesis unfolding get' by (simp split: option.split)
  qed
  ultimately show ?case using loop(2) keys1 by auto
qed

lemma distinct_retire_keys:
  "distinct (map run_id runs) \<Longrightarrow> distinct (map retire_key_of runs)"
  by (induction runs) (auto simp: retire_key_of_def)

lemma set_retire_order [simp]: "set (retire_order runs) = retire_key_of ` set runs"
  by (simp add: retire_order_def)

lemma distinct_retire_order:
  assumes "distinct (map run_id runs)"
  shows "distinct (map rk_id (retire_order runs))"
proof -
  have "inj_on rk_id (set (retire_order runs))"
    using assms by (auto simp: inj_on_def retire_key_of_def distinct_map)
  with distinct_retire_keys [OF assms] show ?thesis by (simp add: distinct_map retire_order_def)
qed

text \<open>In a strictly decreasing list the position of an element is the number of greater ones.\<close>

lemma position_sorted:
  fixes ys :: "'a::linorder list"
  assumes "sorted_wrt (>) ys" "y \<in> set ys"
  shows "position y ys = Some (length (filter (\<lambda>z. y < z) ys))"
  using assms
proof (induction ys)
  case Nil
  then show ?case by simp
next
  case (Cons x xs)
  then show ?case by (auto simp: filter_empty_conv)
qed

lemma position_map_inj:
  "inj_on f (insert x (set ys)) \<Longrightarrow> position (f x) (map f ys) = position x ys"
  by (induction ys) (auto simp: inj_on_def)

lemma retire_position:
  assumes "distinct (map run_id runs)" "r \<in> set runs"
  shows "position (run_id r) (map rk_id (retire_order runs))
    = Some (length (filter (\<lambda>q. retire_key_of r < retire_key_of q) runs))"
proof -
  have strict: "sorted_wrt (>) (retire_order runs)"
    using distinct_retire_keys [OF assms(1)]
    by (simp add: retire_order_def sorted_wrt_rev strict_sorted_iff)
  have inj: "inj_on rk_id (insert (retire_key_of r) (set (retire_order runs)))"
    using assms by (auto simp: inj_on_def retire_key_of_def distinct_map)
  have "position (run_id r) (map rk_id (retire_order runs))
      = position (retire_key_of r) (retire_order runs)"
    using position_map_inj [OF inj] by (simp add: retire_key_of_def)
  also have "\<dots> = Some (length (filter (\<lambda>z. retire_key_of r < z) (retire_order runs)))"
    using strict assms(2) by (intro position_sorted) auto
  also have "length (filter (\<lambda>z. retire_key_of r < z) (retire_order runs))
      = length (filter (\<lambda>z. retire_key_of r < z) (map retire_key_of runs))"
    by (simp add: retire_order_def filter_sort flip: rev_filter)
  also have "\<dots> = length (filter (\<lambda>q. retire_key_of r < retire_key_of q) runs)"
    by (simp add: filter_map comp_def)
  finally show ?thesis .
qed

lemma mark_retiring_spec:
  assumes wf: "wf_state s" and ps: "bm_get (s_pools s) name = Some ps"
    and p: "find_pool name (s_config s) = Some p"
  shows "\<exists>s'. mark_retiring name s = Ok s' \<and> s' = s\<lparr>s_runs := s_runs s'\<rparr>
    \<and> bm_keys (s_runs s') = bm_keys (s_runs s)
    \<and> (\<forall>i. bm_get (s_runs s') i
        = map_option (retire_spec (keep_count p ps) ps s) (bm_get (s_runs s) i))"
proof -
  let ?runs = "pool_runs (ps_id ps) s" and ?keep = "keep_count p ps"
  have dist: "distinct (map run_id ?runs)" using wf by (rule distinct_pool_run_ids)
  have "\<forall>k \<in> set (retire_order ?runs). bm_get (s_runs s) (rk_id k) \<noteq> None"
    using set_pool_runs [OF wf] by (auto simp: retire_key_of_def)
  with distinct_retire_order [OF dist] obtain runs' where
    loop: "retire_loop ?keep (ps_generation ps) 0 (retire_order ?runs) (s_runs s) = Ok runs'"
      "bm_keys runs' = bm_keys (s_runs s)"
    and get': "\<And>i. bm_get runs' i = (case position i (map rk_id (retire_order ?runs)) of
          None \<Rightarrow> bm_get (s_runs s) i
        | Some n \<Rightarrow> map_option (\<lambda>r. if ?keep \<le> n \<or> run_generation r \<noteq> ps_generation ps
              then set_retiring r else r) (bm_get (s_runs s) i))"
    using retire_loop_spec [of "retire_order ?runs" "s_runs s" ?keep "ps_generation ps" 0,
        unfolded add_0] by blast
  have "bm_get runs' i = map_option (retire_spec ?keep ps s) (bm_get (s_runs s) i)" for i
  proof (cases "bm_get (s_runs s) i")
    case None
    then show ?thesis by (simp add: get' split: option.splits)
  next
    case (Some r)
    then have id: "run_id r = i" using wf_runD [OF wf] by blast
    show ?thesis
    proof (cases "run_pool_id r = ps_id ps")
      case True
      with Some id have "r \<in> set ?runs" using set_pool_runs [OF wf] by simp
      from retire_position [OF dist this] Some True id show ?thesis
        by (auto simp: get' retire_spec_def keeps_place_def newer_def not_less)
    next
      case False
      with Some id have "i \<notin> rk_id ` retire_key_of ` set ?runs"
        using set_pool_runs [OF wf] by (auto simp: retire_key_of_def)
      then have "position i (map rk_id (retire_order ?runs)) = None" by (simp add: position_None)
      with Some False show ?thesis by (simp only: get') (simp add: retire_spec_def)
    qed
  qed
  moreover have "mark_retiring name s = Ok (s\<lparr>s_runs := runs'\<rparr>)"
    using ps p loop by (simp add: mark_retiring_def)
  ultimately show ?thesis using loop(2) by auto
qed

lemma retire_spec_sel [simp]:
  "run_id (retire_spec k ps s r) = run_id r"
  "run_pool_id (retire_spec k ps s r) = run_pool_id r"
  "run_generation (retire_spec k ps s r) = run_generation r"
  "run_force (retire_spec k ps s r) = run_force r"
  "run_phase (retire_spec k ps s r) = run_phase r"
  "run_retiring r \<Longrightarrow> run_retiring (retire_spec k ps s r)"
  by (simp_all add: retire_spec_def)

lemma wf_mark_retiring: "wf_state s \<Longrightarrow> mark_retiring name s = Ok s' \<Longrightarrow> wf_state s'"
proof -
  assume wf: "wf_state s" and ok: "mark_retiring name s = Ok s'"
  then obtain ps p where ps: "bm_get (s_pools s) name = Some ps"
    and p: "find_pool name (s_config s) = Some p"
    by (auto simp: mark_retiring_def split: option.splits)
  from mark_retiring_spec [OF wf ps p] ok have s': "s' = s\<lparr>s_runs := s_runs s'\<rparr>"
    and keys: "bm_keys (s_runs s') = bm_keys (s_runs s)"
    and get: "\<And>i. bm_get (s_runs s') i
        = map_option (retire_spec (keep_count p ps) ps s) (bm_get (s_runs s) i)"
    by auto
  have "s_config s' = s_config s" "s_pools s' = s_pools s" "s_manager_id s' = s_manager_id s"
    by (subst s', simp)+
  moreover have "bm_invar (s_runs s')" using wf keys by (simp add: wf_state_def wf_runs_def bm_invar_def)
  ultimately show ?thesis using wf by (auto simp: wf_state_def wf_runs_def get pool_ids_def)
qed

section \<open>How many stay\<close>

lemma position_inj: "position x ys = Some n \<Longrightarrow> position y ys = Some n \<Longrightarrow> x = y"
  by (induction ys arbitrary: n) (auto split: if_splits)

text \<open>The runs that keep their place take the first \<open>keep\<close> positions of the order.\<close>

lemma distinct_positions:
  assumes "distinct (map run_id runs)"
  shows "inj_on (\<lambda>r. length (filter (\<lambda>q. retire_key_of r < retire_key_of q) runs)) (set runs)"
proof (rule inj_onI)
  fix r q
  assume r: "r \<in> set runs" and q: "q \<in> set runs"
    and eq: "length (filter (\<lambda>x. retire_key_of r < retire_key_of x) runs)
      = length (filter (\<lambda>x. retire_key_of q < retire_key_of x) runs)"
  have "run_id r = run_id q"
    using retire_position [OF assms r] retire_position [OF assms q] eq by (metis position_inj)
  then show "r = q" using assms r q by (auto simp: distinct_map inj_on_def)
qed

lemma count_keeps_place:
  assumes "wf_state s"
  shows "length (filter (keeps_place keep ps s) (pool_runs (ps_id ps) s)) \<le> keep"
proof -
  let ?runs = "pool_runs (ps_id ps) s"
  let ?pos = "\<lambda>r. length (newer (ps_id ps) s r)"
  have dist: "distinct (map run_id ?runs)" using assms by (rule distinct_pool_run_ids)
  then have "inj_on ?pos (set (filter (keeps_place keep ps s) ?runs))"
    using distinct_positions [OF dist] by (auto simp: newer_def inj_on_def)
  then have "card (set (filter (keeps_place keep ps s) ?runs)) \<le> card {..<keep}"
    by (rule card_inj_on_le) (auto simp: keeps_place_def)
  moreover have "distinct (filter (keeps_place keep ps s) ?runs)"
    using dist by (simp add: distinct_map)
  ultimately show ?thesis by (simp only: distinct_card card_lessThan)
qed

lemma mark_retiring_runs:
  assumes wf: "wf_state s" and ps: "bm_get (s_pools s) name = Some ps"
    and p: "find_pool name (s_config s) = Some p" and ok: "mark_retiring name s = Ok s'"
  shows "pool_runs i s' = map (retire_spec (keep_count p ps) ps s) (pool_runs i s)"
proof -
  have "bm_values (s_runs s') = map (retire_spec (keep_count p ps) ps s) (bm_values (s_runs s))"
    using mark_retiring_spec [OF wf ps p] ok wf
    by (intro bm_values_map) (auto simp: wf_state_def wf_runs_def)
  then show ?thesis by (simp add: pool_runs_def filter_map comp_def)
qed

lemma mark_retiring_count:
  assumes wf: "wf_state s" and ps: "bm_get (s_pools s) name = Some ps"
    and p: "find_pool name (s_config s) = Some p" and ok: "mark_retiring name s = Ok s'"
  shows "length (filter (\<lambda>r. \<not> run_retiring r) (pool_runs (ps_id ps) s')) \<le> keep_count p ps"
proof -
  let ?keep = "keep_count p ps" and ?runs = "pool_runs (ps_id ps) s"
  have "length (filter (\<lambda>r. \<not> run_retiring r) (pool_runs (ps_id ps) s'))
      = length (filter (\<lambda>r. \<not> run_retiring (retire_spec ?keep ps s r)) ?runs)"
    by (simp add: mark_retiring_runs [OF assms] filter_map comp_def)
  also have "\<dots> \<le> length (filter (keeps_place ?keep ps s) ?runs)"
  proof -
    have "filter (\<lambda>r. \<not> run_retiring (retire_spec ?keep ps s r)) ?runs
        = filter (\<lambda>r. \<not> run_retiring (retire_spec ?keep ps s r)) (filter (keeps_place ?keep ps s) ?runs)"
      by (auto simp: retire_spec_def pool_runs_def intro!: filter_cong)
    then show ?thesis by (simp only: length_filter_le)
  qed
  also have "\<dots> \<le> ?keep" by (rule count_keeps_place [OF wf])
  finally show ?thesis .
qed

end
