(* ===== verification/Environment.thy ===== *)
theory Environment
  imports Retry Retiring Utf8
begin

text \<open>
  The manager's engine (\<open>Engine\<close> of src/manager.rs, with the GitHub cache of src/github.rs that it
  shares) and the environment it runs in: clock, random source, hash, TOML and JSON text,
  SQLite, files, the docker command, HTTP, and the requests and file edits that arrive while an
  external operation is in flight. The environment is a record of functions over an unspecified
  world \<open>'w\<close>; nothing is assumed of it unless a theorem says so.
\<close>

section \<open>The environment\<close>

text \<open>
  What a run of the docker command gives: the program could not be run or timed out, or it ended
  with an exit status, standard output and standard error.
\<close>

datatype docker_outcome =
    Docker_Timeout
  | Docker_Spawn_Error string
  | Docker_Exit (docker_success: bool) (docker_stdout: string) (docker_stderr: string)

text \<open>
  A run of \<open>docker cp\<close> streamed to a file: it could not be started, timed out, failed to read or
  write, or copied so many bytes, after which waiting for it fails or gives its success.
\<close>

datatype cp_outcome =
    Cp_Spawn_Error string
  | Cp_Timeout
  | Cp_Io_Error string
  | Cp_Copied nat "string + bool"

datatype http_method = GET | POST | DELETE

text \<open>
  An HTTP answer: the status code, the headers the code reads (None when absent or not text), and
  the body as JSON (None when it is not JSON).
\<close>

record http_response =
  hr_status :: nat
  hr_ratelimit_remaining :: "string option"
  hr_retry_after :: "string option"
  hr_ratelimit_reset :: "string option"
  hr_json :: "json option"

text \<open>
  \<open>atomic_write\<close> fails before the rename (the old file stays), or after it, when the directory
  cannot be synchronised (the new file is in place).
\<close>

datatype write_outcome = Written | Write_Failed string | Write_Unsynced string

text \<open>A file as \<open>open_private\<close> sees it; \<open>fi_text\<close> is what reading at most the given bytes yields.\<close>

record opened_file =
  fi_regular :: bool
  fi_mode :: nat
  fi_text :: "nat \<Rightarrow> string + string"

text \<open>
  An entry of the log directory: unreadable, no regular file, or a file with the time since its
  last modification in nanoseconds (an error when that time is unavailable).
\<close>

datatype log_entry = Entry_Error string | Not_A_File | Log_File string "string + nat"

datatype event = Command request | Edit "string + string"

record 'w env =
  home :: string
  clock :: "'w \<Rightarrow> u64 \<times> 'w"
  nanos :: "'w \<Rightarrow> int \<times> 'w"
  uuid :: "'w \<Rightarrow> string \<times> 'w"
  random_byte :: "'w \<Rightarrow> u8 \<times> 'w"
  sha256 :: "string \<Rightarrow> string"
  from_toml :: "string \<Rightarrow> config option"
  to_toml :: "config \<Rightarrow> string + string"
  auth_json :: "auth \<Rightarrow> string"
  claims_json :: "u64 \<Rightarrow> u64 \<Rightarrow> string \<Rightarrow> string"
  base64_decode :: "string \<Rightarrow> string option"
  base64_url :: "string \<Rightarrow> string"
  rsa_from_pkcs8 :: "string \<Rightarrow> string option"
  rsa_from_der :: "string \<Rightarrow> string option"
  rsa_sign :: "string \<Rightarrow> string \<Rightarrow> 'w \<Rightarrow> string option \<times> 'w"
  parse_json :: "string \<Rightarrow> string + json"
  shape_error :: "json \<Rightarrow> string"
  parse_rfc3339 :: "string \<Rightarrow> int option"
  format_rfc3339 :: "int \<Rightarrow> string option"
  f64_text :: "f64 \<Rightarrow> string"
  host_ids :: "u32 \<times> u32"
  client_build :: "'w \<Rightarrow> string option \<times> 'w"
  sql_open :: "'w \<Rightarrow> string option \<times> 'w"
  sql_load :: "'w \<Rightarrow> string option \<times> 'w"
  sql_save :: "'w \<Rightarrow> string option \<times> 'w"
  fs_exists :: "string \<Rightarrow> 'w \<Rightarrow> bool \<times> 'w"
  fs_remove_file :: "string \<Rightarrow> 'w \<Rightarrow> string option \<times> 'w"
  fs_remove_dir_all :: "string \<Rightarrow> 'w \<Rightarrow> string option \<times> 'w"
  fs_create_dir_all :: "string \<Rightarrow> 'w \<Rightarrow> string option \<times> 'w"
  fs_is_symlink :: "string \<Rightarrow> 'w \<Rightarrow> (string + bool) \<times> 'w"
  fs_temp :: "string \<Rightarrow> 'w \<Rightarrow> (string + string) \<times> 'w"
  fs_append :: "string \<Rightarrow> string \<Rightarrow> 'w \<Rightarrow> string option \<times> 'w"
  fs_sync :: "string \<Rightarrow> 'w \<Rightarrow> string option \<times> 'w"
  fs_rename :: "string \<Rightarrow> string \<Rightarrow> 'w \<Rightarrow> string option \<times> 'w"
  fs_probe :: "string \<Rightarrow> string \<Rightarrow> 'w \<Rightarrow> (string + string) \<times> 'w"
  fs_open :: "string \<Rightarrow> 'w \<Rightarrow> opened_file option \<times> 'w"
  fs_chmod :: "string \<Rightarrow> nat \<Rightarrow> 'w \<Rightarrow> string option \<times> 'w"
  try_lock :: "string \<Rightarrow> 'w \<Rightarrow> (string + bool) \<times> 'w"
  socket_bind :: "string \<Rightarrow> 'w \<Rightarrow> bool \<times> 'w"
  signals :: "'w \<Rightarrow> string option \<times> 'w"
  fs_logs :: "'w \<Rightarrow> (string + log_entry list) \<times> 'w"
  env_var :: "string \<Rightarrow> 'w \<Rightarrow> string option \<times> 'w"
  docker :: "string list \<Rightarrow> 'w \<Rightarrow> docker_outcome \<times> 'w"
  docker_cp :: "string list \<Rightarrow> string \<Rightarrow> 'w \<Rightarrow> cp_outcome \<times> 'w"
  status_text :: "nat \<Rightarrow> string"
  http :: "http_method \<Rightarrow> string \<Rightarrow> string option \<Rightarrow> 'w \<Rightarrow> http_response option \<times> 'w"
  arrivals :: "'w \<Rightarrow> event list \<times> 'w"

section \<open>Files\<close>

text \<open>One effect after another under \<open>?\<close>; the result is the error, if there is one.\<close>

definition and_io :: "('w \<Rightarrow> string option \<times> 'w) \<Rightarrow> ('w \<Rightarrow> string option \<times> 'w) \<Rightarrow> 'w \<Rightarrow> string option \<times> 'w" where
  "and_io f g w = (case f w of (None, w1) \<Rightarrow> g w1 | (Some err, w1) \<Rightarrow> (Some err, w1))"

text \<open>\<open>Path::join\<close> with a relative name, and \<open>Path::parent\<close>, which ignores a trailing \<open>/\<close> or \<open>/.\<close>.\<close>

fun trim_path :: "string \<Rightarrow> string" where
  "trim_path (a # b # p) =
     (if a = CHR ''/'' then trim_path (b # p)
      else if a = CHR ''.'' \<and> b = CHR ''/'' then trim_path (b # p) else a # b # p)"
| "trim_path p = p"

definition parent_dir :: "string \<Rightarrow> string option" where
  "parent_dir p = (let r = trim_path (rev p) in
     if r = [] \<or> r = ''/'' then None else Some (rev (trim_path (dropWhile (\<lambda>c. c \<noteq> CHR ''/'') r))))"

text \<open>\<open>secure_dir\<close> and \<open>atomic_write\<close> of src/config.rs, on Unix.\<close>

definition no_symlink :: "'w env \<Rightarrow> string \<Rightarrow> 'w \<Rightarrow> string option \<times> 'w" where
  "no_symlink E path w = (case fs_is_symlink E path w of
       (Inl err, w1) \<Rightarrow> (Some err, w1)
     | (Inr link, w1) \<Rightarrow> (if link then Some ''directory must not be a symlink'' else None, w1))"

definition secure_dir :: "'w env \<Rightarrow> string \<Rightarrow> 'w \<Rightarrow> string option \<times> 'w" where
  "secure_dir E path = and_io (fs_create_dir_all E path) (and_io (no_symlink E path) (fs_chmod E path 448))"

text \<open>A temporary file that is not renamed is removed when it is dropped.\<close>

definition atomic_write :: "'w env \<Rightarrow> string \<Rightarrow> string \<Rightarrow> 'w \<Rightarrow> write_outcome \<times> 'w" where
  "atomic_write E path data w = (case parent_dir path of
       None \<Rightarrow> (Write_Failed ''missing parent'', w)
     | Some dir \<Rightarrow> (case fs_temp E dir w of
         (Inl err, w1) \<Rightarrow> (Write_Failed err, w1)
       | (Inr tmp, w1) \<Rightarrow>
         (case and_io (fs_chmod E tmp 384) (and_io (fs_append E tmp data)
             (and_io (fs_sync E tmp) (fs_rename E tmp path))) w1 of
           (Some err, w2) \<Rightarrow> (Write_Failed err, snd (fs_remove_file E tmp w2))
         | (None, w2) \<Rightarrow> (case fs_sync E dir w2 of
             (None, w3) \<Rightarrow> (Written, w3)
           | (Some err, w3) \<Rightarrow> (Write_Unsynced err, w3)))))"

definition write_file :: "'w env \<Rightarrow> string \<Rightarrow> string \<Rightarrow> 'w \<Rightarrow> string option \<times> 'w" where
  "write_file E path data w = (case atomic_write E path data w of
       (Written, w1) \<Rightarrow> (None, w1)
     | (Write_Failed err, w1) \<Rightarrow> (Some err, w1)
     | (Write_Unsynced err, w1) \<Rightarrow> (Some err, w1))"

section \<open>The GitHub cache\<close>

record cache =
  ca_lists :: "(string \<times> string) \<Rightarrow> (u64 \<times> remote_runner list) option"
  ca_blocked :: "string \<Rightarrow> (u64 \<times> string) option"
  ca_tokens :: "string \<Rightarrow> (u64 \<times> string) option"
  ca_generation :: u64

definition empty_cache :: "u64 \<Rightarrow> cache" where
  "empty_cache g = \<lparr>ca_lists = Map.empty, ca_blocked = Map.empty, ca_tokens = Map.empty,
     ca_generation = g\<rparr>"

definition clear_cache :: "cache \<Rightarrow> cache" where
  "clear_cache c = empty_cache (ca_generation c + 1)"

section \<open>The engine\<close>

text \<open>
  The fields of \<open>Engine\<close>: \<open>serving\<close> says that the command channel is attached, \<open>snapshots\<close> is the
  value of the watch channel if there is one. \<open>row\<close> is the single row of the SQLite table, and
  \<open>config_file\<close> what reading config.toml gives. Two components are no fields of the program:
  \<open>mutations\<close> counts the increments of \<open>epoch\<close>, which wraps, and \<open>issued\<close> lists the external
  commands issued so far.
\<close>

datatype call =
    Docker_Call "string list"
  | Docker_Cp "string list"
  | Http_Call http_method string

record 'w engine =
  st :: state
  row :: "state option"
  config_file :: "string + string"
  github :: cache
  cursor :: u64
  boot_time :: "u64 option"
  serving :: bool
  snapshots :: "state option"
  epoch :: u64
  reconcile_epoch :: "u64 option"
  mutations :: nat
  issued :: "call list"
  world :: 'w

type_synonym ('w, 'a) act = "('w engine, 'a) prog"

definition ask :: "('w \<Rightarrow> 'a \<times> 'w) \<Rightarrow> ('w, 'a) act" where
  "ask f e = (let (x, w) = f (world e) in (Ok x, e\<lparr>world := w\<rparr>))"

text \<open>An effect that gives an optional error, under \<open>?\<close>.\<close>

definition perform :: "('w \<Rightarrow> string option \<times> 'w) \<Rightarrow> ('w, unit) act" where
  "perform f = bind_p (ask f) (\<lambda>r. case r of None \<Rightarrow> ret () | Some err \<Rightarrow> throw (Msg err))"

definition set_st :: "state \<Rightarrow> ('w, unit) act" where
  "set_st s = modify (\<lambda>e. e\<lparr>st := s\<rparr>)"

definition set_st_with :: "(state \<Rightarrow> state) \<Rightarrow> ('w, unit) act" where
  "set_st_with f = modify (\<lambda>e. e\<lparr>st := f (st e)\<rparr>)"

definition from_sum :: "string + 'a \<Rightarrow> 'a res" where
  "from_sum x = (case x of Inl e \<Rightarrow> Err (Msg e) | Inr y \<Rightarrow> Ok y)"

lemma ask_returns [returns]:
  "ask f e = (Ok y, e') \<longleftrightarrow> y = fst (f (world e)) \<and> e' = e\<lparr>world := snd (f (world e))\<rparr>"
  by (auto simp: ask_def case_prod_beta)

lemma from_sum_Ok [simp]: "from_sum x = Ok y \<longleftrightarrow> x = Inr y"
  by (cases x) (simp_all add: from_sum_def)

lemma post_ask [post_simps, simp]:
  "post Q R (ask f e) = Q (fst (f (world e))) (e\<lparr>world := snd (f (world e))\<rparr>)"
  by (simp add: ask_def case_prod_beta)

lemma post_perform [post_simps, simp]:
  "post Q R (perform f e) = (case fst (f (world e)) of
      None \<Rightarrow> Q () (e\<lparr>world := snd (f (world e))\<rparr>)
    | Some err \<Rightarrow> R (Msg err) (e\<lparr>world := snd (f (world e))\<rparr>))"
  by (simp add: perform_def split: option.split)

lemma post_set_st [post_simps, simp]: "post Q R (set_st s e) = Q () (e\<lparr>st := s\<rparr>)"
  by (simp add: set_st_def)

lemma post_set_st_with [post_simps, simp]:
  "post Q R (set_st_with f e) = Q () (e\<lparr>st := f (st e)\<rparr>)"
  by (simp add: set_st_with_def)

lemma keeps_ask_world: "(\<And>e w. I e \<Longrightarrow> I (e\<lparr>world := w\<rparr>)) \<Longrightarrow> keeps I W (ask f)"
  by (rule keeps_post) simp

lemma keeps_perform_world: "(\<And>e w. I e \<Longrightarrow> I (e\<lparr>world := w\<rparr>)) \<Longrightarrow> keeps I W (perform f)"
  unfolding perform_def by (intro keeps_bind keeps_ask_world keeps_option keeps_ret keeps_throw)

section \<open>The store\<close>

text \<open>
  What the engine relies on in its store: a save that succeeds is what is stored from then on,
  one that fails leaves what was stored.
\<close>

locale durable_store =
  fixes save :: "'s \<Rightarrow> ('e, unit) prog" and stored :: "'e \<Rightarrow> 's option"
  assumes save_law: "post (\<lambda>_ e'. stored e' = Some s) (\<lambda>_ e'. stored e' = stored e) (save s e)"
begin

lemma save_keeps:
  "stored e = Some s0 \<Longrightarrow> P s0 \<Longrightarrow> P s \<Longrightarrow>
     post (\<lambda>_ e'. \<exists>s'. stored e' = Some s' \<and> P s') (\<lambda>_ e'. \<exists>s'. stored e' = Some s' \<and> P s') (save s e)"
  by (rule post_mono [OF save_law [of s e]]) auto

lemma save_twice:
  "post (\<lambda>_ e'. stored e' = Some t) (\<lambda>_ e'. stored e' = Some s \<or> stored e' = stored e)
     (seq_p (save s) (save t) e)"
  by (simp add: seq_p_def, rule post_mono [OF save_law [of s e]])
    (auto intro: post_mono [OF save_law])

end

definition store_save :: "'w env \<Rightarrow> state \<Rightarrow> ('w, unit) act" where
  "store_save E s = seq_p (perform (sql_save E)) (modify (\<lambda>e. e\<lparr>row := Some s\<rparr>))"

definition store_load :: "'w env \<Rightarrow> ('w, state option) act" where
  "store_load E = seq_p (perform (sql_load E)) (reads row)"

interpretation engine_store: durable_store "store_save E" row for E :: "'w env"
  by unfold_locales (simp add: store_save_def split: option.split)

section \<open>Saving and publishing\<close>

definition publish :: "'w engine \<Rightarrow> 'w engine" where
  "publish e = (case snapshots e of None \<Rightarrow> e | Some _ \<Rightarrow> e\<lparr>snapshots := Some (st e)\<rparr>)"

definition save :: "'w env \<Rightarrow> ('w, unit) act" where
  "save E = bind_p (reads st) (\<lambda>s. seq_p (store_save E s) (modify publish))"

definition read_config :: "('w, string) act" where
  "read_config = bind_p (reads config_file) (\<lambda>f. give (from_sum f))"

definition clean_file :: "'w env \<Rightarrow> ('w, unit) act" where
  "clean_file E = bind_p read_config (\<lambda>text. bind_p (reads st) (\<lambda>s.
     ensure_p (sha256 E text = s_file_hash s)
       ''config.toml has unapplied changes; run config apply first''))"

definition write_config :: "'w env \<Rightarrow> string \<Rightarrow> ('w, unit) act" where
  "write_config E text = bind_p (ask (atomic_write E (config_path (home E)) text)) (\<lambda>r. case r of
      Written \<Rightarrow> modify (\<lambda>e. e\<lparr>config_file := Inr text\<rparr>)
    | Write_Failed err \<Rightarrow> throw (Msg err)
    | Write_Unsynced err \<Rightarrow> seq_p (modify (\<lambda>e. e\<lparr>config_file := Inr text\<rparr>)) (throw (Msg err)))"

definition clear_github :: "('w, unit) act" where
  "clear_github = modify (\<lambda>e. e\<lparr>github := clear_cache (github e)\<rparr>)"

definition commit_config :: "'w env \<Rightarrow> config \<Rightarrow> ('w, unit) act" where
  "commit_config E nxt =
     bind_p (give (validate nxt)) (\<lambda>_.
     bind_p (give (from_sum (to_toml E nxt))) (\<lambda>text.
     bind_p (reads st) (\<lambda>s.
     let s' = s\<lparr>s_config := nxt, s_revision := s_revision s + 1, s_file_hash := sha256 E text\<rparr> in
     seq_p (store_save E s')
     (seq_p (set_st s')
     (seq_p (write_config E text)
     (seq_p clear_github
     (modify publish)))))))"

text \<open>\<open>now()\<close> and \<open>record_failure\<close>.\<close>

definition record_failure :: "'w env \<Rightarrow> string \<Rightarrow> string \<Rightarrow> retry_scope \<Rightarrow> ('w, unit) act" where
  "record_failure E name err scope =
     bind_p (ask (clock E)) (\<lambda>now.
     bind_p (reads st) (\<lambda>s.
     bind_p (give (or_error (bm_get (s_pools s) name) ''pool disappeared'')) (\<lambda>p.
     if now < ps_retry_at p \<and> ps_retry_scope p = scope then ret ()
     else bind_p (ask (random_byte E)) (\<lambda>b.
       set_st_with (update_pool name (note_failure now b err scope))))))"

section \<open>Frames\<close>

lemma publish_sel [simp]:
  "st (publish e) = st e" "row (publish e) = row e" "config_file (publish e) = config_file e"
  "github (publish e) = github e" "cursor (publish e) = cursor e"
  "boot_time (publish e) = boot_time e" "serving (publish e) = serving e"
  "epoch (publish e) = epoch e" "reconcile_epoch (publish e) = reconcile_epoch e"
  "mutations (publish e) = mutations e" "issued (publish e) = issued e" "world (publish e) = world e"
  by (simp_all add: publish_def split: option.split)

lemma post_save [post_simps]:
  "post Q R (save E e) = (case fst (sql_save E (world e)) of
      None \<Rightarrow> Q () (publish (e\<lparr>world := snd (sql_save E (world e)), row := Some (st e)\<rparr>))
    | Some err \<Rightarrow> R (Msg err) (e\<lparr>world := snd (sql_save E (world e))\<rparr>))"
  by (simp add: save_def store_save_def split: option.split)

lemma post_clean_file [post_simps]:
  "post Q R (clean_file E e) = (case config_file e of
      Inl err \<Rightarrow> R (Msg err) e
    | Inr text \<Rightarrow> if sha256 E text = s_file_hash (st e) then Q () e
        else R (Msg ''config.toml has unapplied changes; run config apply first'') e)"
  by (simp add: clean_file_def read_config_def post_give from_sum_def split: sum.split)

text \<open>
  A commit, as seen from outside: nothing happens, or the row holds the new state and the file
  may or may not.
\<close>

definition committed_state :: "'w env \<Rightarrow> config \<Rightarrow> string \<Rightarrow> state \<Rightarrow> state" where
  "committed_state E nxt text s =
     s\<lparr>s_config := nxt, s_revision := s_revision s + 1, s_file_hash := sha256 E text\<rparr>"

lemma post_commit_config:
  assumes "\<And>text e'. well_formed_config nxt \<Longrightarrow> to_toml E nxt = Inr text \<Longrightarrow>
        st e' = committed_state E nxt text (st e) \<Longrightarrow>
        row e' = Some (st e') \<Longrightarrow> epoch e' = epoch e \<Longrightarrow> reconcile_epoch e' = reconcile_epoch e \<Longrightarrow>
        serving e' = serving e \<Longrightarrow> issued e' = issued e \<Longrightarrow>
        config_file e' = Inr text \<Longrightarrow> github e' = clear_cache (github e) \<Longrightarrow> Q () e'"
    and "\<And>err e'. st e' = st e \<Longrightarrow> row e' = row e \<Longrightarrow> config_file e' = config_file e \<Longrightarrow>
        epoch e' = epoch e \<Longrightarrow> reconcile_epoch e' = reconcile_epoch e \<Longrightarrow>
        serving e' = serving e \<Longrightarrow> issued e' = issued e \<Longrightarrow> R err e'"
    and "\<And>err text e'. well_formed_config nxt \<Longrightarrow> to_toml E nxt = Inr text \<Longrightarrow>
        st e' = committed_state E nxt text (st e) \<Longrightarrow> row e' = Some (st e') \<Longrightarrow>
        config_file e' \<in> {config_file e, Inr text} \<Longrightarrow>
        epoch e' = epoch e \<Longrightarrow> reconcile_epoch e' = reconcile_epoch e \<Longrightarrow>
        serving e' = serving e \<Longrightarrow> issued e' = issued e \<Longrightarrow> R err e'"
  shows "post Q R (commit_config E nxt e)"
  using assms
  by (auto simp: commit_config_def post_give from_sum_def Let_def store_save_def write_config_def
      clear_github_def committed_state_def validate_Ok [symmetric] split: res.split sum.split option.split
      write_outcome.split)

end
