(* ===== verification/Engine.thy ===== *)
theory Engine
  imports Environment
begin

text \<open>
  The control requests (\<open>handle_inner\<close> and \<open>handle_local\<close> of src/manager.rs): one definition per
  request, then the dispatch and the rollback. Each request either commits a well-formed state
  that is in memory and in the store, or fails and leaves memory equal to the store.
\<close>

section \<open>Helpers of the requests\<close>

definition targets :: "state \<Rightarrow> string option \<Rightarrow> bool \<Rightarrow> string list res" where
  "targets s p all =
     and_then (ensure ((p \<noteq> None) \<noteq> all) ''specify a pool or --all'') (\<lambda>_.
     case p of
       Some n \<Rightarrow> and_then (ensure (bm_contains_key (s_pools s) n) (''unknown pool: '' @ n)) (\<lambda>_. Ok [n])
     | None \<Rightarrow> Ok (bm_keys (s_pools s)))"

fun map_res :: "('a \<Rightarrow> 'b res) \<Rightarrow> 'a list \<Rightarrow> 'b list res" where
  "map_res f [] = Ok []"
| "map_res f (x # xs) = and_then (f x) (\<lambda>y. and_then (map_res f xs) (\<lambda>ys. Ok (y # ys)))"

fun update_named :: "string \<Rightarrow> (pool \<Rightarrow> pool) \<Rightarrow> pool list \<Rightarrow> pool list" where
  "update_named name f [] = []"
| "update_named name f (p # ps) = (if pl_name p = name then f p # ps else p # update_named name f ps)"

definition with_pools :: "config \<Rightarrow> pool list \<Rightarrow> config" where
  "with_pools c ps = c\<lparr>cfg_pools := ps\<rparr>"

definition mark_retiring_p :: "string \<Rightarrow> ('w, unit) act" where
  "mark_retiring_p name = bind_p (reads st) (\<lambda>s. bind_p (give (mark_retiring name s)) set_st)"

section \<open>Status\<close>

text \<open>The serialisation of a pool; empty and absent settings are skipped.\<close>

definition pool_json :: "pool \<Rightarrow> json" where
  "pool_json p = jobj
     ([(''name'', JStr (pl_name p))]
      @ (if pl_organization p = [] then [] else [(''organization'', JStr (pl_organization p))])
      @ (case pl_repository p of None \<Rightarrow> [] | Some r \<Rightarrow> [(''repository'', JStr r)])
      @ [(''auth'', JStr (pl_auth p)), (''labels'', JArr (map JStr (pl_labels p))),
         (''runner_group'', JStr (pl_runner_group p)), (''replicas'', jword (pl_replicas p)),
         (''image'', JStr (pl_image p)), (''docker_socket'', JBool (pl_docker_socket p))]
      @ (if pl_allow_privilege_escalation p then [(''allow_privilege_escalation'', JBool True)] else [])
      @ (case pl_cpus p of None \<Rightarrow> [] | Some c \<Rightarrow> [(''cpus'', f64_json c)])
      @ (case pl_memory p of None \<Rightarrow> [] | Some m \<Rightarrow> [(''memory'', JStr m)]))"

definition intent_text :: "pool_state \<Rightarrow> string" where
  "intent_text ps =
     (if ps_deleting ps then ''deleting'' else if ps_running ps then ''running'' else ''stopped'')"

definition drain_reason :: "run \<Rightarrow> json" where
  "drain_reason r =
     (if \<not> run_retiring r then JNull
      else if run_phase r = ''idle'' then JStr ''waiting_for_next_job''
      else if run_phase r = ''busy'' then JStr ''job_in_progress''
      else JStr ''awaiting_observation_or_cleanup'')"

definition run_json :: "run \<Rightarrow> json" where
  "run_json r = jobj
     [(''id'', JStr (run_id r)), (''phase'', JStr (run_phase r)),
      (''retiring'', JBool (run_retiring r)), (''generation'', jword (run_generation r)),
      (''drain_reason'', drain_reason r)]"

definition count_phase :: "run list \<Rightarrow> string \<Rightarrow> nat" where
  "count_phase runs phase = length (filter (\<lambda>r. run_phase r = phase) runs)"

definition jnat :: "nat \<Rightarrow> json" where
  "jnat n = JNum (int n)"

definition pool_status :: "state \<Rightarrow> pool \<Rightarrow> json res" where
  "pool_status s p =
     and_then (or_panic (bm_get (s_pools s) (pl_name p)) ''no entry found for key'') (\<lambda>ps.
     let runs = pool_runs (ps_id ps) s in
     Ok (jobj
       [(''name'', JStr (pl_name p)), (''organization'', JStr (pl_organization p)),
        (''repository'', jopt JStr (pl_repository p)), (''target'', JStr (pool_target p)),
        (''replicas'', jword (pl_replicas p)), (''intent'', JStr (intent_text ps)),
        (''active'', jnat (length runs)),
        (''starting'', jnat (count_phase runs ''creating'' + count_phase runs ''starting'')),
        (''idle'', jnat (count_phase runs ''idle'')), (''busy'', jnat (count_phase runs ''busy'')),
        (''unknown'', jnat (count_phase runs ''unknown'')),
        (''draining'', jnat (length (filter run_retiring runs))),
        (''generation'', jword (ps_generation ps)), (''error'', jopt JStr (ps_error ps)),
        (''retry_at'', jword (ps_retry_at ps)), (''observed_at'', jword (ps_observed_at ps)),
        (''config'', pool_json p), (''runners'', JArr (map run_json runs))]))"

definition status_response :: "state \<Rightarrow> string option \<Rightarrow> json res" where
  "status_response s p =
     and_then (case p of
         Some n \<Rightarrow> ensure (bm_contains_key (s_pools s) n) (''unknown pool: '' @ n)
       | None \<Rightarrow> Ok ()) (\<lambda>_.
     and_then (map_res (pool_status s)
         (filter (\<lambda>q. p = None \<or> p = Some (pl_name q)) (cfg_pools (s_config s)))) (\<lambda>pools.
     Ok (jobj [(''revision'', jword (s_revision s)), (''pools'', JArr pools)])))"

definition handle_status :: "string option \<Rightarrow> ('w, json) act" where
  "handle_status p = bind_p (reads st) (\<lambda>s. give (status_response s p))"

section \<open>Add, scale and upgrade\<close>

definition handle_add :: "'w env \<Rightarrow> pool \<Rightarrow> ('w, json) act" where
  "handle_add E p =
     bind_p (reads st) (\<lambda>s.
     seq_p (ensure_p (\<not> bm_contains_key (s_pools s) (pl_name p)) ''pool already exists'')
     (let nxt = with_pools (s_config s) (cfg_pools (s_config s) @ [p]) in
     bind_p (give (validate nxt)) (\<lambda>_.
     bind_p (ask (uuid E)) (\<lambda>u.
     seq_p (set_st_with (\<lambda>s. s\<lparr>s_pools := bm_insert (pl_name p) (default_pool_state u) (s_pools s)\<rparr>))
     (seq_p (commit_config E nxt)
     (ret (jobj [(''added'', JStr (pl_name p)), (''intent'', JStr ''stopped'')])))))))"

definition existing_pool :: "state \<Rightarrow> string \<Rightarrow> unit res" where
  "existing_pool s name =
     and_then (or_error (find_pool name (s_config s)) ''unknown pool'') (\<lambda>_.
     and_then (or_panic (bm_get (s_pools s) name) ''no entry found for key'') (\<lambda>ps.
     ensure (\<not> ps_deleting ps) ''pool is being deleted''))"

definition edited_config :: "string \<Rightarrow> (pool \<Rightarrow> pool) \<Rightarrow> state \<Rightarrow> config" where
  "edited_config name f s = with_pools (s_config s) (update_named name f (cfg_pools (s_config s)))"

definition handle_scale :: "'w env \<Rightarrow> string \<Rightarrow> u32 \<Rightarrow> ('w, json) act" where
  "handle_scale E name replicas =
     bind_p (reads st) (\<lambda>s.
     bind_p (give (existing_pool s name)) (\<lambda>_.
     let nxt = edited_config name (\<lambda>p. p\<lparr>pl_replicas := replicas\<rparr>) s in
     seq_p (commit_config E nxt)
     (seq_p (mark_retiring_p name)
     (seq_p (save E)
     (ret (jobj [(''pool'', JStr name), (''replicas'', jword replicas),
        (''message'', JStr ''Capacity updated. Excess runners drain after their next job; stopped pools remain stopped.'')]))))))"

definition bump_generation :: "pool_state \<Rightarrow> pool_state" where
  "bump_generation ps = ps\<lparr>ps_generation := ps_generation ps + 1\<rparr>"

definition handle_upgrade :: "'w env \<Rightarrow> string \<Rightarrow> string \<Rightarrow> ('w, json) act" where
  "handle_upgrade E name img =
     bind_p (reads st) (\<lambda>s.
     bind_p (give (existing_pool s name)) (\<lambda>_.
     let nxt = edited_config name (\<lambda>p. p\<lparr>pl_image := img\<rparr>) s in
     bind_p (give (validate nxt)) (\<lambda>_.
     seq_p (set_st_with (update_pool name bump_generation))
     (seq_p (commit_config E nxt)
     (seq_p (mark_retiring_p name)
     (seq_p (save E)
     (ret (jobj [(''upgrading'', JStr name),
        (''message'', JStr ''Image updated. Existing runners drain after their next job; replacements use the new image.'')]))))))))"

section \<open>Start, stop and remove\<close>

definition start_pool :: "pool_state \<Rightarrow> pool_state" where
  "start_pool p = p\<lparr>ps_running := True, ps_retry_at := 0, ps_failures := 0, ps_error := None\<rparr>"

definition not_deleting :: "state \<Rightarrow> string \<Rightarrow> bool res" where
  "not_deleting s name =
     and_then (or_panic (bm_get (s_pools s) name) ''no entry found for key'') (\<lambda>ps.
     Ok (\<not> ps_deleting ps))"

fun start_pools :: "string list \<Rightarrow> state \<Rightarrow> state" where
  "start_pools [] s = s"
| "start_pools (n # ns) s = start_pools ns (update_pool n start_pool s)"

definition handle_start :: "'w env \<Rightarrow> string option \<Rightarrow> bool \<Rightarrow> ('w, json) act" where
  "handle_start E p all =
     bind_p (reads st) (\<lambda>s.
     bind_p (give (targets s p all)) (\<lambda>names.
     bind_p (give (map_res (not_deleting s) names)) (\<lambda>oks.
     seq_p (ensure_p (list_all (\<lambda>b. b) oks) ''a target pool is being deleted'')
     (seq_p (set_st_with (start_pools names))
     (seq_p clear_github
     (seq_p (save E)
     (ret (jobj [(''started'', JArr (map JStr names))]))))))))"

definition retire_force :: "bool \<Rightarrow> run \<Rightarrow> run" where
  "retire_force force r = r\<lparr>run_retiring := True, run_force := (run_force r \<or> force)\<rparr>"

definition stop_pool :: "bool \<Rightarrow> pool_state \<Rightarrow> pool_state" where
  "stop_pool force p =
     (if force then p\<lparr>ps_running := False, ps_retry_at := 0\<rparr> else p\<lparr>ps_running := False\<rparr>)"

fun stop_pools :: "bool \<Rightarrow> string list \<Rightarrow> state \<Rightarrow> state res" where
  "stop_pools force [] s = Ok s"
| "stop_pools force (n # ns) s =
     and_then (or_panic (bm_get (s_pools s) n) ''called Option::unwrap() on a None value'') (\<lambda>ps.
     stop_pools force ns (update_runs_of (ps_id ps) (retire_force force)
       (update_pool n (stop_pool force) s)))"

definition has_runs :: "state \<Rightarrow> string \<Rightarrow> bool res" where
  "has_runs s n =
     and_then (or_panic (bm_get (s_pools s) n) ''no entry found for key'') (\<lambda>ps.
     Ok (pool_runs (ps_id ps) s \<noteq> []))"

definition mode_text :: "bool \<Rightarrow> string" where
  "mode_text force = (if force then ''force'' else ''drain'')"

definition handle_stop :: "'w env \<Rightarrow> string option \<Rightarrow> bool \<Rightarrow> bool \<Rightarrow> ('w, json) act" where
  "handle_stop E p all force =
     bind_p (reads st) (\<lambda>s.
     bind_p (give (targets s p all)) (\<lambda>names.
     bind_p (give (stop_pools force names s)) (\<lambda>s'.
     seq_p (set_st s')
     (seq_p (save E)
     (bind_p (give (map_res (has_runs s') names)) (\<lambda>pending.
     ret (jobj [(''stopped'', JArr (map JStr names)), (''pending'', JBool (list_ex (\<lambda>b. b) pending)),
        (''mode'', JStr (mode_text force)),
        (''message'', JStr (if force
          then ''Termination requested; running jobs may be interrupted. Registration cleanup waits for GitHub connectivity.''
          else ''Replacements disabled. Existing idle runners can still accept one job before removal; busy jobs finish naturally. Use --wait to watch cleanup, or --force to terminate work.''))])))))))"

definition delete_pool :: "bool \<Rightarrow> pool_state \<Rightarrow> pool_state" where
  "delete_pool force p =
     (if force then p\<lparr>ps_running := False, ps_deleting := True, ps_retry_at := 0\<rparr>
      else p\<lparr>ps_running := False, ps_deleting := True\<rparr>)"

definition handle_remove :: "'w env \<Rightarrow> string \<Rightarrow> bool \<Rightarrow> ('w, json) act" where
  "handle_remove E name force =
     bind_p (reads st) (\<lambda>s.
     bind_p (give (or_error (bm_get (s_pools s) name) ''unknown pool'')) (\<lambda>ps.
     seq_p (set_st (update_runs_of (ps_id ps) (retire_force force)
        (update_pool name (delete_pool force) s)))
     (seq_p (save E)
     (ret (jobj [(''removing'', JStr name), (''pending'', JBool True), (''mode'', JStr (mode_text force)),
        (''message'', JStr (if force
          then ''Removal and termination requested; running jobs may be interrupted. Registration cleanup waits for GitHub connectivity.''
          else ''Removal requested. Idle runners can accept one final job; cleanup completes after all runners exit.''))])))))"

section \<open>Authentication profiles\<close>

definition reset_backoff :: "pool_state \<Rightarrow> pool_state" where
  "reset_backoff p = p\<lparr>ps_retry_at := 0, ps_error := None, ps_failures := 0\<rparr>"

definition uses_profile :: "config \<Rightarrow> string \<Rightarrow> string \<Rightarrow> bool" where
  "uses_profile c profile name \<longleftrightarrow>
     list_ex (\<lambda>p. pl_name p = name \<and> pl_auth p = profile) (cfg_pools c)"

definition reset_profile :: "string \<Rightarrow> state \<Rightarrow> state" where
  "reset_profile profile s = s\<lparr>s_pools :=
     map (\<lambda>e. if uses_profile (s_config s) profile (fst e) then (fst e, reset_backoff (snd e)) else e)
       (s_pools s)\<rparr>"

definition handle_auth :: "'w env \<Rightarrow> string \<Rightarrow> string \<Rightarrow> app_auth option \<Rightarrow> ('w, json) act" where
  "handle_auth E profile credential app =
     seq_p (ensure_p (valid_name profile) ''invalid profile'')
     (bind_p (reads st) (\<lambda>s.
     let nxt = (s_config s)\<lparr>cfg_auth := bm_insert profile
          \<lparr>au_credential = credential, au_app = app\<rparr> (cfg_auth (s_config s))\<rparr> in
     seq_p (commit_config E nxt)
     (seq_p (set_st_with (reset_profile profile))
     (seq_p (save E)
     (ret (jobj [(''profile'', JStr profile)]))))))"

section \<open>Applying an edited file\<close>

text \<open>The settings whose change makes a new generation of runners.\<close>

definition new_generation :: "pool \<Rightarrow> pool \<Rightarrow> bool" where
  "new_generation old new \<longleftrightarrow>
     pl_image old \<noteq> pl_image new \<or> pl_labels old \<noteq> pl_labels new
     \<or> pl_runner_group old \<noteq> pl_runner_group new
     \<or> pl_docker_socket old \<noteq> pl_docker_socket new
     \<or> pl_allow_privilege_escalation old \<noteq> pl_allow_privilege_escalation new
     \<or> \<not> option_f64_eq (pl_cpus old) (pl_cpus new)
     \<or> pl_memory old \<noteq> pl_memory new"

definition apply_pool :: "'w env \<Rightarrow> state \<Rightarrow> pool_state bmap \<Rightarrow> pool \<Rightarrow> ('w, pool_state bmap) act" where
  "apply_pool E s pools new = (case find_pool (pl_name new) (s_config s) of
       Some old \<Rightarrow>
         bind_p (give (or_panic (bm_get pools (pl_name new))
            ''called Option::unwrap() on a None value'')) (\<lambda>ps.
         seq_p (ensure_p (\<not> ps_deleting ps) ''cannot edit a deleting pool'')
         (seq_p (when_p (api_scope old \<noteq> api_scope new \<or> pl_auth old \<noteq> pl_auth new)
            (ensure_p (\<not> ps_running ps \<and> pool_runs (ps_id ps) s = [])
               ''stop and fully clean pool before changing scope/auth''))
         (ret (if new_generation old new then bm_update (pl_name new) bump_generation pools
               else pools))))
     | None \<Rightarrow> bind_p (ask (uuid E)) (\<lambda>u. ret (bm_insert (pl_name new) (default_pool_state u) pools)))"

definition handle_apply :: "'w env \<Rightarrow> string \<Rightarrow> u64 \<Rightarrow> ('w, json) act" where
  "handle_apply E text revision =
     bind_p (reads st) (\<lambda>s.
     seq_p (ensure_p (s_revision s = revision) ''stale revision; read status and retry'')
     (bind_p read_config (\<lambda>file.
     seq_p (ensure_p (file = text) ''config changed while applying; retry'')
     (bind_p (give (parse_config (from_toml E) text)) (\<lambda>nxt.
     seq_p (ensure_p (list_all (\<lambda>p. list_ex (\<lambda>n. pl_name n = pl_name p) (cfg_pools nxt))
          (cfg_pools (s_config s)))
        ''use pool remove to drain and delete pools before removing configuration'')
     (bind_p (fold_p (apply_pool E s) (s_pools s) (cfg_pools nxt)) (\<lambda>pools.
     seq_p (ensure_p (list_all (\<lambda>r. bm_contains_key (cfg_auth nxt) (pl_auth (run_pool r)))
          (bm_values (s_runs s))) ''auth profile still required for cleanup'')
     (seq_p (set_st_with (\<lambda>s. s\<lparr>s_pools := pools\<rparr>))
     (seq_p (commit_config E nxt)
     (seq_p (fold_p (\<lambda>_ name. mark_retiring_p name) () (bm_keys pools))
     (seq_p (save E)
     (bind_p (reads st) (\<lambda>s'.
     ret (jobj [(''revision'', jword (s_revision s')), (''applied'', JBool True)]))))))))))))))"

section \<open>The dispatch and the rollback\<close>

definition handle_request :: "'w env \<Rightarrow> request \<Rightarrow> ('w, json) act" where
  "handle_request E r = (case r of
       Status p \<Rightarrow> handle_status p
     | Add p \<Rightarrow> handle_add E p
     | Start p all \<Rightarrow> handle_start E p all
     | Stop p all force \<Rightarrow> handle_stop E p all force
     | Scale name replicas \<Rightarrow> handle_scale E name replicas
     | Upgrade name img \<Rightarrow> handle_upgrade E name img
     | Remove name force \<Rightarrow> handle_remove E name force
     | Auth profile credential app \<Rightarrow> handle_auth E profile credential app
     | Apply text revision \<Rightarrow> handle_apply E text revision
     | Logs _ _ \<Rightarrow> throw (Msg ''external request must use the query handler'')
     | Doctor \<Rightarrow> throw (Msg ''external request must use the query handler''))"

definition handle_inner :: "'w env \<Rightarrow> request \<Rightarrow> ('w, json) act" where
  "handle_inner E r = seq_p (when_p (changes_config r) (clean_file E)) (handle_request E r)"

definition reload :: "'w env \<Rightarrow> ('w, unit) act" where
  "reload E = bind_p (store_load E) (\<lambda>l.
     bind_p (give (or_error l ''state disappeared'')) (\<lambda>s. seq_p (set_st s) (modify publish)))"

definition bump_epoch :: "'w engine \<Rightarrow> 'w engine" where
  "bump_epoch e = e\<lparr>epoch := epoch e + 1, mutations := mutations e + 1\<rparr>"

definition handle_local :: "'w env \<Rightarrow> request \<Rightarrow> ('w, json) act" where
  "handle_local E r =
     bind_p (attempt (handle_inner E r)) (\<lambda>result.
     seq_p (when_p (is_Err result) (reload E))
     (seq_p (when_p (mutating r) (modify bump_epoch))
     (give result)))"

end
