(* ===== verification/Engine_Invariant.thy ===== *)
theory Engine_Invariant
  imports Engine
begin

text \<open>
  The control requests keep the invariant: no request panics, each one commits a well-formed
  state or rolls memory back to the stored one, and none forgets a run or withdraws a
  retirement or a forced stop.
\<close>

named_theorems step_simps \<open>definitions of the step predicates\<close>

section \<open>Steps\<close>

text \<open>
  \<open>intent_le s t\<close>: \<open>t\<close> has the runs of \<open>s\<close>, in the same pools, each at least as retired and as
  forced as in \<open>s\<close>.
\<close>

definition run_le :: "run \<Rightarrow> run \<Rightarrow> bool" where
  "run_le r r' \<longleftrightarrow> run_id r' = run_id r \<and> run_pool_id r' = run_pool_id r
     \<and> (run_retiring r \<longrightarrow> run_retiring r') \<and> (run_force r \<longrightarrow> run_force r')"

definition intent_le :: "state \<Rightarrow> state \<Rightarrow> bool" where
  "intent_le s t \<longleftrightarrow> bm_keys (s_runs t) = bm_keys (s_runs s)
     \<and> (\<forall>k r. bm_get (s_runs s) k = Some r \<longrightarrow> (\<exists>r'. bm_get (s_runs t) k = Some r' \<and> run_le r r'))"

text \<open>What no control request touches.\<close>

definition frame :: "'w engine \<Rightarrow> 'w engine \<Rightarrow> bool" where
  "frame e e' \<longleftrightarrow> epoch e' = epoch e \<and> reconcile_epoch e' = reconcile_epoch e
     \<and> serving e' = serving e \<and> issued e' = issued e \<and> cursor e' = cursor e
     \<and> boot_time e' = boot_time e \<and> mutations e' = mutations e"

definition committed :: "'w engine \<Rightarrow> 'w engine \<Rightarrow> bool" where
  "committed e e' \<longleftrightarrow> frame e e' \<and> wf_state (st e') \<and> row e' = Some (st e')
     \<and> intent_le (st e) (st e')"

definition stored_ok :: "'w engine \<Rightarrow> 'w engine \<Rightarrow> bool" where
  "stored_ok e e' \<longleftrightarrow> frame e e'
     \<and> (row e' = row e \<or> (\<exists>s. row e' = Some s \<and> wf_state s \<and> intent_le (st e) s))"

declare frame_def [step_simps]

lemma run_le_refl [simp]: "run_le r r"
  by (simp add: run_le_def)

lemma run_le_trans: "run_le a b \<Longrightarrow> run_le b c \<Longrightarrow> run_le a c"
  by (simp add: run_le_def)

lemma run_le_set_retiring [simp]: "run_le r (set_retiring r)"
  by (simp add: run_le_def)

lemma run_le_retire_force [simp]: "run_le r (retire_force f r)"
  by (simp add: run_le_def retire_force_def)

lemma run_le_retire_spec [simp]: "run_le r (retire_spec k ps s r)"
  by (simp add: run_le_def)

lemma retire_force_sel [simp]:
  "run_id (retire_force f r) = run_id r" "run_pool_id (retire_force f r) = run_pool_id r"
  "run_retiring (retire_force f r)" "run_force (retire_force f r) \<longleftrightarrow> run_force r \<or> f"
  by (simp_all add: retire_force_def)

lemma intent_le_refl [simp]: "intent_le s s"
  by (simp add: intent_le_def)

lemma intent_le_runs: "s_runs t = s_runs s \<Longrightarrow> intent_le s t"
  by (simp add: intent_le_def)

lemma intent_le_trans: "intent_le a b \<Longrightarrow> intent_le b c \<Longrightarrow> intent_le a c"
  unfolding intent_le_def by (metis run_le_trans)

lemma intent_le_update_pool [simp]: "intent_le s (update_pool n f s)"
  by (simp add: intent_le_runs update_pool_def)

lemma intent_le_update_runs_of [simp]: "intent_le s (update_runs_of i (retire_force f) s)"
  by (auto simp: intent_le_def update_runs_of_def)

lemma frame_refl [simp]: "frame e e"
  by (simp add: frame_def)

lemma frame_trans: "frame a b \<Longrightarrow> frame b c \<Longrightarrow> frame a c"
  by (simp add: frame_def)

lemma intent_leD: "intent_le s t \<Longrightarrow> bm_get (s_runs s) k = Some r \<Longrightarrow>
    \<exists>r'. bm_get (s_runs t) k = Some r' \<and> run_le r r'"
  by (simp add: intent_le_def)

section \<open>The building blocks\<close>

lemma wf_committed:
  assumes "wf_runs s" "bm_invar (s_pools s)" "well_formed_config nxt" "bm_invar (cfg_auth nxt)"
    "set (bm_keys (s_pools s)) = set (pool_names nxt)"
  shows "wf_state (committed_state E nxt text s)"
  using assms by (simp add: wf_state_def wf_runs_def committed_state_def pool_ids_def)

lemma commit_step:
  assumes "wf_runs (st e)" "bm_invar (s_pools (st e))" "bm_invar (cfg_auth nxt)"
    "set (bm_keys (s_pools (st e))) = set (pool_names nxt)"
  shows "post
    (\<lambda>_ e'. frame e e' \<and> wf_state (st e') \<and> row e' = Some (st e')
       \<and> s_runs (st e') = s_runs (st e) \<and> s_pools (st e') = s_pools (st e) \<and> s_config (st e') = nxt)
    (\<lambda>er e'. er \<noteq> ReconcileInterrupted \<and> frame e e' \<and> s_pools (st e') = s_pools (st e)
       \<and> s_runs (st e') = s_runs (st e)
       \<and> (row e' = row e \<or> (\<exists>s. row e' = Some s \<and> wf_state s \<and> s_runs s = s_runs (st e))))
    (commit_config E nxt e)"
proof -
  have wf: "well_formed_config nxt \<Longrightarrow> wf_state (committed_state E nxt t (st e))" for t
    using assms by (intro wf_committed)
  show ?thesis
    unfolding commit_config_def
    by (auto simp: post_give from_sum_def Let_def store_save_def write_config_def clear_github_def
        frame_def validate_Ok [symmetric] wf [unfolded committed_state_def]
        split: res.split sum.split option.split write_outcome.split)
qed

lemma save_step:
  "post (\<lambda>_ e'. frame e e' \<and> st e' = st e \<and> row e' = Some (st e))
     (\<lambda>_ e'. frame e e' \<and> st e' = st e \<and> row e' = row e) (save E e)"
  by (simp add: post_save frame_def split: option.split)

lemma mark_step:
  assumes "wf_state (st e)" "name \<in> set (bm_keys (s_pools (st e)))"
  shows "post (\<lambda>_ e'. frame e e' \<and> row e' = row e \<and> wf_state (st e') \<and> intent_le (st e) (st e')
       \<and> s_pools (st e') = s_pools (st e) \<and> s_config (st e') = s_config (st e))
     (\<lambda>_ _. False) (mark_retiring_p name e)"
proof -
  obtain ps where ps: "bm_get (s_pools (st e)) name = Some ps"
    using assms(2) by (auto simp: set_bm_keys)
  obtain p where p: "find_pool name (s_config (st e)) = Some p"
    using wf_pool_config [OF assms(1) ps] by blast
  from mark_retiring_spec [OF assms(1) ps p] obtain s' where
    ok: "mark_retiring name (st e) = Ok s'" and upd: "s' = (st e)\<lparr>s_runs := s_runs s'\<rparr>"
    and keys: "bm_keys (s_runs s') = bm_keys (s_runs (st e))"
    and get: "\<forall>i. bm_get (s_runs s') i
        = map_option (retire_spec (keep_count p ps) ps (st e)) (bm_get (s_runs (st e)) i)"
    by blast
  have "s_pools s' = s_pools (st e)" "s_config s' = s_config (st e)" by (subst upd, simp)+
  moreover have "intent_le (st e) s'" using keys get by (simp add: intent_le_def)
  moreover have "wf_state s'" using wf_mark_retiring [OF assms(1) ok] .
  ultimately show ?thesis by (simp add: mark_retiring_p_def post_give ok frame_def)
qed

text \<open>Committing, marking and saving: the common end of scale and upgrade.\<close>

lemma commit_mark_save:
  assumes "wf_runs (st e)" "bm_invar (s_pools (st e))" "bm_invar (cfg_auth nxt)"
    "set (bm_keys (s_pools (st e))) = set (pool_names nxt)" "name \<in> set (bm_keys (s_pools (st e)))"
  shows "post (\<lambda>_. committed e) (\<lambda>_. stored_ok e)
    (seq_p (commit_config E nxt) (seq_p (mark_retiring_p name) (seq_p (save E) (ret x))) e)"
  unfolding post_seq
proof (rule post_mono [OF commit_step [OF assms(1-4)]], goal_cases)
  case (1 u e1)
  then have e1: "wf_state (st e1)" "name \<in> set (bm_keys (s_pools (st e1)))"
    and le1: "intent_le (st e) (st e1)" and f1: "frame e e1" and r1: "row e1 = Some (st e1)"
    using assms(5) by (auto intro: intent_le_runs)
  show ?case
  proof (rule post_mono [OF mark_step [OF e1]], goal_cases)
    case (1 v e2)
    then have e2: "frame e e2" "intent_le (st e) (st e2)" "wf_state (st e2)" "row e2 = Some (st e1)"
      using f1 le1 r1 by (auto intro: frame_trans intent_le_trans)
    show ?case
      by (rule post_mono [OF save_step])
        (use e2 e1 le1 in \<open>auto simp: committed_def stored_ok_def intro: frame_trans\<close>)
  qed simp
next
  case (2 err e1)
  then show ?case by (auto simp: stored_ok_def intro: intent_le_runs)
qed

lemma update_named_names: "(\<And>p. pl_name (f p) = pl_name p) \<Longrightarrow>
    map pl_name (update_named name f ps) = map pl_name ps"
  by (induction ps) auto

lemma edited_config_names:
  assumes "\<And>p. pl_name (f p) = pl_name p"
  shows "pool_names (edited_config name f s) = pool_names (s_config s)"
  using update_named_names [of f name "cfg_pools (s_config s)", OF assms]
  by (simp add: edited_config_def with_pools_def pool_names_def)

lemma edited_config_auth [simp]: "cfg_auth (edited_config name f s) = cfg_auth (s_config s)"
  by (simp add: edited_config_def with_pools_def)

lemma existing_pool_res:
  assumes "wf_state s"
  shows "existing_pool s name \<noteq> Panic p"
    "existing_pool s name = Ok () \<Longrightarrow> name \<in> set (bm_keys (s_pools s))"
proof -
  have "\<exists>ps. bm_get (s_pools s) name = Some ps" if "find_pool name (s_config s) \<noteq> None"
    using that wf_pool_state [OF assms, of name] by (simp add: find_pool_None)
  then show "existing_pool s name \<noteq> Panic p" by (auto simp: existing_pool_def)
  show "existing_pool s name = Ok () \<Longrightarrow> name \<in> set (bm_keys (s_pools s))"
    using bm.lookup_in_keys [of "s_pools s" name] by (auto simp: existing_pool_def)
qed

lemma stored_ok_refl: "stored_ok e e"
  by (simp add: stored_ok_def)

section \<open>Each request\<close>

lemma pool_status_total:
  assumes "wf_state s" "p \<in> set (cfg_pools (s_config s))"
  shows "\<exists>j. pool_status s p = Ok j"
proof -
  have "pl_name p \<in> set (pool_names (s_config s))" using assms(2) by (simp add: pool_names_def)
  then obtain ps where "bm_get (s_pools s) (pl_name p) = Some ps"
    using wf_pool_state [OF assms(1)] by blast
  then show ?thesis by (simp add: pool_status_def Let_def)
qed

lemma map_res_total: "(\<And>x. x \<in> set xs \<Longrightarrow> \<exists>y. f x = Ok y) \<Longrightarrow> \<exists>ys. map_res f xs = Ok ys"
proof (induction xs)
  case Nil
  then show ?case by simp
next
  case (Cons x xs)
  obtain y where "f x = Ok y" using Cons.prems by force
  moreover obtain ys where "map_res f xs = Ok ys" using Cons by force
  ultimately show ?case by simp
qed

lemma status_total:
  assumes "wf_state s"
  shows "status_response s p \<noteq> Panic m"
    "p = None \<or> (\<exists>n. p = Some n \<and> bm_contains_key (s_pools s) n) \<Longrightarrow> \<exists>j. status_response s p = Ok j"
proof -
  obtain ys where "map_res (pool_status s)
      (filter (\<lambda>q. p = None \<or> p = Some (pl_name q)) (cfg_pools (s_config s))) = Ok ys"
    using map_res_total [of _ "pool_status s"] pool_status_total [OF assms] by (metis (no_types, lifting) filter_is_subset subsetD)
  then show "status_response s p \<noteq> Panic m"
    "p = None \<or> (\<exists>n. p = Some n \<and> bm_contains_key (s_pools s) n) \<Longrightarrow> \<exists>j. status_response s p = Ok j"
    by (auto simp: status_response_def ensure_def split: option.splits)
qed

lemma status_step:
  assumes "wf_state (st e)"
  shows "post (\<lambda>_ e'. e' = e) (\<lambda>_ e'. e' = e) (handle_status p e)"
  using status_total(1) [OF assms, of p]
  by (simp add: handle_status_def post_give split: res.split)

lemma add_step:
  assumes wf: "wf_state (st e)"
  shows "post (\<lambda>_. committed e) (\<lambda>_. stored_ok e) (handle_add E p e)"
proof -
  let ?nxt = "with_pools (s_config (st e)) (cfg_pools (s_config (st e)) @ [p])"
  have step: "post (\<lambda>_. committed e) (\<lambda>_. stored_ok e)
      (seq_p (commit_config E ?nxt) (ret x)
        (e\<lparr>world := w, st := (st e)\<lparr>s_pools := bm_insert (pl_name p) (default_pool_state u) (s_pools (st e))\<rparr>\<rparr>))"
    if new: "\<not> bm_contains_key (s_pools (st e)) (pl_name p)" for u w x
  proof -
    let ?e1 = "e\<lparr>world := w,
        st := (st e)\<lparr>s_pools := bm_insert (pl_name p) (default_pool_state u) (s_pools (st e))\<rparr>\<rparr>"
    have "pool_ids (st e) \<subseteq> pool_ids (st ?e1)"
    proof
      fix i assume "i \<in> pool_ids (st e)"
      then obtain n ps where n: "bm_get (s_pools (st e)) n = Some ps" "ps_id ps = i"
        using pool_ids_iff [OF wf_stateD(3) [OF wf]] by blast
      then have "n \<noteq> pl_name p" using new by (auto simp: bm_contains_key_def)
      then have "bm_get (s_pools (st ?e1)) n = Some ps" using n by simp
      then show "i \<in> pool_ids (st ?e1)"
        using n(2) wf_stateD(3) [OF wf] by (subst pool_ids_iff) (simp, blast)
    qed
    then have "wf_runs (st ?e1)" using wf by (auto simp: wf_state_def wf_runs_def)
    moreover have "bm_invar (s_pools (st ?e1))" "bm_invar (cfg_auth ?nxt)"
      "set (bm_keys (s_pools (st ?e1))) = set (pool_names ?nxt)"
      using wf by (auto simp: wf_state_def bm.keys_insert with_pools_def pool_names_def)
    ultimately show ?thesis
      unfolding post_seq
      by (rule post_mono [OF commit_step])
        (auto simp: committed_def stored_ok_def frame_def intro: intent_le_runs)
  qed
  show ?thesis
    using step by (simp add: handle_add_def post_give Let_def stored_ok_refl
        del: post_seq post_bind split: res.split)
      (auto simp: stored_ok_refl stored_ok_def frame_def post_give Let_def split: res.split)
qed

lemma scale_step:
  assumes wf: "wf_state (st e)"
  shows "post (\<lambda>_. committed e) (\<lambda>_. stored_ok e) (handle_scale E name n e)"
proof (cases "existing_pool (st e) name")
  case (Ok u)
  let ?nxt = "edited_config name (\<lambda>p. p\<lparr>pl_replicas := n\<rparr>) (st e)"
  have name: "name \<in> set (bm_keys (s_pools (st e)))" using existing_pool_res(2) [OF wf] Ok by simp
  have names: "set (bm_keys (s_pools (st e))) = set (pool_names ?nxt)"
    using wf by (simp add: edited_config_names wf_state_def)
  show ?thesis
    using commit_mark_save [where nxt = ?nxt and E = E, OF wf_stateD(5,3) [OF wf] _ names name] wf Ok
    by (simp add: handle_scale_def post_give Let_def wf_state_def)
qed (use existing_pool_res(1) [OF wf] in \<open>auto simp: handle_scale_def post_give stored_ok_refl\<close>)

lemma upgrade_step:
  assumes wf: "wf_state (st e)"
  shows "post (\<lambda>_. committed e) (\<lambda>_. stored_ok e) (handle_upgrade E name img e)"
proof (cases "existing_pool (st e) name")
  case (Ok u)
  let ?nxt = "edited_config name (\<lambda>p. p\<lparr>pl_image := img\<rparr>) (st e)"
  let ?e1 = "e\<lparr>st := update_pool name bump_generation (st e)\<rparr>"
  have wf1: "wf_state (st ?e1)"
    using wf by (auto intro: wf_update_pool simp: bump_generation_def)
  have name: "name \<in> set (bm_keys (s_pools (st ?e1)))"
    using existing_pool_res(2) [OF wf] Ok by (simp add: update_pool_def)
  have names: "set (bm_keys (s_pools (st ?e1))) = set (pool_names ?nxt)"
    using wf by (simp add: edited_config_names wf_state_def update_pool_def)
  have auth: "bm_invar (cfg_auth ?nxt)" using wf by (simp add: wf_state_def)
  have runs: "s_runs (st ?e1) = s_runs (st e)" by (simp add: update_pool_def)
  have step: "post (\<lambda>_. committed e) (\<lambda>_. stored_ok e)
      (seq_p (commit_config E ?nxt) (seq_p (mark_retiring_p name) (seq_p (save E) (ret x))) ?e1)" for x
    by (rule post_mono [OF commit_mark_save [OF wf_stateD(5,3) [OF wf1] auth names name]])
      (use runs in \<open>auto simp: committed_def stored_ok_def frame_def intent_le_def\<close>)
  show ?thesis
    using Ok step by (cases "validate ?nxt") (simp_all add: handle_upgrade_def post_give Let_def stored_ok_refl)
qed (use existing_pool_res(1) [OF wf] in \<open>auto simp: handle_upgrade_def post_give stored_ok_refl\<close>)


lemma start_pools_keeps:
  "wf_state s \<Longrightarrow> wf_state (start_pools ns s) \<and> s_runs (start_pools ns s) = s_runs s"
proof (induction ns arbitrary: s)
  case Nil
  then show ?case by simp
next
  case (Cons n ns)
  have "wf_state (update_pool n start_pool s)"
    using Cons.prems by (rule wf_update_pool) (simp add: start_pool_def)
  moreover have "s_runs (update_pool n start_pool s) = s_runs s" by (simp add: update_pool_def)
  ultimately show ?case using Cons.IH by simp
qed

lemma targets_known:
  assumes "wf_state s" "targets s p all = Ok names"
  shows "\<forall>n \<in> set names. \<exists>ps. bm_get (s_pools s) n = Some ps"
  using assms(2) bm.in_keys_lookup [of _ "s_pools s"]
  by (auto simp: targets_def bm_contains_key_def split: option.splits)

lemma targets_not_panic: "targets s p all \<noteq> Panic m"
  by (auto simp: targets_def split: option.splits)

text \<open>Saving a well-formed state that keeps every run and flag.\<close>

lemma save_committed:
  assumes "frame e e1" "wf_state (st e1)" "intent_le (st e) (st e1)" "row e1 = row e"
    "\<And>e2. st e2 = st e1 \<Longrightarrow> post (\<lambda>_ e3. e3 = e2) (\<lambda>_ _. False) (k e2)"
  shows "post (\<lambda>_. committed e) (\<lambda>_. stored_ok e) (seq_p (save E) k e1)"
  unfolding post_seq
proof (rule post_mono [OF save_step], goal_cases)
  case (1 u e2)
  then have "committed e e2" using assms(1-3) by (auto simp: committed_def intro: frame_trans)
  then show ?case
    using 1 by (intro post_mono [OF assms(5)]) auto
next
  case (2 err e2)
  then show ?case using assms by (auto simp: stored_ok_def intro: frame_trans)
qed

lemma start_step:
  assumes wf: "wf_state (st e)"
  shows "post (\<lambda>_. committed e) (\<lambda>_. stored_ok e) (handle_start E p all e)"
proof (cases "targets (st e) p all")
  case (Ok names)
  obtain oks where oks: "map_res (not_deleting (st e)) names = Ok oks"
    using map_res_total [of names "not_deleting (st e)"] targets_known [OF wf Ok]
    by (auto simp: not_deleting_def)
  have "post (\<lambda>_. committed e) (\<lambda>_. stored_ok e)
      (seq_p (save E) (ret x)
        (e\<lparr>st := start_pools names (st e), github := clear_cache (github e)\<rparr>))" for x
    using start_pools_keeps [OF wf, of names]
    by (intro save_committed) (auto simp: frame_def intro: intent_le_runs)
  then show ?thesis
    using Ok oks
    by (simp add: handle_start_def post_give stored_ok_refl clear_github_def del: post_seq)
      (simp add: stored_ok_refl)
qed (use targets_not_panic in \<open>auto simp: handle_start_def post_give stored_ok_refl\<close>)

lemma wf_retire:
  assumes "wf_state s" "\<And>ps. ps_id (f ps) = ps_id ps"
  shows "wf_state (update_runs_of i (retire_force force) (update_pool n f s))"
  using assms by (auto intro!: wf_update_runs_of wf_update_pool)

lemma intent_le_retire: "intent_le s (update_runs_of i (retire_force force) (update_pool n f s))"
  by (rule intent_le_trans [OF intent_le_update_pool intent_le_update_runs_of])

lemma stop_pool_id [simp]: "ps_id (stop_pool force p) = ps_id p"
  by (simp add: stop_pool_def)

lemma delete_pool_id [simp]: "ps_id (delete_pool force p) = ps_id p"
  by (simp add: delete_pool_def)

lemma known_after_update:
  "bm_keys (s_pools (update_runs_of i g (update_pool n f s))) = bm_keys (s_pools s)"
  by (simp add: update_pool_def update_runs_of_def)

lemma stop_pools_keeps:
  assumes "wf_state s" "\<forall>n \<in> set names. n \<in> set (bm_keys (s_pools s))"
  shows "\<exists>s'. stop_pools force names s = Ok s' \<and> wf_state s' \<and> intent_le s s'
     \<and> bm_keys (s_pools s') = bm_keys (s_pools s)"
  using assms
proof (induction names arbitrary: s)
  case Nil
  then show ?case by simp
next
  case (Cons n ns)
  obtain ps where ps: "bm_get (s_pools s) n = Some ps"
    using Cons.prems(2) bm.in_keys_lookup [of n "s_pools s"] by auto
  let ?s = "update_runs_of (ps_id ps) (retire_force force) (update_pool n (stop_pool force) s)"
  have "wf_state ?s" "intent_le s ?s" using wf_retire [OF Cons.prems(1)] intent_le_retire by simp_all
  moreover have keys: "bm_keys (s_pools ?s) = bm_keys (s_pools s)" by (rule known_after_update)
  ultimately show ?case
    using Cons.IH [of ?s] Cons.prems(2) ps by (auto intro: intent_le_trans)
qed

lemma known_keys: "\<forall>n \<in> set names. \<exists>ps. bm_get m n = Some ps \<Longrightarrow>
    \<forall>n \<in> set names. n \<in> set (bm_keys m)"
  using bm.lookup_in_keys [of m] by auto

lemma stop_step:
  assumes wf: "wf_state (st e)"
  shows "post (\<lambda>_. committed e) (\<lambda>_. stored_ok e) (handle_stop E p all force e)"
proof (cases "targets (st e) p all")
  case (Ok names)
  obtain s' where s': "stop_pools force names (st e) = Ok s'" "wf_state s'" "intent_le (st e) s'"
      "bm_keys (s_pools s') = bm_keys (s_pools (st e))"
    using stop_pools_keeps [OF wf known_keys [OF targets_known [OF wf Ok]]] by blast
  have "\<forall>n \<in> set names. \<exists>ps. bm_get (s_pools s') n = Some ps"
    using s'(4) known_keys [OF targets_known [OF wf Ok]] bm.in_keys_lookup [of _ "s_pools s'"] by auto
  then obtain bs where bs: "map_res (has_runs s') names = Ok bs"
    using map_res_total [of names "has_runs s'"] by (auto simp: has_runs_def)
  have "post (\<lambda>_. committed e) (\<lambda>_. stored_ok e) (seq_p (save E)
      (bind_p (give (map_res (has_runs s') names)) (\<lambda>x. ret (f x))) (e\<lparr>st := s'\<rparr>))" for f
    using s' bs by (intro save_committed) (auto simp: frame_def post_give)
  then show ?thesis
    using Ok s'(1) by (simp add: handle_stop_def post_give stored_ok_refl del: post_seq)
      (simp add: stored_ok_refl)
qed (use targets_not_panic in \<open>auto simp: handle_stop_def post_give stored_ok_refl\<close>)

lemma remove_step:
  assumes wf: "wf_state (st e)"
  shows "post (\<lambda>_. committed e) (\<lambda>_. stored_ok e) (handle_remove E name force e)"
proof (cases "bm_get (s_pools (st e)) name")
  case None
  then show ?thesis by (simp add: handle_remove_def post_give stored_ok_refl)
next
  case (Some ps)
  let ?s = "update_runs_of (ps_id ps) (retire_force force) (update_pool name (delete_pool force) (st e))"
  have "post (\<lambda>_. committed e) (\<lambda>_. stored_ok e) (seq_p (save E) (ret x) (e\<lparr>st := ?s\<rparr>))" for x
    using wf_retire [OF wf] intent_le_retire by (intro save_committed) (auto simp: frame_def)
  then show ?thesis
    using Some by (cases force) (simp_all add: handle_remove_def post_give mode_text_def del: post_if)
qed

lemma committed_trans: "committed e e1 \<Longrightarrow> committed e1 e2 \<Longrightarrow> committed e e2"
  by (auto simp: committed_def intro: frame_trans intent_le_trans)

lemma stored_ok_trans: "committed e e1 \<Longrightarrow> stored_ok e1 e2 \<Longrightarrow> stored_ok e e2"
  by (auto simp: committed_def stored_ok_def intro: frame_trans intent_le_trans)

lemma reset_profile_ids: "pool_ids (reset_profile profile s) = pool_ids s"
  by (auto simp: pool_ids_def reset_profile_def bm_values_def reset_backoff_def image_image
      intro!: image_cong)

lemma reset_profile_keeps:
  assumes "wf_state s"
  shows "wf_state (reset_profile profile s)"
proof -
  have keys: "bm_keys (s_pools (reset_profile profile s)) = bm_keys (s_pools s)"
    by (simp add: reset_profile_def bm_keys_def comp_def if_distrib cong: if_cong)
  have "bm_invar (s_pools (reset_profile profile s)) = bm_invar (s_pools s)"
    using keys by (simp add: bm_invar_def bm_keys_def)
  moreover have "s_config (reset_profile profile s) = s_config s"
    "s_runs (reset_profile profile s) = s_runs s"
    "s_manager_id (reset_profile profile s) = s_manager_id s"
    by (simp_all add: reset_profile_def)
  ultimately show ?thesis
    using assms keys by (simp add: wf_state_def wf_runs_def reset_profile_ids)
qed

lemma auth_step:
  assumes wf: "wf_state (st e)"
  shows "post (\<lambda>_. committed e) (\<lambda>_. stored_ok e) (handle_auth E profile cred app e)"
proof -
  let ?nxt = "(s_config (st e))\<lparr>cfg_auth := bm_insert profile
      \<lparr>au_credential = cred, au_app = app\<rparr> (cfg_auth (s_config (st e)))\<rparr>"
  have "post (\<lambda>_. committed e) (\<lambda>_. stored_ok e) (seq_p (commit_config E ?nxt)
      (seq_p (set_st_with (reset_profile profile)) (seq_p (save E) (ret x))) e)" for x
    unfolding post_seq [of _ _ "commit_config E ?nxt"]
  proof (rule post_mono [OF commit_step], goal_cases)
    case (5 u e1)
    then have e1: "committed e e1" by (auto simp: committed_def intro: intent_le_runs)
    have "post (\<lambda>_. committed e1) (\<lambda>_. stored_ok e1) (seq_p (save E) (ret x)
        (e1\<lparr>st := reset_profile profile (st e1)\<rparr>))"
      using 5 reset_profile_keeps [of "st e1" profile]
      by (intro save_committed) (auto simp: frame_def reset_profile_def intro: intent_le_runs)
    then show ?case
      unfolding post_seq [of _ _ "set_st_with f" for f] post_set_st_with
      by (rule post_mono) (auto intro: committed_trans [OF e1] stored_ok_trans [OF e1])
  next
    case (6 err e1)
    then show ?case by (auto simp: stored_ok_def intro: intent_le_runs)
  qed (use wf in \<open>auto simp: wf_state_def pool_names_def\<close>)
  then show ?thesis by (simp add: handle_auth_def Let_def stored_ok_refl)
qed

subsection \<open>Apply\<close>

text \<open>Only the world changed.\<close>

definition same :: "'w engine \<Rightarrow> 'w engine \<Rightarrow> bool" where
  "same e e' \<longleftrightarrow> e' = e\<lparr>world := world e'\<rparr>"

lemma same_refl [simp]: "same e e"
  by (simp add: same_def)

lemma same_trans: "same a b \<Longrightarrow> same b c \<Longrightarrow> same a c"
  by (cases a; cases b; cases c) (simp add: same_def)

lemma same_world [simp]: "same e (e\<lparr>world := w\<rparr>)"
  by (simp add: same_def)

lemma sameD: "same e e' \<Longrightarrow> st e' = st e \<and> row e' = row e \<and> frame e e'"
  by (cases e; cases e') (simp add: same_def frame_def)

lemma stored_ok_same: "same e e' \<Longrightarrow> stored_ok e e'"
  by (simp add: stored_ok_def sameD)

text \<open>The pools built so far hold every old pool under its old identifier.\<close>

definition extends :: "pool_state bmap \<Rightarrow> pool_state bmap \<Rightarrow> bool" where
  "extends old pools \<longleftrightarrow> bm_invar pools
     \<and> (\<forall>n ps. bm_get old n = Some ps \<longrightarrow> (\<exists>ps'. bm_get pools n = Some ps' \<and> ps_id ps' = ps_id ps))"

lemma wf_runs_extends:
  assumes wf: "wf_state s" and ext: "extends (s_pools s) pools"
  shows "wf_runs (s\<lparr>s_pools := pools\<rparr>)"
proof -
  have "pool_ids s \<subseteq> pool_ids (s\<lparr>s_pools := pools\<rparr>)"
  proof
    fix i assume "i \<in> pool_ids s"
    then obtain n ps where "bm_get (s_pools s) n = Some ps" "ps_id ps = i"
      using pool_ids_iff [OF wf_stateD(3) [OF wf]] by blast
    then obtain ps' where "bm_get pools n = Some ps'" "ps_id ps' = i"
      using ext by (auto simp: extends_def)
    then show "i \<in> pool_ids (s\<lparr>s_pools := pools\<rparr>)" using ext by (subst pool_ids_iff) (auto simp: extends_def)
  qed
  then show ?thesis using wf by (auto simp: wf_state_def wf_runs_def)
qed

lemma apply_pool_step:
  assumes wf: "wf_state s" and ext: "extends (s_pools s) pools"
  shows "post (\<lambda>pools' e'. same e e' \<and> extends (s_pools s) pools'
      \<and> set (bm_keys pools') = insert (pl_name p) (set (bm_keys pools)))
    (\<lambda>_ e'. same e e') (apply_pool E s pools p e)"
proof (cases "find_pool (pl_name p) (s_config s)")
  case None
  then have "bm_get (s_pools s) (pl_name p) = None"
    using wf bm.not_in_keys [of "pl_name p" "s_pools s"] by (simp add: find_pool_None wf_state_def)
  then have "extends (s_pools s) (bm_insert (pl_name p) (default_pool_state u) pools)" for u
    using ext by (auto simp: extends_def)
  then show ?thesis using None by (simp add: apply_pool_def set_keys_insert)
next
  case (Some old)
  then have "pl_name p \<in> set (pool_names (s_config s))"
    using find_pool_None [of "pl_name p" "s_config s"] by fastforce
  then obtain ps0 where "bm_get (s_pools s) (pl_name p) = Some ps0"
    using wf_pool_state [OF wf] by blast
  then obtain ps where ps: "bm_get pools (pl_name p) = Some ps" using ext by (auto simp: extends_def)
  then have "insert (pl_name p) (set (bm_keys pools)) = set (bm_keys pools)"
    using bm.lookup_in_keys [of pools "pl_name p" ps] by auto
  moreover have "extends (s_pools s) (bm_update (pl_name p) bump_generation pools)"
    using ext by (fastforce simp: extends_def bump_generation_def)
  ultimately show ?thesis using Some ps ext by (auto simp: apply_pool_def post_give)
qed

lemma apply_pools_step:
  assumes wf: "wf_state s" and "extends (s_pools s) pools"
  shows "post (\<lambda>pools' e'. same e e' \<and> extends (s_pools s) pools'
      \<and> set (bm_keys pools') = set (bm_keys pools) \<union> pl_name ` set ps)
    (\<lambda>_ e'. same e e') (fold_p (apply_pool E s) pools ps e)"
  using assms(2)
proof (induction ps arbitrary: pools e)
  case Nil
  then show ?case by simp
next
  case (Cons p ps)
  show ?case
    unfolding fold_p.simps post_bind
  proof (rule post_mono [OF apply_pool_step [OF wf Cons.prems]], goal_cases)
    case (1 pools1 e1)
    then show ?case
      by (intro post_mono [OF Cons.IH [of pools1 e1]]) (auto intro: same_trans)
  qed simp
qed

text \<open>Retiring in every pool.\<close>

lemma mark_all_step:
  assumes "wf_state (st e)" "set names \<subseteq> set (bm_keys (s_pools (st e)))"
  shows "post (\<lambda>_ e'. frame e e' \<and> row e' = row e \<and> wf_state (st e') \<and> intent_le (st e) (st e'))
     (\<lambda>_ _. False) (fold_p (\<lambda>_ name. mark_retiring_p name) u names e)"
  using assms
proof (induction names arbitrary: e u)
  case Nil
  then show ?case by simp
next
  case (Cons n ns)
  show ?case
    unfolding fold_p.simps post_bind
  proof (rule post_mono [OF mark_step], goal_cases)
    case (3 v e1)
    then have "set ns \<subseteq> set (bm_keys (s_pools (st e1)))" using Cons.prems by auto
    then show ?case
      using 3 by (intro post_mono [OF Cons.IH]) (auto intro: frame_trans intent_le_trans)
  qed (use Cons.prems in auto)
qed

lemma post_read_config: "post Q R (read_config e) =
    (case config_file e of Inl err \<Rightarrow> R (Msg err) e | Inr file \<Rightarrow> Q file e)"
  by (simp add: read_config_def post_give from_sum_def split: sum.split)

lemmas simple_binds =
  post_bind [of _ _ "reads f" for f] post_bind [of _ _ "give r" for r]
  post_bind [of _ _ read_config] post_seq [of _ _ "ensure_p b m" for b m]

lemma apply_step:
  assumes wf: "wf_state (st e)"
  shows "post (\<lambda>_. committed e) (\<lambda>_. stored_ok e) (handle_apply E txt revision e)"
proof -
  have finish: "post (\<lambda>_. committed e) (\<lambda>_. stored_ok e)
      (seq_p (set_st_with (\<lambda>s. s\<lparr>s_pools := pools\<rparr>))
        (seq_p (commit_config E nxt)
          (seq_p (fold_p (\<lambda>_ name. mark_retiring_p name) () (bm_keys pools))
            (seq_p (save E) (bind_p (reads st) (\<lambda>s. ret (f s)))))) e0)"
    if same: "same e e0" and ext: "extends (s_pools (st e)) pools"
      and keys: "set (bm_keys pools) = set (pool_names nxt)" and auth: "bm_invar (cfg_auth nxt)"
    for nxt pools e0 f
  proof -
    let ?e1 = "e0\<lparr>st := (st e0)\<lparr>s_pools := pools\<rparr>\<rparr>"
    have e1: "frame e ?e1" "row ?e1 = row e" "s_runs (st ?e1) = s_runs (st e)"
      using sameD [OF same] by (simp_all add: frame_def)
    have runs: "wf_runs (st ?e1)" using wf_runs_extends [OF wf ext] sameD [OF same] by simp
    have inv: "bm_invar (s_pools (st ?e1))" "set (bm_keys (s_pools (st ?e1))) = set (pool_names nxt)"
      using ext keys by (simp_all add: extends_def)
    show ?thesis
      unfolding post_seq [of _ _ "set_st_with g" for g] post_set_st_with
        post_seq [of _ _ "commit_config E nxt"]
    proof (rule post_mono [OF commit_step [OF runs inv(1) auth inv(2)]], goal_cases)
      case (1 u e2)
      then have e2: "committed e e2" using e1
        by (auto simp: committed_def intro: frame_trans intent_le_runs)
      have names: "set (bm_keys pools) \<subseteq> set (bm_keys (s_pools (st e2)))" using 1 by simp
      have wf2: "wf_state (st e2)" using 1 by simp
      have "post (\<lambda>_. committed e2) (\<lambda>_. stored_ok e2)
        (seq_p (fold_p (\<lambda>_ name. mark_retiring_p name) () (bm_keys pools))
            (seq_p (save E) (bind_p (reads st) (\<lambda>s. ret (f s)))) e2)"
        unfolding post_seq [of _ _ "fold_p g a xs" for g a xs]
      proof (rule post_mono [OF mark_all_step [OF wf2 names]], goal_cases)
        case (1 v e3)
        then show ?case by (intro save_committed) auto
      qed simp
      then show ?case
        by (rule post_mono) (auto intro: committed_trans [OF e2] stored_ok_trans [OF e2])
    next
      case (2 err e2)
      then show ?case using e1 by (auto simp: stored_ok_def intro: frame_trans intent_le_runs)
    qed
  qed
  have body: "post (\<lambda>_. committed e) (\<lambda>_. stored_ok e)
     (bind_p (fold_p (apply_pool E (st e)) (s_pools (st e)) (cfg_pools nxt)) (\<lambda>pools.
       seq_p (ensure_p ok m)
        (seq_p (set_st_with (\<lambda>s. s\<lparr>s_pools := pools\<rparr>))
        (seq_p (commit_config E nxt)
          (seq_p (fold_p (\<lambda>_ name. mark_retiring_p name) () (bm_keys pools))
            (seq_p (save E) (bind_p (reads st) (\<lambda>s. ret (f s)))))))) e)"
    if all: "list_all (\<lambda>p. list_ex (\<lambda>n. pl_name n = pl_name p) (cfg_pools nxt)) (cfg_pools (s_config (st e)))"
      and auth: "bm_invar (cfg_auth nxt)" for nxt ok m f
  proof -
    have sub: "set (bm_keys (s_pools (st e))) \<subseteq> pl_name ` set (cfg_pools nxt)"
    proof -
      have "pl_name p \<in> pl_name ` set (cfg_pools nxt)" if "p \<in> set (cfg_pools (s_config (st e)))" for p
        using all that by (auto simp: list_all_iff list_ex_iff image_iff) metis
      then show ?thesis unfolding wf_stateD(4) [OF wf] by (auto simp: pool_names_def)
    qed
    have ext: "extends (s_pools (st e)) (s_pools (st e))"
      using wf_stateD(3) [OF wf] by (simp add: extends_def)
    show ?thesis
      unfolding post_bind [of _ _ "fold_p g a xs" for g a xs]
    proof (rule post_mono [OF apply_pools_step [OF wf ext]], goal_cases)
      case (1 pools e1)
      have eq: "set (bm_keys pools) = set (pool_names nxt)"
        using 1 sub by (auto simp: pool_names_def)
      show ?case
        unfolding post_seq [of _ _ "ensure_p b m" for b m] post_ensure
        by (cases ok) (simp_all only: if_True if_False stored_ok_same
            finish [OF conjunct1 [OF 1] conjunct1 [OF conjunct2 [OF 1]] eq auth] conjunct1 [OF 1])
    next
      case (2 err e1)
      then show ?case by (rule stored_ok_same)
    qed
  qed
  show ?thesis
  proof (cases "parse_config (from_toml E) txt")
    case (Ok nxt)
    then have "bm_invar (cfg_auth nxt)" by (rule parse_config_ordered)
    with Ok show ?thesis
      by (simp add: handle_apply_def post_read_config post_give stored_ok_refl simple_binds
          del: post_bind post_seq split: sum.split) (intro impI, rule body; assumption)
  qed (auto simp: handle_apply_def post_read_config post_give stored_ok_refl split: sum.split)
qed

section \<open>The dispatch\<close>

text \<open>
  Every request, with its guard: a status query changes nothing, every other request commits or
  leaves the store as it was or with a well-formed state.
\<close>

lemma handle_request_step:
  assumes "wf_state (st e)"
  shows "post (\<lambda>_ e'. if mutating r then committed e e' else e' = e) (\<lambda>_. stored_ok e)
    (handle_request E r e)"
proof (cases r)
  case (Status p)
  show ?thesis
    using status_step [OF assms, of p] Status
    by (simp add: handle_request_def) (erule post_mono; simp add: stored_ok_refl)
qed (use assms in \<open>simp_all add: handle_request_def add_step scale_step upgrade_step start_step
    stop_step remove_step auth_step apply_step stored_ok_refl\<close>)

lemma handle_inner_step:
  assumes "wf_state (st e)"
  shows "post (\<lambda>_ e'. if mutating r then committed e e' else e' = e) (\<lambda>_. stored_ok e)
    (handle_inner E r e)"
  using handle_request_step [OF assms]
  by (cases "changes_config r")
    (auto simp: handle_inner_def post_clean_file stored_ok_refl split: sum.split split del: if_split
      cong: if_cong)

section \<open>The engine's invariant\<close>

text \<open>
  What a restart of the manager must find again: everything but the observations, which the next
  reconciliation makes anew.
\<close>

definition durable_pool :: "pool_state \<Rightarrow> pool_state" where
  "durable_pool p = p\<lparr>ps_failures := 0, ps_retry_at := 0, ps_retry_scope := Observation,
     ps_error := None, ps_observed_at := 0\<rparr>"

definition durable_run :: "run \<Rightarrow> run" where
  "durable_run r = r\<lparr>run_phase := [], run_remote_id := None, run_completed_job := False,
     run_log_saved := False\<rparr>"

definition durable :: "state \<Rightarrow> state" where
  "durable s = s\<lparr>s_pools := map (\<lambda>(n, p). (n, durable_pool p)) (s_pools s),
     s_runs := map (\<lambda>(n, r). (n, durable_run r)) (s_runs s)\<rparr>"

text \<open>
  Between requests memory is well formed, the store holds a well-formed state, and the two agree
  on everything durable.
\<close>

definition wf_engine :: "'w engine \<Rightarrow> bool" where
  "wf_engine e \<longleftrightarrow> wf_state (st e)
     \<and> (\<exists>s. row e = Some s \<and> wf_state s \<and> durable s = durable (st e))"

text \<open>The store can be read.\<close>

definition reads_ok :: "'w env \<Rightarrow> bool" where
  "reads_ok E \<longleftrightarrow> (\<forall>w. fst (sql_load E w) = None)"

lemma durable_run_sel [simp]:
  "run_id (durable_run r) = run_id r" "run_pool_id (durable_run r) = run_pool_id r"
  "run_retiring (durable_run r) = run_retiring r" "run_force (durable_run r) = run_force r"
  "run_pool (durable_run r) = run_pool r" "run_generation (durable_run r) = run_generation r"
  "run_created_at (durable_run r) = run_created_at r"
  by (simp_all add: durable_run_def)

lemma durable_pool_sel [simp]:
  "ps_id (durable_pool p) = ps_id p" "ps_running (durable_pool p) = ps_running p"
  "ps_deleting (durable_pool p) = ps_deleting p" "ps_generation (durable_pool p) = ps_generation p"
  by (simp_all add: durable_pool_def)

lemma durable_sel [simp]:
  "s_config (durable s) = s_config s" "s_manager_id (durable s) = s_manager_id s"
  "s_revision (durable s) = s_revision s" "s_file_hash (durable s) = s_file_hash s"
  by (simp_all add: durable_def)

lemma durable_keys [simp]:
  "bm_keys (s_runs (durable s)) = bm_keys (s_runs s)"
  "bm_keys (s_pools (durable s)) = bm_keys (s_pools s)"
  by (simp_all add: durable_def bm_keys_def comp_def case_prod_beta)

lemma durable_get [simp]:
  "bm_get (s_runs (durable s)) k = map_option durable_run (bm_get (s_runs s) k)"
  "bm_get (s_pools (durable s)) n = map_option durable_pool (bm_get (s_pools s) n)"
  by (simp_all add: durable_def map_of_map)

lemma durable_run_le: "durable_run r = durable_run r' \<Longrightarrow> run_le r r'"
  by (metis durable_run_sel(1-4) run_le_def)

lemma durable_intent_le:
  assumes "durable s = durable t"
  shows "intent_le s t"
proof -
  have "bm_keys (s_runs t) = bm_keys (s_runs s)" using assms by (metis durable_keys(1))
  moreover have "\<exists>r'. bm_get (s_runs t) k = Some r' \<and> run_le r r'"
    if "bm_get (s_runs s) k = Some r" for k r
  proof -
    have "map_option durable_run (bm_get (s_runs t) k) = Some (durable_run r)"
      using that assms durable_get(1) [of s k] durable_get(1) [of t k] by simp
    then show ?thesis using durable_run_le by (metis map_option_eq_Some)
  qed
  ultimately show ?thesis by (simp add: intent_le_def)
qed

lemma reload_step:
  assumes "reads_ok E" "row e = Some s"
  shows "post (\<lambda>_ e'. frame e e' \<and> row e' = Some s \<and> st e' = s) (\<lambda>_ _. False) (reload E e)"
  using assms by (simp add: reload_def store_load_def reads_ok_def post_give frame_def)

text \<open>What a request leaves behind, whether it succeeds or fails.\<close>

definition handled :: "request \<Rightarrow> 'w engine \<Rightarrow> 'w engine \<Rightarrow> bool" where
  "handled r e e' \<longleftrightarrow> wf_engine e' \<and> intent_le (st e) (st e')
     \<and> epoch e' = (if mutating r then epoch e + 1 else epoch e)
     \<and> mutations e' = (if mutating r then mutations e + 1 else mutations e)
     \<and> reconcile_epoch e' = reconcile_epoch e \<and> serving e' = serving e \<and> issued e' = issued e
     \<and> cursor e' = cursor e \<and> boot_time e' = boot_time e
     \<and> (\<not> mutating r \<longrightarrow> durable (st e') = durable (st e) \<and> row e' = row e)"

lemma stored_ok_reload:
  assumes "wf_engine e" "stored_ok e e1"
  shows "\<exists>s. row e1 = Some s \<and> wf_state s \<and> intent_le (st e) s"
  using assms durable_intent_le by (auto simp: wf_engine_def stored_ok_def)

lemma status_fails:
  assumes "wf_state (st e)" "\<not> mutating r"
  shows "post (\<lambda>_ e'. e' = e) (\<lambda>_ e'. e' = e) (handle_inner E r e)"
  using assms status_step by (cases r) (auto simp: handle_inner_def handle_request_def)

lemma handle_local_step:
  assumes wf: "wf_engine e" and reads: "reads_ok E"
  shows "post (\<lambda>_ e'. handled r e e' \<and> (mutating r \<longrightarrow> row e' = Some (st e')))
    (\<lambda>_ e'. handled r e e' \<and> row e' = Some (st e')) (handle_local E r e)"
proof -
  have wfs: "wf_state (st e)" using wf by (simp add: wf_engine_def)
  have inner: "post (\<lambda>_ e'. if mutating r then committed e e' else e' = e)
      (\<lambda>_ e'. stored_ok e e' \<and> (\<not> mutating r \<longrightarrow> e' = e)) (handle_inner E r e)"
    using handle_inner_step [OF wfs, of r E] status_fails [OF wfs, of r E]
    by (cases "handle_inner E r e" rule: outcome_cases) auto
  have step: "post (\<lambda>_ e'. handled r e e' \<and> (mutating r \<longrightarrow> row e' = Some (st e')))
      (\<lambda>_ e'. handled r e e' \<and> row e' = Some (st e'))
      (seq_p (when_p (is_Err res) (reload E))
        (seq_p (when_p (mutating r) (modify bump_epoch)) (give res)) e1)"
    if "case res of Ok x \<Rightarrow> (if mutating r then committed e e1 else e1 = e)
      | Err _ \<Rightarrow> stored_ok e e1 \<and> (\<not> mutating r \<longrightarrow> e1 = e) | Panic _ \<Rightarrow> False" for res e1
  proof (cases res)
    case (Ok x)
    then show ?thesis
      using that wf by (auto simp: post_give handled_def committed_def frame_def wf_engine_def bump_epoch_def)
  next
    case (Err err)
    then have e1: "stored_ok e e1" "\<not> mutating r \<longrightarrow> e1 = e" using that by auto
    obtain s where s: "row e1 = Some s" "wf_state s" "intent_le (st e) s"
      using stored_ok_reload [OF wf e1(1)] by blast
    have same: "\<not> mutating r \<Longrightarrow> durable s = durable (st e)"
      using e1(2) s(1) wf by (auto simp: wf_engine_def)
    have f: "frame e e1" using e1(1) by (simp add: stored_ok_def)
    have "post (\<lambda>_ e2. frame e1 e2 \<and> row e2 = Some s \<and> st e2 = s) (\<lambda>_ _. False) (reload E e1)"
      by (rule reload_step [OF reads s(1)])
    then show ?thesis
      unfolding Err is_Err.simps post_seq post_when if_True
      by (rule post_mono)
        (use f s e1(2) same in \<open>auto simp: post_give handled_def frame_def wf_engine_def bump_epoch_def\<close>)
  next
    case (Panic m)
    then show ?thesis using that by simp
  qed
  show ?thesis
    unfolding handle_local_def post_bind post_attempt
    by (rule post_mono [OF inner]; rule step) (auto simp del: if_split split: if_split_asm)
qed

end
