(* ===== verification/External.thy ===== *)
theory External
  imports Engine_Invariant
begin

text \<open>
  Awaiting: while an external operation is in flight the manager answers control requests
  (\<open>Engine::external\<close> of src/manager.rs), and a request that changes anything makes the
  reconciliation that awaits start over. The interface \<open>stable\<close> says what an invariant must
  withstand to hold at every await point, whoever awaits.
\<close>

section \<open>Events at an await point\<close>

definition run_event :: "'w env \<Rightarrow> event \<Rightarrow> ('w, unit) act" where
  "run_event E ev = (case ev of
      Command r \<Rightarrow> bind_p (reads serving) (\<lambda>b.
        when_p b (seq_p (attempt (handle_local E r)) (ret ())))
    | Edit f \<Rightarrow> modify (\<lambda>e. e\<lparr>config_file := f\<rparr>))"

definition events :: "'w env \<Rightarrow> ('w, unit) act" where
  "events E = bind_p (ask (arrivals E)) (\<lambda>evs. fold_p (\<lambda>_ ev. run_event E ev) () evs)"

text \<open>An external call \<open>c\<close> with effect \<open>f\<close>, awaited.\<close>

definition await :: "'w env \<Rightarrow> call \<Rightarrow> ('w \<Rightarrow> 'a \<times> 'w) \<Rightarrow> ('w, 'a) act" where
  "await E c f = seq_p (modify (\<lambda>e. e\<lparr>issued := issued e @ [c]\<rparr>))
     (bind_p (ask f) (\<lambda>x. seq_p (events E) (ret x)))"

definition interrupted :: "'w engine \<Rightarrow> bool" where
  "interrupted e \<longleftrightarrow> (case reconcile_epoch e of None \<Rightarrow> False | Some ep \<Rightarrow> ep \<noteq> epoch e)"

definition check_epoch :: "('w, unit) act" where
  "check_epoch = bind_p (reads interrupted) (\<lambda>b. if b then throw ReconcileInterrupted else ret ())"

definition external :: "('w, 'a) act \<Rightarrow> ('w, 'a) act" where
  "external m = seq_p check_epoch (bind_p (attempt m) (\<lambda>r. seq_p check_epoch (give r)))"

text \<open>What withstands every request and every edit of the file withstands all that can arrive.\<close>

lemma events_keep:
  assumes handle: "\<And>r. keeps I W (handle_local E r)"
    and edit: "\<And>e f. I e \<Longrightarrow> I (e\<lparr>config_file := f\<rparr>)"
    and passing: "\<And>e w. I e \<Longrightarrow> I (e\<lparr>world := w\<rparr>)"
  shows "keeps I W (events E)"
proof -
  have "keeps I W (run_event E ev)" for ev
    unfolding run_event_def by (cases ev) (auto intro!: keeps_intros handle edit)
  then show ?thesis
    unfolding events_def by (intro keeps_intros keeps_ask_world passing)
qed

section \<open>Invariants at await points\<close>

text \<open>
  \<open>I\<close> withstands whatever arrives at an await point (a request may panic only under \<open>W\<close>), the
  passing of the world, and the calls that \<open>ok\<close> allows.
\<close>

locale awaiting =
  fixes E :: "'w env" and I W :: "'w engine \<Rightarrow> bool" and ok :: "call \<Rightarrow> bool"
  assumes arriving: "keeps I W (events E)"
    and passing: "I e \<Longrightarrow> I (e\<lparr>world := w\<rparr>)"
    and calling: "I e \<Longrightarrow> ok c \<Longrightarrow> I (e\<lparr>issued := issued e @ [c]\<rparr>)"
begin

lemma keeps_ask [keeps_intros]: "keeps I W (ask f)"
  by (rule keeps_post) (simp add: passing)

lemma keeps_perform [keeps_intros]: "keeps I W (perform f)"
  unfolding perform_def by (intro keeps_intros)

lemma keeps_events [keeps_intros]: "keeps I W (events E)"
  by (rule arriving)

lemma keeps_await [keeps_intros]: "ok c \<Longrightarrow> keeps I W (await E c f)"
  unfolding await_def by (intro keeps_intros calling)

lemma keeps_check: "keeps I W check_epoch"
  unfolding check_epoch_def by (intro keeps_intros)

lemma keeps_external [keeps_intros]:
  assumes "keeps I W m"
  shows "keeps I W (external m)"
  unfolding keeps_def
proof (intro allI impI)
  fix s assume "I s"
  with assms have m: "case m s of (Ok _, t) \<Rightarrow> I t | (Err _, t) \<Rightarrow> I t | (Panic _, t) \<Rightarrow> W t"
    by (simp add: keeps_def)
  then show "case external m s of (Ok _, t) \<Rightarrow> I t | (Err _, t) \<Rightarrow> I t | (Panic _, t) \<Rightarrow> W t"
    using \<open>I s\<close>
    by (cases "m s" rule: outcome_cases)
      (auto simp: external_def check_epoch_def bind_p_def seq_p_def reads_def throw_def ret_def
        attempt_def give_def)
qed

end

text \<open>An invariant that withstands changes of the GitHub cache as well.\<close>

locale stable = awaiting +
  assumes cache: "I e \<Longrightarrow> I (e\<lparr>github := ca\<rparr>)"
begin

lemma keeps_cache [keeps_intros]: "keeps I W (modify (\<lambda>e. e\<lparr>github := g e\<rparr>))"
  by (intro keeps_intros cache)

end

section \<open>Bookkeeping\<close>

text \<open>
  A predicate of the counters and the log of calls alone: it withstands every change of memory, of
  the store and of the cache, so every program that makes no call keeps it.
\<close>

locale memory_blind =
  fixes E :: "'w env" and I W :: "'w engine \<Rightarrow> bool"
  assumes panics: "I e \<Longrightarrow> W e"
    and memory: "I e \<Longrightarrow> I (e\<lparr>st := s\<rparr>)"
    and stored: "I e \<Longrightarrow> I (e\<lparr>row := l\<rparr>)"
    and edited: "I e \<Longrightarrow> I (e\<lparr>config_file := f\<rparr>)"
    and cached: "I e \<Longrightarrow> I (e\<lparr>github := ca\<rparr>)"
    and booted: "I e \<Longrightarrow> I (e\<lparr>boot_time := b\<rparr>)"
    and watched: "I e \<Longrightarrow> I (e\<lparr>snapshots := sn\<rparr>)"
    and started: "I e \<Longrightarrow> I (e\<lparr>reconcile_epoch := re\<rparr>)"
    and passed: "I e \<Longrightarrow> I (e\<lparr>world := w\<rparr>)"
begin

lemma any_give [keeps_intros]: "keeps I W (give r)"
  by (cases r) (simp_all add: keeps_def give_def panics)

lemma any_ask [keeps_intros]: "keeps I W (ask f)"
  by (rule keeps_post) (simp add: passed)

lemma any_perform [keeps_intros]: "keeps I W (perform f)"
  unfolding perform_def by (intro keeps_intros)

lemma any_set [keeps_intros]: "keeps I W (set_st s)"
  unfolding set_st_def by (intro keeps_intros memory)

lemma any_set_with [keeps_intros]: "keeps I W (set_st_with f)"
  unfolding set_st_with_def by (intro keeps_intros memory)

lemma any_publish [keeps_intros]: "keeps I W (modify publish)"
  by (rule keeps_modify) (simp add: publish_def watched split: option.split)

lemma any_store_save [keeps_intros]: "keeps I W (store_save E s)"
  unfolding store_save_def by (intro keeps_intros stored)

lemma any_save [keeps_intros]: "keeps I W (save E)"
  unfolding save_def by (intro keeps_intros)

lemma any_read_config [keeps_intros]: "keeps I W read_config"
  unfolding read_config_def by (intro keeps_intros)

lemma any_clean_file [keeps_intros]: "keeps I W (clean_file E)"
  unfolding clean_file_def by (intro keeps_intros)

lemma any_write_config [keeps_intros]: "keeps I W (write_config E t)"
  unfolding write_config_def
  by (intro keeps_intros, rule keeps_post) (auto simp: edited split: write_outcome.split)

lemma any_clear [keeps_intros]: "keeps I W clear_github"
  unfolding clear_github_def by (intro keeps_intros cached)

lemma any_commit [keeps_intros]: "keeps I W (commit_config E nxt)"
  unfolding commit_config_def Let_def by (intro keeps_intros)

lemma any_mark [keeps_intros]: "keeps I W (mark_retiring_p name)"
  unfolding mark_retiring_p_def by (intro keeps_intros)

lemma any_apply_pool [keeps_intros]: "keeps I W (apply_pool E s pools p)"
  unfolding apply_pool_def by (intro keeps_intros)

lemma any_request [keeps_intros]: "keeps I W (handle_request E r)"
  by (cases r; simp only: handle_request_def request.case handle_status_def handle_add_def
      handle_scale_def handle_upgrade_def handle_start_def handle_stop_def handle_remove_def
      handle_auth_def handle_apply_def Let_def; intro keeps_intros)

lemma any_handle:
  "(\<And>e. I e \<Longrightarrow> mutating r \<Longrightarrow> I (bump_epoch e)) \<Longrightarrow> keeps I W (handle_local E r)"
  unfolding handle_local_def handle_inner_def reload_def store_load_def
  by (intro keeps_intros) auto

end

text \<open>
  Such a predicate is an invariant of every program whose calls \<open>ok\<close> allows, if it withstands what
  arrives meanwhile.
\<close>

locale bookkeeping = memory_blind +
  fixes ok :: "call \<Rightarrow> bool"
  assumes arrived: "keeps I W (events E)"
    and called: "I e \<Longrightarrow> ok c \<Longrightarrow> I (e\<lparr>issued := issued e @ [c]\<rparr>)"

sublocale bookkeeping \<subseteq> stable E I W ok
  by unfold_locales (fact arrived | (intro passed called cached; assumption))+

text \<open>Requests only count; a predicate that withstands the count withstands them.\<close>

locale counting = memory_blind +
  fixes ok :: "call \<Rightarrow> bool"
  assumes bumped: "I e \<Longrightarrow> I (bump_epoch e)"
    and recorded: "I e \<Longrightarrow> ok c \<Longrightarrow> I (e\<lparr>issued := issued e @ [c]\<rparr>)"

sublocale counting \<subseteq> bookkeeping E I W ok
  by unfold_locales (intro events_keep any_handle bumped edited passed recorded; assumption)+

section \<open>What an await leaves of the state\<close>

text \<open>
  From \<open>e\<close> to \<open>e'\<close> only requests and observations happened: the engine is well formed, no run is
  forgotten and no retirement withdrawn, the epoch counts the mutations, and when there was none
  the durable state and the stored row are the same.
\<close>

definition calm :: "'w engine \<Rightarrow> 'w engine \<Rightarrow> bool" where
  "calm e e' \<longleftrightarrow> wf_engine e' \<and> intent_le (st e) (st e')
     \<and> reconcile_epoch e' = reconcile_epoch e \<and> serving e' = serving e \<and> cursor e' = cursor e
     \<and> boot_time e' = boot_time e
     \<and> mutations e \<le> mutations e' \<and> epoch e' = epoch e + of_nat (mutations e' - mutations e)
     \<and> (mutations e' = mutations e \<longrightarrow> durable (st e') = durable (st e) \<and> row e' = row e)"

definition wrapped :: "'w engine \<Rightarrow> 'w engine \<Rightarrow> bool" where
  "wrapped e e' \<longleftrightarrow> mutations e + 2 ^ 64 \<le> mutations e'"

lemma calm_refl: "wf_engine e \<Longrightarrow> calm e e"
  by (simp add: calm_def)

lemma calm_trans:
  assumes "calm a b" "calm b c"
  shows "calm a c"
proof -
  have "mutations c - mutations a = (mutations b - mutations a) + (mutations c - mutations b)"
    using assms by (simp add: calm_def)
  then have "epoch c = epoch a + of_nat (mutations c - mutations a)"
    using assms by (simp add: calm_def)
  moreover have "mutations c = mutations a \<Longrightarrow> mutations b = mutations a"
    using assms by (simp add: calm_def)
  ultimately show ?thesis
    using assms intent_le_trans by (auto simp: calm_def)
qed

lemma handled_calm: "handled r e e' \<Longrightarrow> calm e e'"
  by (auto simp: handled_def calm_def)

lemma calm_handle:
  assumes "reads_ok E" "calm e0 e"
  shows "post (\<lambda>_. calm e0) (\<lambda>_. calm e0) (handle_local E r e)"
proof -
  have "wf_engine e" using assms(2) by (simp add: calm_def)
  from handle_local_step [OF this assms(1)] show ?thesis
    by (rule post_mono) (auto intro: calm_trans [OF assms(2)] handled_calm)
qed

lemma calm_cong:
  "st e' = st e \<Longrightarrow> row e' = row e \<Longrightarrow> reconcile_epoch e' = reconcile_epoch e \<Longrightarrow>
   serving e' = serving e \<Longrightarrow> cursor e' = cursor e \<Longrightarrow> boot_time e' = boot_time e \<Longrightarrow>
   mutations e' = mutations e \<Longrightarrow> epoch e' = epoch e \<Longrightarrow> calm e0 e' = calm e0 e"
  by (simp add: calm_def wf_engine_def)

interpretation calm: stable E "\<lambda>e. reads_ok E \<longrightarrow> calm e0 e" "\<lambda>_. \<not> reads_ok E" "\<lambda>_. True"
  for E :: "'w env" and e0 :: "'w engine"
proof unfold_locales
  have "keeps (\<lambda>e. reads_ok E \<longrightarrow> calm e0 e) (\<lambda>_. \<not> reads_ok E) (handle_local E r)" for r
  proof (cases "reads_ok E")
    case True
    then show ?thesis by (intro keeps_post) (auto intro: calm_handle elim: post_mono)
  next
    case False
    then show ?thesis by (auto simp: keeps_def split: res.split prod.split)
  qed
  then show "keeps (\<lambda>e. reads_ok E \<longrightarrow> calm e0 e) (\<lambda>_. \<not> reads_ok E) (events E)"
    by (rule events_keep) (simp_all add: calm_def wf_engine_def)
qed (simp_all add: calm_def wf_engine_def)

text \<open>
  A future is calm when every state it can start from is only observed and changed by requests.
\<close>

definition calm_future :: "'w env \<Rightarrow> ('w, 'a) act \<Rightarrow> bool" where
  "calm_future E m \<longleftrightarrow>
     (\<forall>e0. keeps (\<lambda>e. reads_ok E \<longrightarrow> calm e0 e) (\<lambda>_. \<not> reads_ok E) m)"

lemma calm_futureD:
  assumes "calm_future E m" "reads_ok E" "wf_engine e"
  shows "post (\<lambda>_. calm e) (\<lambda>_. calm e) (m e)"
proof -
  have "keeps (calm e) (\<lambda>_. False) m" using assms(1,2) by (simp add: calm_future_def)
  then show ?thesis using calm_refl [OF assms(3)] by (simp add: keeps_iff_post)
qed

lemma same_epoch:
  assumes "epoch e' = epoch e + of_nat (mutations e' - mutations e)" "mutations e \<le> mutations e'"
    "epoch e' = epoch e"
  shows "mutations e' = mutations e \<or> wrapped e e'"
proof -
  have "of_nat (mutations e' - mutations e) = (0::u64)" using assms by simp
  then have "(2::nat) ^ 64 dvd mutations e' - mutations e"
    unfolding word_of_nat_eq_0_iff by simp
  then have "mutations e' - mutations e = 0 \<or> 2 ^ 64 \<le> mutations e' - mutations e"
    using dvd_imp_le by blast
  then show ?thesis using assms(2) by (auto simp: wrapped_def)
qed

text \<open>
  An external operation that returns, or fails with another error than the interruption, was not
  interfered with.
\<close>

lemma external_step:
  assumes "calm_future E m" "reads_ok E" "wf_engine e" "reconcile_epoch e \<noteq> None"
  shows "post (\<lambda>_ e'. calm e e' \<and> (mutations e' = mutations e \<or> wrapped e e') \<and> \<not> interrupted e)
    (\<lambda>er e'. calm e e' \<and> (er \<noteq> ReconcileInterrupted \<longrightarrow>
       (mutations e' = mutations e \<or> wrapped e e') \<and> \<not> interrupted e)) (external m e)"
    (is "post ?Q ?R _")
proof (cases "interrupted e")
  case True
  then show ?thesis using calm_refl [OF assms(3)] by (simp add: external_def check_epoch_def)
next
  case False
  have quiet: "mutations e' = mutations e \<or> wrapped e e'" if "calm e e'" "\<not> interrupted e'" for e'
  proof -
    have "epoch e' = epoch e"
      using False assms(4) that by (auto simp: interrupted_def calm_def split: option.splits)
    then show ?thesis using that(1) same_epoch [of e' e] by (simp add: calm_def)
  qed
  have "post (\<lambda>r e'. post ?Q ?R (seq_p check_epoch (give r) e')) ?R (attempt m e)"
    unfolding post_attempt
    by (rule post_mono [OF calm_futureD [OF assms(1-3)]])
      (use quiet False in \<open>auto simp: check_epoch_def post_give\<close>)
  then show ?thesis using False by (simp add: external_def check_epoch_def)
qed

end
