(* ===== verification/Docker.thy ===== *)
theory Docker
  imports External
begin

text \<open>
  The docker commands (src/docker.rs): the argument lists, the reading of their output, and the
  ownership test by labels. Running a command is a parameter (\<open>docker\<close> and \<open>docker_cp\<close> of the
  environment).
\<close>

section \<open>Running a command\<close>

definition docker_run :: "'w env \<Rightarrow> string list \<Rightarrow> ('w, docker_outcome) act" where
  "docker_run E args = await E (Docker_Call args) (docker E args)"

definition docker_command :: "'w env \<Rightarrow> string list \<Rightarrow> ('w, string) act" where
  "docker_command E args = bind_p (docker_run E args) (\<lambda>out. case out of
      Docker_Timeout \<Rightarrow> throw (Msg ''Docker command timed out'')
    | Docker_Spawn_Error err \<Rightarrow> throw (Msg err)
    | Docker_Exit success out err \<Rightarrow>
        seq_p (ensure_p success (''Docker '' @ (case args of [] \<Rightarrow> ''command'' | a # _ \<Rightarrow> a)
          @ '' failed (check daemon, image and permissions)'')) (ret out))"

definition no_value :: "('w, 'a) act \<Rightarrow> ('w, unit) act" where
  "no_value m = seq_p m (ret ())"

definition docker_info :: "'w env \<Rightarrow> ('w, string) act" where
  "docker_info E =
     bind_p (docker_command E [''info'', ''--format'', ''{{.OperatingSystem}}'']) (\<lambda>out.
     ret (trim (utf8_lossy out)))"

definition shares_args :: "string \<Rightarrow> string \<Rightarrow> string list" where
  "shares_args probe img =
     [''run'', ''--rm'', ''--pull=never'', ''--label'', ''io.runnerctl.probe=bind'',
      ''--network=none'', ''--user=0'', ''--security-opt=no-new-privileges:true'', ''--volume'',
      utf8_lossy probe @ '':/probe:ro,Z'', ''--entrypoint=/bin/sh'', img, ''-c'', ''cat /probe'']"

text \<open>\<open>fs_probe\<close> writes a file with the nonce into the directory and gives its path.\<close>

definition docker_shares :: "'w env \<Rightarrow> string \<Rightarrow> string \<Rightarrow> ('w, unit) act" where
  "docker_shares E dir img =
     bind_p (ask (uuid E)) (\<lambda>u. let nonce = simple_uuid u in
     bind_p (ask (fs_probe E dir nonce)) (\<lambda>p.
     bind_p (give (from_sum p)) (\<lambda>probe.
     bind_p (attempt (docker_command E (shares_args probe img))) (\<lambda>out.
     ensure_p (out = Ok nonce)
       (''Docker cannot read '' @ utf8_lossy dir
        @ '' through a bind mount; run the daemon on this machine and share this path with it'')))))"

definition docker_image :: "'w env \<Rightarrow> string \<Rightarrow> ('w, unit) act" where
  "docker_image E img = no_value (docker_command E [''image'', ''inspect'', img])"

definition docker_image_version :: "'w env \<Rightarrow> string \<Rightarrow> ('w, string option) act" where
  "docker_image_version E img =
     bind_p (docker_command E [''image'', ''inspect'', img]) (\<lambda>raw.
     bind_p (give (from_sum (parse_json E raw))) (\<lambda>data.
     ret (as_str (json_get (json_get (json_get (json_nth data 0) ''Config'') ''Labels'')
       ''io.runnerctl.runner.version''))))"

definition docker_pull :: "'w env \<Rightarrow> string \<Rightarrow> ('w, unit) act" where
  "docker_pull E img = bind_p (docker_run E [''pull'', img]) (\<lambda>out. case out of
      Docker_Timeout \<Rightarrow> throw (Msg ''Docker pull timed out'')
    | Docker_Spawn_Error err \<Rightarrow> throw (Msg err)
    | Docker_Exit success out err \<Rightarrow>
        ensure_p success ''Docker pull failed; check registry access and image tag'')"

text \<open>A JSON text read as a list of values.\<close>

definition json_list :: "'w env \<Rightarrow> string \<Rightarrow> json list res" where
  "json_list E raw = and_then (from_sum (parse_json E raw)) (\<lambda>v. case as_array v of
      Some vs \<Rightarrow> Ok vs | None \<Rightarrow> Err (Msg (shape_error E v)))"

definition docker_list :: "'w env \<Rightarrow> string \<Rightarrow> ('w, json list) act" where
  "docker_list E mgr =
     bind_p (docker_command E [''ps'', ''-aq'', ''--filter'', ''label=io.runnerctl.manager='' @ mgr]) (\<lambda>out.
     bind_p (give (from_utf8 out)) (\<lambda>ids.
     if trim ids = [] then ret []
     else bind_p (docker_command E (''inspect'' # split_whitespace ids)) (\<lambda>raw.
       give (json_list E raw))))"

section \<open>Ownership\<close>

definition container_label :: "json \<Rightarrow> string \<Rightarrow> string option" where
  "container_label c key = as_str (json_get (json_get (json_get c ''Config'') ''Labels'') key)"

definition owned :: "json \<Rightarrow> string \<Rightarrow> run \<Rightarrow> bool" where
  "owned c mgr r \<longleftrightarrow>
     container_label c ''io.runnerctl.manager'' = Some mgr
     \<and> container_label c ''io.runnerctl.run'' = Some (run_id r)
     \<and> container_label c ''io.runnerctl.pool'' = Some (run_pool_id r)"

section \<open>Creating a container\<close>

text \<open>\<open>daemon_path\<close> on Unix; on Windows \<open>daemon_path_windows\<close>, where a path that is not Unicode fails.\<close>

definition daemon_path :: "string \<Rightarrow> string res" where
  "daemon_path p = Ok (utf8_lossy p)"

definition daemon_path_windows :: "string \<Rightarrow> string res" where
  "daemon_path_windows p =
     and_then (if valid_utf8 p then Ok p else Err (Msg ''Docker paths must be valid Unicode'')) (\<lambda>t0.
     let t = (case strip_prefix (bytes [92, 92, 63, 92]) t0 of Some r \<Rightarrow> r | None \<Rightarrow> t0) in
     (case dropWhile (\<lambda>c. c \<noteq> CHR '':'') t of
        _ # d # rest \<Rightarrow>
          (let drive = takeWhile (\<lambda>c. c \<noteq> CHR '':'') t in
           if d = CHR 0x5C \<and> length drive = 1 \<and> list_all is_ascii_alphabetic drive
           then Ok (''/run/desktop/mnt/host/'' @ map to_ascii_lowercase drive @ ''/''
             @ map (\<lambda>c. if c = CHR 0x5C then CHR ''/'' else c) rest)
           else Err (Msg (utf8_lossy p @ '' is not on a local drive; Docker socket pools need --home on a drive such as C:'')))
      | _ \<Rightarrow> Err (Msg (utf8_lossy p @ '' is not on a local drive; Docker socket pools need --home on a drive such as C:''))))"

definition flag :: "string \<Rightarrow> (string \<times> string) list \<Rightarrow> string list" where
  "flag f kvs = concat (map (\<lambda>(k, v). [f, k @ ''='' @ v]) kvs)"

definition runner_labels :: "pool \<Rightarrow> string" where
  "runner_labels p = join_with '','' (pl_labels p @ [''pool:'' @ pl_name p])"

definition socket_args :: "'w env \<Rightarrow> run \<Rightarrow> string list res" where
  "socket_args E r =
     (let runtime = join (run_dir (home E) (run_id r)) ''runtime'' in
      and_then (daemon_path runtime) (\<lambda>shared.
      and_then (ensure (\<not> has_whitespace shared)
        (''Docker socket pools need a --home path without spaces: '' @ utf8_lossy (home E))) (\<lambda>_.
      Ok [''--network'', ''host'',
          ''--volume'', utf8_lossy runtime @ '':'' @ shared @ '':Z'',
          ''--env'', ''RUNNER_ROOT='' @ shared,
          ''--env'', ''RUNNER_UID='' @ text_of (fst (host_ids E)),
          ''--volume'', ''/var/run/docker.sock:/var/run/docker.sock''])))"

definition base_args :: "'w env \<Rightarrow> string \<Rightarrow> run \<Rightarrow> string list" where
  "base_args E mgr r =
     (let p = run_pool r in
      [''create'', ''--name'', run_id r, ''--restart=no'', ''--init'', ''--log-opt'', ''max-size=10m'',
       ''--log-opt'', ''max-file=3'']
      @ (if pl_allow_privilege_escalation p then []
         else [''--security-opt'', ''no-new-privileges:true''])
      @ (case pl_cpus p of Some c \<Rightarrow> [''--cpus'', f64_text E c] | None \<Rightarrow> [])
      @ (case pl_memory p of Some m \<Rightarrow> [''--memory'', m] | None \<Rightarrow> [])
      @ flag ''--label'' [(''io.runnerctl.manager'', mgr), (''io.runnerctl.pool'', run_pool_id r),
          (''io.runnerctl.run'', run_id r)]
      @ flag ''--env'' [(''GITHUB_ORG'', pl_organization p), (''RUNNER_NAME'', run_id r),
          (''RUNNER_LABELS'', runner_labels p), (''RUNNER_GROUP'', pl_runner_group p)]
      @ [''--env'', ''GITHUB_URL='' @ pool_url p]
      @ (case pl_repository p of Some _ \<Rightarrow> [''--env'', ''RUNNER_SCOPE=repo''] | None \<Rightarrow> [])
      @ [''--volume'', utf8_lossy (run_dir (home E) (run_id r)) @ '':/run/runnerctl:Z''])"

definition create_args :: "'w env \<Rightarrow> string \<Rightarrow> run \<Rightarrow> string list res" where
  "create_args E mgr r =
     and_then (if pl_docker_socket (run_pool r) then socket_args E r else Ok []) (\<lambda>extra.
     Ok (base_args E mgr r @ extra @ [pl_image (run_pool r)]))"

definition docker_create :: "'w env \<Rightarrow> string \<Rightarrow> run \<Rightarrow> ('w, unit) act" where
  "docker_create E mgr r =
     seq_p (when_p (pl_docker_socket (run_pool r))
       (perform (secure_dir E (join (run_dir (home E) (run_id r)) ''runtime''))))
     (bind_p (give (create_args E mgr r)) (\<lambda>args.
     no_value (docker_command E args)))"

definition docker_start :: "'w env \<Rightarrow> string \<Rightarrow> ('w, unit) act" where
  "docker_start E rid = no_value (docker_command E [''start'', rid])"

section \<open>Removing a container\<close>

definition remove_args :: "string \<Rightarrow> bool \<Rightarrow> string list" where
  "remove_args rid force = ''rm'' # (if force then [''--force''] else []) @ [rid]"

definition docker_remove :: "'w env \<Rightarrow> string \<Rightarrow> bool \<Rightarrow> ('w, unit) act" where
  "docker_remove E rid force = no_value (docker_command E (remove_args rid force))"

definition repair_args :: "'w env \<Rightarrow> run \<Rightarrow> string list" where
  \<open>repair_args E r =
     [''run'', ''--rm'', ''--name'', run_id r @ ''-cleanup'', ''--label'',
      ''io.runnerctl.cleanup='' @ run_id r, ''--network=none'', ''--user=0'', ''--cpus=1'',
      ''--memory=128m'', ''--cap-drop=ALL'', ''--cap-add=CHOWN'', ''--cap-add=DAC_OVERRIDE'',
      ''--cap-add=FOWNER'', ''--security-opt=no-new-privileges:true'', ''--volume'',
      utf8_lossy (run_dir (home E) (run_id r)) @ '':/cleanup:Z'', ''--entrypoint=/bin/sh'',
      pl_image (run_pool r), ''-c'', ''chown -hR "$1:$2" /cleanup && chmod -R u+rwX /cleanup'', ''--'',
      text_of (fst (host_ids E)), text_of (snd (host_ids E))]\<close>

definition repair_runtime_permissions :: "'w env \<Rightarrow> run \<Rightarrow> ('w, unit) act" where
  "repair_runtime_permissions E r = no_value (docker_command E (repair_args E r))"

section \<open>Boot time and diagnostics\<close>

definition boot_time_args :: "string \<Rightarrow> string list" where
  \<open>boot_time_args img =
     [''run'', ''--rm'', ''--pull=never'', ''--label'', ''io.runnerctl.probe=boot-time'',
      ''--network=none'', ''--user=65534:65534'', ''--cap-drop=ALL'',
      ''--security-opt=no-new-privileges:true'', ''--entrypoint=/bin/sh'', img, ''-c'',
      ''while read -r key value _; do if [ "$key" = btime ]; then echo "$value"; fi; done < /proc/stat'']\<close>

definition docker_boot_time :: "'w env \<Rightarrow> string \<Rightarrow> ('w, u64) act" where
  "docker_boot_time E img =
     bind_p (docker_command E (boot_time_args img)) (\<lambda>out.
     bind_p (give (from_utf8 out)) (\<lambda>t.
     give (or_error (parse_u64 (trim t)) ''cannot read the Docker host boot time'')))"

definition max_log_bytes :: nat where
  "max_log_bytes = 1024 * 1024"

definition docker_logs :: "'w env \<Rightarrow> string \<Rightarrow> ('w, string) act" where
  "docker_logs E rid =
     bind_p (docker_run E [''logs'', ''--tail'', ''1000'', rid]) (\<lambda>out. case out of
      Docker_Timeout \<Rightarrow> throw (Msg ''Docker logs timed out'')
    | Docker_Spawn_Error err \<Rightarrow> throw (Msg err)
    | Docker_Exit success out err \<Rightarrow>
        seq_p (ensure_p success ''cannot read Docker logs'')
          (ret (utf8_lossy (take max_log_bytes (out @ err)))))"

text \<open>The archive is streamed to \<open>logs/<id>.tar\<close>; at most one byte over the limit is copied.\<close>

definition max_archive_bytes :: nat where
  "max_archive_bytes = 32 * 1024 * 1024"

definition docker_archive :: "'w env \<Rightarrow> string \<Rightarrow> ('w, unit) act" where
  "docker_archive E rid =
     (let file = join (join (home E) ''logs'') (rid @ ''.tar'');
          args = [''cp'', rid @ '':/home/runner/actions-runner/_diag/.'', ''-''] in
      bind_p (await E (Docker_Cp args) (docker_cp E args file)) (\<lambda>out. case out of
        Cp_Spawn_Error err \<Rightarrow> throw (Msg err)
      | Cp_Timeout \<Rightarrow> throw (Msg ''diagnostic archive timed out'')
      | Cp_Io_Error err \<Rightarrow> throw (Msg err)
      | Cp_Copied n status \<Rightarrow>
          seq_p (ensure_p (min n (max_archive_bytes + 1) \<le> max_archive_bytes)
            ''diagnostic archive exceeds 32 MiB; export manually before cleanup'')
          (bind_p (give (from_sum status)) (\<lambda>success.
           ensure_p success ''diagnostic archive failed''))))"

section \<open>Invariants\<close>

lemma from_sum_no_panic [simp]: "from_sum x \<noteq> Panic p"
  by (simp add: from_sum_def split: sum.split)

lemma json_list_no_panic [simp]: "json_list E raw \<noteq> Panic p"
  by (auto simp: json_list_def split: option.splits)

lemma create_args_no_panic [simp]: "create_args E mgr r \<noteq> Panic p"
  by (auto simp: create_args_def socket_args_def daemon_path_def Let_def)

lemma keeps_outcome [keeps_intros]:
  "keeps I W m \<Longrightarrow> (\<And>x. keeps I W (f x)) \<Longrightarrow> (\<And>s raw err. keeps I W (g s raw err)) \<Longrightarrow>
     keeps I W (case v of Docker_Timeout \<Rightarrow> m | Docker_Spawn_Error x \<Rightarrow> f x
       | Docker_Exit s raw err \<Rightarrow> g s raw err)"
  by (cases v) auto

lemma keeps_cp_outcome [keeps_intros]:
  "(\<And>x. keeps I W (f x)) \<Longrightarrow> keeps I W m \<Longrightarrow> (\<And>x. keeps I W (h x)) \<Longrightarrow>
     (\<And>n s. keeps I W (g n s)) \<Longrightarrow>
     keeps I W (case v of Cp_Spawn_Error x \<Rightarrow> f x | Cp_Timeout \<Rightarrow> m | Cp_Io_Error x \<Rightarrow> h x
       | Cp_Copied n s \<Rightarrow> g n s)"
  by (cases v) auto

text \<open>Each operation keeps every stable invariant, given that its commands are allowed.\<close>

context awaiting begin

lemma keeps_command [keeps_intros]:
  "ok (Docker_Call args) \<Longrightarrow> keeps I W (docker_command E args)"
  unfolding docker_command_def docker_run_def by (intro keeps_intros keeps_give) auto

lemma keeps_run [keeps_intros]: "ok (Docker_Call args) \<Longrightarrow> keeps I W (docker_run E args)"
  unfolding docker_run_def by (intro keeps_intros)

lemma keeps_no_value [keeps_intros]: "keeps I W m \<Longrightarrow> keeps I W (no_value m)"
  unfolding no_value_def by (intro keeps_intros)

lemma keeps_docker_info [keeps_intros]:
  "ok (Docker_Call [''info'', ''--format'', ''{{.OperatingSystem}}'']) \<Longrightarrow> keeps I W (docker_info E)"
  unfolding docker_info_def by (intro keeps_intros)

lemma keeps_shares [keeps_intros]:
  "(\<And>p. ok (Docker_Call (shares_args p img))) \<Longrightarrow> keeps I W (docker_shares E dir img)"
  unfolding docker_shares_def Let_def by (intro keeps_intros keeps_give) auto

lemma keeps_image [keeps_intros]:
  "ok (Docker_Call [''image'', ''inspect'', img]) \<Longrightarrow> keeps I W (docker_image E img)"
  unfolding docker_image_def by (intro keeps_intros)

lemma keeps_image_version [keeps_intros]:
  "ok (Docker_Call [''image'', ''inspect'', img]) \<Longrightarrow> keeps I W (docker_image_version E img)"
  unfolding docker_image_version_def by (intro keeps_intros keeps_give) auto

lemma keeps_list [keeps_intros]:
  "ok (Docker_Call [''ps'', ''-aq'', ''--filter'', ''label=io.runnerctl.manager='' @ mgr]) \<Longrightarrow>
   (\<And>ids. ok (Docker_Call (''inspect'' # ids))) \<Longrightarrow> keeps I W (docker_list E mgr)"
  unfolding docker_list_def by (intro keeps_intros keeps_give) auto

lemma keeps_create [keeps_intros]:
  "(\<And>args. create_args E mgr r = Ok args \<Longrightarrow> ok (Docker_Call args)) \<Longrightarrow>
   keeps I W (docker_create E mgr r)"
  unfolding docker_create_def
  by (intro keeps_seq keeps_bind_give keeps_when keeps_perform keeps_no_value keeps_command) auto

lemma keeps_start [keeps_intros]:
  "ok (Docker_Call [''start'', rid]) \<Longrightarrow> keeps I W (docker_start E rid)"
  unfolding docker_start_def by (intro keeps_intros)

lemma keeps_remove [keeps_intros]:
  "ok (Docker_Call (remove_args rid force)) \<Longrightarrow> keeps I W (docker_remove E rid force)"
  unfolding docker_remove_def by (intro keeps_intros)

lemma keeps_repair [keeps_intros]:
  "ok (Docker_Call (repair_args E r)) \<Longrightarrow> keeps I W (repair_runtime_permissions E r)"
  unfolding repair_runtime_permissions_def by (intro keeps_intros)

lemma keeps_boot_time [keeps_intros]:
  "ok (Docker_Call (boot_time_args img)) \<Longrightarrow> keeps I W (docker_boot_time E img)"
  unfolding docker_boot_time_def by (intro keeps_intros keeps_give) auto

lemma keeps_logs [keeps_intros]:
  "ok (Docker_Call [''logs'', ''--tail'', ''1000'', rid]) \<Longrightarrow> keeps I W (docker_logs E rid)"
  unfolding docker_logs_def by (intro keeps_intros)

lemma keeps_archive [keeps_intros]:
  "ok (Docker_Cp [''cp'', rid @ '':/home/runner/actions-runner/_diag/.'', ''-'']) \<Longrightarrow>
   keeps I W (docker_archive E rid)"
  unfolding docker_archive_def Let_def by (intro keeps_intros keeps_give) auto

end

end
