(* ===== verification/Reconcile.thy ===== *)
theory Reconcile
  imports Github
begin

text \<open>
  The reconciliation of one pool and the manager's tick (src/manager.rs): observing containers
  and GitHub runners, stopping forced runs, choosing who retires, settling every run, deleting a
  drained pool, replacing missing runners, and turning failures into a backoff.
\<close>

section \<open>Updates of runs and pools\<close>

definition put_run :: "string \<Rightarrow> run \<Rightarrow> state \<Rightarrow> state" where
  "put_run key r s = s\<lparr>s_runs := bm_insert key r (s_runs s)\<rparr>"

definition with_phase :: "string \<Rightarrow> run \<Rightarrow> run" where
  "with_phase ph r = r\<lparr>run_phase := ph\<rparr>"

definition reset_failures :: "pool_state \<Rightarrow> pool_state" where
  "reset_failures p = p\<lparr>ps_failures := 0\<rparr>"

definition without_pool :: "string \<Rightarrow> config \<Rightarrow> config" where
  "without_pool name c = c\<lparr>cfg_pools := filter (\<lambda>p. pl_name p \<noteq> name) (cfg_pools c)\<rparr>"

section \<open>Logs and reboots\<close>

definition log_path :: "'w env \<Rightarrow> string \<Rightarrow> string" where
  "log_path E name = join (join (home E) ''logs'') name"

definition ever_started :: "json \<Rightarrow> bool" where
  "ever_started c = (case as_str (json_get (json_get c ''State'') ''StartedAt'') of
      None \<Rightarrow> False | Some s \<Rightarrow> \<not> starts_with ''0001-'' s)"

definition archive :: "'w env \<Rightarrow> run \<Rightarrow> json \<Rightarrow> ('w, run) act" where
  "archive E r c =
     (if run_log_saved r then ret r
      else
        bind_p (external (docker_logs E (run_id r))) (\<lambda>logs.
        seq_p (perform (write_file E (log_path E (run_id r @ ''.log'')) logs))
        (seq_p (when_p (ever_started c) (external (docker_archive E (run_id r))))
        (let r' = r\<lparr>run_log_saved := True\<rparr> in
         seq_p (set_st_with (put_run (run_id r) r'))
         (seq_p (save E) (ret r'))))))"

definition set_boot_time :: "u64 \<Rightarrow> ('w, unit) act" where
  "set_boot_time b = modify (\<lambda>e. e\<lparr>boot_time := Some b\<rparr>)"

definition stopped_by_reboot :: "'w env \<Rightarrow> json \<Rightarrow> string \<Rightarrow> ('w, bool) act" where
  "stopped_by_reboot E c img =
     bind_p (reads boot_time) (\<lambda>known.
     seq_p (when_p (started_at (parse_rfc3339 E) c \<noteq> None
          \<and> \<not> started_before_boot (parse_rfc3339 E) c known)
       (bind_p (attempt (external (docker_boot_time E img))) (\<lambda>r. case r of
            Ok b \<Rightarrow> set_boot_time b
          | Err err \<Rightarrow> (if err = ReconcileInterrupted then throw err else ret ())
          | Panic p \<Rightarrow> ret ())))
     (bind_p (reads boot_time) (\<lambda>b. ret (started_before_boot (parse_rfc3339 E) c b))))"

definition expire_entry :: "'w env \<Rightarrow> u64 \<Rightarrow> log_entry \<Rightarrow> ('w, unit) act" where
  "expire_entry E age entry = (case entry of
      Entry_Error err \<Rightarrow> throw (Msg err)
    | Not_A_File \<Rightarrow> ret ()
    | Log_File name elapsed \<Rightarrow>
        bind_p (give (from_sum elapsed)) (\<lambda>ns.
        bind_p (reads st) (\<lambda>s.
        when_p (unat age * 10 ^ 9 < ns
            \<and> \<not> list_ex (\<lambda>i. starts_with i (utf8_lossy name)) (bm_keys (s_runs s)))
          (perform (fs_remove_file E (log_path E name))))))"

definition expire_logs :: "'w env \<Rightarrow> ('w, unit) act" where
  "expire_logs E =
     bind_p (reads st) (\<lambda>s.
     let age = saturating_mul (mg_log_retention_days (cfg_manager (s_config s))) 86400 in
     bind_p (ask (fs_logs E)) (\<lambda>l.
     bind_p (give (from_sum l)) (\<lambda>entries.
     fold_p (\<lambda>_ entry. expire_entry E age entry) () entries)))"

section \<open>Settling one run\<close>

text \<open>What the steps of one reconciliation share.\<close>

record context_data =
  cx_name :: string
  cx_pool :: pool
  cx_ps :: pool_state
  cx_allow :: bool
  cx_manager :: string
  cx_auth :: auth
  cx_scope :: string
  cx_containers :: "json list"
  cx_remotes :: "remote_runner list"

definition token_path :: "'w env \<Rightarrow> string \<Rightarrow> string" where
  "token_path E rid = join (run_dir (home E) rid) ''token''"

definition fresh_token :: "'w env \<Rightarrow> context_data \<Rightarrow> ('w, string) act" where
  "fresh_token E cx = external (gh_token E (pl_auth (cx_pool cx)) (cx_auth cx) (cx_scope cx))"

definition mark_starting :: "'w env \<Rightarrow> string \<Rightarrow> run \<Rightarrow> ('w, unit) act" where
  "mark_starting E rid r =
     seq_p (external (docker_start E rid))
     (seq_p (set_st_with (put_run rid (with_phase ''starting'' r)))
     (save E))"

definition start_created :: "'w env \<Rightarrow> context_data \<Rightarrow> string \<Rightarrow> run \<Rightarrow> ('w, unit) act" where
  "start_created E cx rid r =
     bind_p (fresh_token E cx) (\<lambda>tok.
     seq_p (perform (write_file E (token_path E rid) tok))
     (mark_starting E rid r))"

definition create_missing :: "'w env \<Rightarrow> context_data \<Rightarrow> string \<Rightarrow> run \<Rightarrow> ('w, unit) act" where
  "create_missing E cx rid r =
     seq_p (external (docker_image E (pl_image (run_pool r))))
     (seq_p (perform (secure_dir E (run_dir (home E) rid)))
     (bind_p (fresh_token E cx) (\<lambda>tok.
     seq_p (perform (write_file E (token_path E rid) tok))
     (seq_p (external (docker_create E (cx_manager cx) r))
     (mark_starting E rid r)))))"

text \<open>
  The container of a run that is over: its diagnostics are saved before it is removed, without
  force. A failure to do so is the value \<open>Err\<close>, which the loop collects.
\<close>

definition cleanup_container :: "'w env \<Rightarrow> string \<Rightarrow> run \<Rightarrow> json \<Rightarrow> ('w, (run \<times> bool) res) act" where
  "cleanup_container E rid r c =
     bind_p (ask (fs_exists E (join (run_dir (home E) rid) ''completed''))) (\<lambda>completed.
     let r1 = r\<lparr>run_completed_job := completed\<rparr> in
     bind_p (if unexpected_exit r1 then stopped_by_reboot E c (pl_image (run_pool r1)) else ret False) (\<lambda>reboot.
     let r2 = with_phase ''cleanup'' r1 in
     seq_p (set_st_with (put_run rid r2))
     (seq_p (save E)
     (attempt (bind_p (archive E r2 c) (\<lambda>r3.
        seq_p (external (docker_remove E rid False)) (ret (r3, reboot))))))))"

text \<open>The registration and the directory of a run without a container.\<close>

definition deregister :: "'w env \<Rightarrow> context_data \<Rightarrow> string \<Rightarrow> ('w, unit) act" where
  "deregister E cx rid =
     bind_p (external (gh_list E (pl_auth (cx_pool cx)) (cx_auth cx) (cx_scope cx) 0)) (\<lambda>fresh.
     case find (\<lambda>x. rr_name x = rid) fresh of
       None \<Rightarrow> ret ()
     | Some remote \<Rightarrow>
         external (gh_remove E (pl_auth (cx_pool cx)) (cx_auth cx) (cx_scope cx) (rr_id remote)))"

definition remove_directory :: "'w env \<Rightarrow> string \<Rightarrow> run \<Rightarrow> ('w, unit) act" where
  "remove_directory E rid r =
     (let dir = run_dir (home E) rid in
      bind_p (ask (fs_exists E dir)) (\<lambda>b.
      if \<not> b then ret ()
      else bind_p (ask (fs_remove_dir_all E dir)) (\<lambda>res. case res of
          None \<Rightarrow> ret ()
        | Some err \<Rightarrow>
            if pl_docker_socket (run_pool r)
            then seq_p (external (repair_runtime_permissions E r)) (perform (fs_remove_dir_all E dir))
            else throw (Msg err))))"

definition forget_run :: "'w env \<Rightarrow> context_data \<Rightarrow> string \<Rightarrow> run \<Rightarrow> ('w, unit) act" where
  "forget_run E cx rid r =
     seq_p (when_p (run_completed_job r)
       (bind_p (reads st) (\<lambda>s.
        bind_p (give (or_panic (bm_get (s_pools s) (cx_name cx)) ''called Option::unwrap() on a None value'')) (\<lambda>_.
        set_st_with (update_pool (cx_name cx) reset_failures)))))
     (seq_p (set_st_with (remove_run rid))
     (save E))"

definition keep_first :: "error option \<Rightarrow> error \<Rightarrow> error option" where
  "keep_first old new = (case old of None \<Rightarrow> Some new | Some e \<Rightarrow> Some e)"

text \<open>The loop's accumulator: the unexpected exits so far, and the first collected error.\<close>

type_synonym progress = "nat \<times> error option"

definition settle :: "'w env \<Rightarrow> context_data \<Rightarrow> string \<Rightarrow> run \<Rightarrow> json option \<Rightarrow> progress \<Rightarrow> ('w, progress) act" where
  "settle E cx rid r container acc =
     bind_p (case container of
         Some c \<Rightarrow> cleanup_container E rid r c
       | None \<Rightarrow> ret (Ok (r, False))) (\<lambda>outcome.
     case outcome of
       Err err \<Rightarrow> ret (fst acc, keep_first (snd acc) err)
     | Panic p \<Rightarrow> ret acc
     | Ok (r', reboot) \<Rightarrow>
         bind_p (attempt (seq_p (deregister E cx rid) (remove_directory E rid r'))) (\<lambda>res.
         case res of
           Err err \<Rightarrow> ret (fst acc, keep_first (snd acc) err)
         | Panic p \<Rightarrow> ret acc
         | Ok u \<Rightarrow> seq_p (forget_run E cx rid r')
             (ret (note_exit (fst acc) r' reboot, snd acc))))"

definition container_status :: "json option \<Rightarrow> string option" where
  "container_status c = (case c of None \<Rightarrow> None
     | Some v \<Rightarrow> as_str (json_get (json_get v ''State'') ''Status''))"

definition is_live :: "string option \<Rightarrow> bool" where
  "is_live status \<longleftrightarrow> status = Some ''running'' \<or> status = Some ''restarting'' \<or> status = Some ''paused''"

definition observe_remote :: "remote_runner option \<Rightarrow> run \<Rightarrow> run" where
  "observe_remote remote r = (case remote of None \<Rightarrow> r | Some x \<Rightarrow> r\<lparr>run_remote_id := Some (rr_id x)\<rparr>)"

definition run_step :: "'w env \<Rightarrow> context_data \<Rightarrow> progress \<Rightarrow> string \<Rightarrow> ('w, progress) act" where
  "run_step E cx acc rid =
     bind_p (reads st) (\<lambda>s.
     bind_p (give (or_panic (bm_get (s_runs s) rid) ''no entry found for key'')) (\<lambda>r0.
     let remote = find (\<lambda>x. rr_name x = rid) (cx_remotes cx);
         r = observe_remote remote r0;
         container = find (\<lambda>c. owned c (s_manager_id s) r) (cx_containers cx);
         status = container_status container in
     if is_live status then
       seq_p (when_p (remote \<noteq> None) (seq_p (ask (fs_remove_file E (token_path E rid))) (ret ())))
       (seq_p (set_st_with (put_run rid (with_phase (observed_phase remote) r))) (ret acc))
     else if status = Some ''created'' \<and> \<not> run_retiring r then
       seq_p (if cx_allow cx then start_created E cx rid r else set_st_with (put_run rid r)) (ret acc)
     else if container = None \<and> run_phase r = ''creating'' \<and> \<not> run_retiring r then
       seq_p (if cx_allow cx then create_missing E cx rid r else set_st_with (put_run rid r)) (ret acc)
     else settle E cx rid r container acc))"

section \<open>Forced runs\<close>

definition force_run :: "'w env \<Rightarrow> json list \<Rightarrow> run \<Rightarrow> ('w, unit) act" where
  "force_run E containers r =
     bind_p (reads st) (\<lambda>s.
     case find (\<lambda>c. owned c (s_manager_id s) r) containers of
       None \<Rightarrow> ret ()
     | Some c \<Rightarrow>
         let r' = with_phase ''cleanup'' r in
         seq_p (set_st_with (put_run (run_id r) r'))
         (seq_p (save E)
         (bind_p (archive E r' c) (\<lambda>_.
          external (docker_remove E (run_id r) True)))))"

definition forced_runs :: "string \<Rightarrow> state \<Rightarrow> run list" where
  "forced_runs pid s = filter run_force (pool_runs pid s)"

section \<open>Deleting and replenishing\<close>

definition delete_drained :: "'w env \<Rightarrow> string \<Rightarrow> ('w, unit) act" where
  "delete_drained E name =
     seq_p (clean_file E)
     (bind_p (reads st) (\<lambda>s.
      seq_p (set_st_with (\<lambda>s. s\<lparr>s_pools := bm_remove name (s_pools s)\<rparr>))
      (commit_config E (without_pool name (s_config s)))))"

definition new_run :: "context_data \<Rightarrow> string \<Rightarrow> u64 \<Rightarrow> run" where
  "new_run cx rid now =
     \<lparr>run_id = rid, run_pool_id = ps_id (cx_ps cx), run_pool = cx_pool cx,
      run_generation = ps_generation (cx_ps cx), run_created_at = now, run_phase = ''creating'',
      run_remote_id = None, run_retiring = False, run_force = False, run_completed_job = False,
      run_log_saved = False\<rparr>"

definition add_run :: "'w env \<Rightarrow> context_data \<Rightarrow> ('w, unit) act" where
  "add_run E cx =
     seq_p (external (docker_image E (pl_image (cx_pool cx))))
     (bind_p (reads st) (\<lambda>s.
     bind_p (give (manager_prefix (s_manager_id s))) (\<lambda>prefix.
     bind_p (ask (uuid E)) (\<lambda>u.
     let rid = ''rc-'' @ prefix @ ''-'' @ simple_uuid u in
     bind_p (ask (clock E)) (\<lambda>now.
     seq_p (set_st_with (put_run rid (new_run cx rid now)))
     (save E))))))"

definition kept :: "pool \<Rightarrow> pool_state \<Rightarrow> nat" where
  "kept p ps = (if ps_running ps \<and> \<not> ps_deleting ps then unat (pl_replicas p) else 0)"

text \<open>The end of a turn, once every run is settled.\<close>

definition finish_turn :: "'w env \<Rightarrow> context_data \<Rightarrow> nat \<Rightarrow> nat \<Rightarrow> ('w, nat) act" where
  "finish_turn E cx unknown report =
     bind_p (reads st) (\<lambda>s.
     let active = length (pool_runs (ps_id (cx_ps cx)) s) in
     if ps_deleting (cx_ps cx) \<and> active = 0 then
       seq_p (delete_drained E (cx_name cx)) (ret report)
     else
       seq_p (when_p (cx_allow cx \<and> report = 0 \<and> active < kept (cx_pool cx) (cx_ps cx)
           \<and> length (s_runs s) + unknown < unat (mg_max_runners (cfg_manager (s_config s))))
         (add_run E cx))
       (seq_p (expire_logs E) (ret report)))"

section \<open>The reconciliation of a pool\<close>

definition unrecorded :: "state \<Rightarrow> json \<Rightarrow> bool" where
  "unrecorded s c = (case container_label c ''io.runnerctl.run'' of
      None \<Rightarrow> True | Some i \<Rightarrow> \<not> bm_contains_key (s_runs s) i)"

definition reconcile_runs :: "'w env \<Rightarrow> context_data \<Rightarrow> nat \<Rightarrow> ('w, nat) act" where
  "reconcile_runs E cx unknown =
     bind_p (reads st) (\<lambda>s.
     let ids = map run_id (pool_runs (ps_id (cx_ps cx)) s) in
     seq_p (mark_retiring_p (cx_name cx))
     (seq_p (save E)
     (bind_p (fold_p (run_step E cx) (0, None) ids) (\<lambda>(report, cleanup_error).
     case cleanup_error of
       Some err \<Rightarrow> throw err
     | None \<Rightarrow> finish_turn E cx unknown report))))"

definition reconcile :: "'w env \<Rightarrow> string \<Rightarrow> bool \<Rightarrow> ('w, nat) act" where
  "reconcile E name allow =
     bind_p (reads st) (\<lambda>s0.
     bind_p (give (or_error (find_pool name (s_config s0)) ''missing pool config'')) (\<lambda>p.
     bind_p (give (or_panic (bm_get (s_pools s0) name) ''no entry found for key'')) (\<lambda>ps.
     let mgr = s_manager_id s0 in
     bind_p (external (docker_list E mgr)) (\<lambda>containers.
     bind_p (reads st) (\<lambda>s.
     let unknown = length (filter (unrecorded s) containers) in
     if pool_runs (ps_id ps) s = [] \<and> \<not> ps_running ps then
       seq_p (when_p (ps_deleting ps) (delete_drained E name)) (ret 0)
     else
       seq_p (fold_p (\<lambda>_. force_run E containers) () (forced_runs (ps_id ps) s))
       (bind_p (reads st) (\<lambda>s1.
        bind_p (if forced_runs (ps_id ps) s1 \<noteq> [] then external (docker_list E mgr)
                else ret containers) (\<lambda>containers'.
        bind_p (reads st) (\<lambda>s2.
        bind_p (give (or_panic (bm_get (cfg_auth (s_config s2)) (pl_auth p)) ''no entry found for key'')) (\<lambda>a.
        bind_p (external (gh_list E (pl_auth p) a (api_scope p)
            (mg_poll_interval_seconds (cfg_manager (s_config s2))))) (\<lambda>remotes.
        reconcile_runs E
          \<lparr>cx_name = name, cx_pool = p, cx_ps = ps, cx_allow = allow, cx_manager = mgr, cx_auth = a,
           cx_scope = api_scope p, cx_containers = containers', cx_remotes = remotes\<rparr>
          unknown)))))))))))"

section \<open>The tick\<close>

definition UNEXPECTED_EXIT_ERROR :: string where
  "UNEXPECTED_EXIT_ERROR = ''runner exited before completing a job; inspect archived diagnostics''"

definition forget_phase :: "run \<Rightarrow> run" where
  "forget_phase r =
     (if run_phase r \<in> {''idle'', ''busy'', ''starting''} then with_phase ''unknown'' r else r)"

definition clear_error :: "pool_state \<Rightarrow> pool_state" where
  "clear_error p = p\<lparr>ps_error := None, ps_retry_at := 0\<rparr>"

definition note_report :: "'w env \<Rightarrow> string \<Rightarrow> bool \<Rightarrow> nat \<Rightarrow> ('w, unit) act" where
  "note_report E name retrying report =
     (if 0 < report then record_failure E name UNEXPECTED_EXIT_ERROR Provisioning
      else when_p (\<not> retrying) (set_st_with (update_pool name clear_error)))"

definition note_error :: "'w env \<Rightarrow> string \<Rightarrow> error \<Rightarrow> ('w, unit) act" where
  "note_error E name err =
     seq_p (record_failure E name (error_text err) Observation)
     (set_st_with (\<lambda>s. case bm_get (s_pools s) name of
         None \<Rightarrow> s | Some ps \<Rightarrow> update_runs_of (ps_id ps) forget_phase s))"

definition note_observed :: "'w env \<Rightarrow> string \<Rightarrow> ('w, unit) act" where
  "note_observed E name =
     bind_p (reads st) (\<lambda>s.
     when_p (bm_contains_key (s_pools s) name)
       (bind_p (ask (clock E)) (\<lambda>now.
        set_st_with (update_pool name (\<lambda>p. p\<lparr>ps_observed_at := now\<rparr>)))))"

definition conclude :: "'w env \<Rightarrow> string \<Rightarrow> bool \<Rightarrow> nat res \<Rightarrow> ('w, unit) act" where
  "conclude E name retrying result = (case result of
      Ok report \<Rightarrow> seq_p (note_report E name retrying report) (seq_p (note_observed E name) (save E))
    | Err err \<Rightarrow>
        if err = ReconcileInterrupted then save E
        else seq_p (note_error E name err) (seq_p (note_observed E name) (save E))
    | Panic p \<Rightarrow> ret ())"

definition turn :: "'w env \<Rightarrow> string \<Rightarrow> u64 \<Rightarrow> u64 \<Rightarrow> ('w, unit) act" where
  "turn E name retry_at now =
     seq_p (modify (\<lambda>e. e\<lparr>reconcile_epoch := Some (epoch e)\<rparr>))
     (bind_p (attempt (reconcile E name (replenishment_allowed retry_at now))) (\<lambda>result.
     bind_p (reads (\<lambda>e. reconcile_epoch e \<noteq> Some (epoch e))) (\<lambda>changed.
     seq_p (modify (\<lambda>e. e\<lparr>reconcile_epoch := None\<rparr>))
     (if changed then save E else conclude E name (now < retry_at) result))))"

definition tick :: "'w env \<Rightarrow> ('w, unit) act" where
  "tick E =
     bind_p (reads st) (\<lambda>s.
     let names = bm_keys (s_pools s) in
     if names = [] then ret ()
     else
       bind_p (reads cursor) (\<lambda>cur.
       let name = names ! (unat cur mod length names) in
       seq_p (modify (\<lambda>e. e\<lparr>cursor := cursor e + 1\<rparr>))
       (bind_p (ask (clock E)) (\<lambda>now.
       bind_p (give (or_panic (bm_get (s_pools s) name) ''no entry found for key'')) (\<lambda>ps.
       if now < ps_retry_at ps \<and> ps_retry_scope ps = Observation then ret ()
       else turn E name (ps_retry_at ps) now)))))"

end
