(* ===== verification/Reconcile_Calls.thy ===== *)
theory Reconcile_Calls
  imports Reconcile
begin

text \<open>
  The calls that the parts of a reconciliation can make: each keeps every bookkeeping invariant
  that allows them.
\<close>

section \<open>Calls\<close>

text \<open>The calls to GitHub, and those that only observe.\<close>

definition allows_http :: "(call \<Rightarrow> bool) \<Rightarrow> bool" where
  "allows_http ok \<longleftrightarrow> (\<forall>m path. ok (Http_Call m (GITHUB_API @ path)))"

definition observing :: "call \<Rightarrow> bool" where
  "observing c = (case c of
      Docker_Call args \<Rightarrow> args \<noteq> [] \<and> hd args \<in> {''info'', ''ps'', ''inspect'', ''image'', ''logs'', ''run''}
    | Docker_Cp args \<Rightarrow> True
    | Http_Call m url \<Rightarrow> prefix GITHUB_API url)"

lemma allows_token: "allows_http ok \<Longrightarrow> ok (Http_Call POST (token_url app))"
  by (simp add: allows_http_def token_url_def)

lemma allows_path: "allows_http ok \<Longrightarrow> ok (Http_Call m (GITHUB_API @ path))"
  by (simp add: allows_http_def)

definition allows_observing :: "(call \<Rightarrow> bool) \<Rightarrow> bool" where
  "allows_observing ok \<longleftrightarrow> (\<forall>c. observing c \<longrightarrow> ok c)"

lemma observing_http: "allows_observing ok \<Longrightarrow> allows_http ok"
  by (simp add: allows_observing_def allows_http_def observing_def)

lemma observing_docker: "allows_observing ok \<Longrightarrow>
    cmd \<in> {''info'', ''ps'', ''inspect'', ''image'', ''logs'', ''run''} \<Longrightarrow> ok (Docker_Call (cmd # args))"
  by (auto simp: allows_observing_def observing_def)

lemma observing_cp: "allows_observing ok \<Longrightarrow> ok (Docker_Cp args)"
  by (auto simp: allows_observing_def observing_def)

lemma observing_boot: "allows_observing ok \<Longrightarrow> ok (Docker_Call (boot_time_args img))"
  by (simp add: boot_time_args_def observing_docker)

lemma observing_repair: "allows_observing ok \<Longrightarrow> ok (Docker_Call (repair_args E r))"
  by (simp add: repair_args_def observing_docker)

lemma allows_all [simp]: "allows_observing (\<lambda>_. True)" "allows_http (\<lambda>_. True)"
  by (simp_all add: allows_observing_def allows_http_def)

context bookkeeping begin

lemma archive_calls [keeps_intros]:
  "allows_observing ok \<Longrightarrow> keeps I W (archive E r c)"
  unfolding archive_def Let_def
  by (intro keeps_intros) (auto simp: observing_docker observing_cp)

lemma set_boot_calls [keeps_intros]: "keeps I W (set_boot_time b)"
  unfolding set_boot_time_def by (intro keeps_intros booted)

lemma reboot_calls [keeps_intros]:
  "allows_observing ok \<Longrightarrow> keeps I W (stopped_by_reboot E c img)"
  unfolding stopped_by_reboot_def by (intro keeps_intros) (auto simp: observing_boot)

lemma expire_calls [keeps_intros]: "keeps I W (expire_logs E)"
  unfolding expire_logs_def expire_entry_def Let_def
  by (intro keeps_intros) (auto split: log_entry.split intro!: keeps_intros)

lemma token_calls [keeps_intros]: "allows_observing ok \<Longrightarrow> keeps I W (fresh_token E cx)"
  unfolding fresh_token_def
  by (intro keeps_intros) (auto simp: allows_token allows_path observing_http)

lemma starting_calls [keeps_intros]:
  "ok (Docker_Call [''start'', rid]) \<Longrightarrow> keeps I W (mark_starting E rid r)"
  unfolding mark_starting_def by (intro keeps_intros)

lemma start_created_calls [keeps_intros]:
  "allows_observing ok \<Longrightarrow> ok (Docker_Call [''start'', rid]) \<Longrightarrow> keeps I W (start_created E cx rid r)"
  unfolding start_created_def by (intro keeps_intros)

lemma create_missing_calls [keeps_intros]:
  "allows_observing ok \<Longrightarrow> ok (Docker_Call [''start'', rid]) \<Longrightarrow>
   (\<And>args. create_args E (cx_manager cx) r = Ok args \<Longrightarrow> ok (Docker_Call args)) \<Longrightarrow>
   keeps I W (create_missing E cx rid r)"
  unfolding create_missing_def by (intro keeps_intros) (auto simp: observing_docker)

lemma cleanup_calls [keeps_intros]:
  "allows_observing ok \<Longrightarrow> ok (Docker_Call (remove_args rid False)) \<Longrightarrow>
   keeps I W (cleanup_container E rid r c)"
  unfolding cleanup_container_def Let_def by (intro keeps_intros)

lemma deregister_calls [keeps_intros]: "allows_observing ok \<Longrightarrow> keeps I W (deregister E cx rid)"
  unfolding deregister_def
  by (intro keeps_intros) (auto simp: allows_token allows_path observing_http)

lemma remove_directory_calls [keeps_intros]:
  "allows_observing ok \<Longrightarrow> keeps I W (remove_directory E rid r)"
  unfolding remove_directory_def Let_def by (intro keeps_intros) (auto simp: observing_repair)

lemma forget_calls [keeps_intros]: "keeps I W (forget_run E cx rid r)"
  unfolding forget_run_def by (intro keeps_intros)

lemma settle_calls [keeps_intros]:
  "allows_observing ok \<Longrightarrow> ok (Docker_Call (remove_args rid False)) \<Longrightarrow>
   keeps I W (settle E cx rid r container acc)"
  unfolding settle_def case_prod_beta by (intro keeps_intros)

lemma run_step_calls:
  assumes "allows_observing ok" "ok (Docker_Call (remove_args rid False))"
    "cx_allow cx \<Longrightarrow> ok (Docker_Call [''start'', rid])"
    "\<And>r args. cx_allow cx \<Longrightarrow> create_args E (cx_manager cx) r = Ok args \<Longrightarrow> ok (Docker_Call args)"
  shows "keeps I W (run_step E cx acc rid)"
  unfolding run_step_def Let_def by (intro keeps_intros assms) auto

lemma force_run_calls [keeps_intros]:
  "allows_observing ok \<Longrightarrow> ok (Docker_Call (remove_args (run_id r) True)) \<Longrightarrow>
   keeps I W (force_run E containers r)"
  unfolding force_run_def Let_def by (intro keeps_intros)

lemma delete_calls [keeps_intros]: "keeps I W (delete_drained E name)"
  unfolding delete_drained_def by (intro keeps_intros)

lemma add_run_calls [keeps_intros]: "allows_observing ok \<Longrightarrow> keeps I W (add_run E cx)"
  unfolding add_run_def Let_def by (intro keeps_intros) (auto simp: observing_docker)

lemma finish_calls [keeps_intros]:
  "allows_observing ok \<Longrightarrow> keeps I W (finish_turn E cx unknown report)"
  unfolding finish_turn_def Let_def by (intro keeps_intros)

lemma reconcile_runs_calls:
  assumes "allows_observing ok" "\<And>rid. ok (Docker_Call (remove_args rid False))"
    "\<And>rid. cx_allow cx \<Longrightarrow> ok (Docker_Call [''start'', rid])"
    "\<And>r args. cx_allow cx \<Longrightarrow> create_args E (cx_manager cx) r = Ok args \<Longrightarrow> ok (Docker_Call args)"
  shows "keeps I W (reconcile_runs E cx unknown)"
  unfolding reconcile_runs_def Let_def case_prod_beta
  by (intro keeps_intros run_step_calls assms) auto

lemma reconcile_calls:
  assumes "allows_observing ok" "\<And>rid force. ok (Docker_Call (remove_args rid force))"
    "\<And>rid. allow \<Longrightarrow> ok (Docker_Call [''start'', rid])"
    "\<And>mgr r args. allow \<Longrightarrow> create_args E mgr r = Ok args \<Longrightarrow> ok (Docker_Call args)"
  shows "keeps I W (reconcile E name allow)"
  unfolding reconcile_def Let_def
  by (intro keeps_intros reconcile_runs_calls)
    (auto simp: observing_docker [OF assms(1)] allows_token allows_path observing_http assms(1-3)
      intro: assms(4))

lemma record_failure_calls [keeps_intros]: "keeps I W (record_failure E name err scope)"
  unfolding record_failure_def by (intro keeps_intros)

lemma conclude_calls [keeps_intros]: "keeps I W (conclude E name retrying result)"
  unfolding conclude_def note_report_def note_error_def note_observed_def by (intro keeps_intros)

lemma turn_calls:
  assumes "allows_observing ok" "\<And>rid force. ok (Docker_Call (remove_args rid force))"
    "\<And>rid. replenishment_allowed retry_at now \<Longrightarrow> ok (Docker_Call [''start'', rid])"
    "\<And>mgr r args. replenishment_allowed retry_at now \<Longrightarrow> create_args E mgr r = Ok args \<Longrightarrow>
       ok (Docker_Call args)"
  shows "keeps I W (turn E name retry_at now)"
  unfolding turn_def by (intro keeps_intros reconcile_calls started assms)

end

end
