(* ===== verification/Reconcile_Invariant.thy ===== *)
theory Reconcile_Invariant
  imports Reconcile_Calls
begin

text \<open>
  What a reconciliation does to the state: whatever requests arrive while it awaits, the engine's
  invariant holds after every tick that returns, and what it inserts after an await is no older
  than what a request left there.
\<close>

section \<open>Specifications up to the wrap of the epoch\<close>

text \<open>
  \<open>spec e0 Q R r\<close>: \<open>r\<close> satisfies \<open>Q\<close> or \<open>R\<close>, or at least \<open>2 ^ 64\<close> mutations were accepted since
  \<open>e0\<close>, so that the epoch no longer tells them apart.
\<close>

definition spec :: "'w engine \<Rightarrow> ('a \<Rightarrow> 'w engine \<Rightarrow> bool) \<Rightarrow> (error \<Rightarrow> 'w engine \<Rightarrow> bool)
    \<Rightarrow> 'a res \<times> 'w engine \<Rightarrow> bool" where
  "spec e0 Q R r \<longleftrightarrow> wrapped e0 (snd r) \<or> post Q R r"

interpretation wrapped: counting E "wrapped e0" "wrapped e0" "\<lambda>_. True"
  for E :: "'w env" and e0 :: "'w engine"
  by unfold_locales (simp_all add: wrapped_def bump_epoch_def)

abbreviation monotone :: "'w engine \<Rightarrow> ('w, 'a) act \<Rightarrow> bool" where
  "monotone e0 m \<equiv> keeps (wrapped e0) (wrapped e0) m"

lemma monotoneD: "monotone e0 m \<Longrightarrow> wrapped e0 e \<Longrightarrow> wrapped e0 (snd (m e))"
  by (cases "m e" rule: outcome_cases) (force simp: keeps_def)+

lemma spec_post: "post Q R r \<Longrightarrow> spec e0 Q R r"
  by (simp add: spec_def)

lemma spec_mono:
  assumes "spec e0 Q R r" "\<And>x e. Q x e \<Longrightarrow> Q' x e" "\<And>er e. R er e \<Longrightarrow> R' er e"
  shows "spec e0 Q' R' r"
  using assms post_mono [of Q R r Q' R'] by (auto simp: spec_def)

lemma spec_bind:
  assumes "spec e0 (\<lambda>x e'. spec e0 Q R (f x e')) R (m e)" "\<And>x. monotone e0 (f x)"
  shows "spec e0 Q R (bind_p m f e)"
proof (cases "m e" rule: outcome_cases)
  case (Ok x t)
  then show ?thesis using assms(1) monotoneD [OF assms(2) [of x]] by (auto simp: spec_def bind_p_def)
qed (use assms in \<open>auto simp: spec_def bind_p_def\<close>)

lemma spec_seq:
  assumes "spec e0 (\<lambda>_ e'. spec e0 Q R (n e')) R (m e)" "monotone e0 n"
  shows "spec e0 Q R (seq_p m n e)"
  unfolding seq_p_def by (rule spec_bind) (use assms in auto)

lemma spec_attempt:
  assumes "spec e0 (\<lambda>x. Q (Ok x)) (\<lambda>er. Q (Err er)) (m e)"
  shows "spec e0 Q R (attempt m e)"
  using assms by (cases "m e" rule: outcome_cases) (auto simp: spec_def attempt_def)

section \<open>States during a turn\<close>

definition later :: "'w engine \<Rightarrow> 'w engine \<Rightarrow> bool" where
  "later e e' \<longleftrightarrow> reconcile_epoch e' = reconcile_epoch e \<and> mutations e \<le> mutations e'
     \<and> epoch e' = epoch e + of_nat (mutations e' - mutations e)"

text \<open>Runs of \<open>X\<close> may be gone, and no other; none is new, and flags are only raised.\<close>

definition shrinks :: "string set \<Rightarrow> state \<Rightarrow> state \<Rightarrow> bool" where
  "shrinks X s t \<longleftrightarrow> set (bm_keys (s_runs t)) \<subseteq> set (bm_keys (s_runs s))
     \<and> set (bm_keys (s_runs s)) - X \<subseteq> set (bm_keys (s_runs t))
     \<and> (\<forall>k r r'. bm_get (s_runs s) k = Some r \<longrightarrow> bm_get (s_runs t) k = Some r' \<longrightarrow> run_le r r')"

text \<open>Nothing durable changed but for runs that are gone.\<close>

definition steady :: "state \<Rightarrow> state \<Rightarrow> bool" where
  "steady s t \<longleftrightarrow> durable (t\<lparr>s_runs := []\<rparr>) = durable (s\<lparr>s_runs := []\<rparr>)
     \<and> (\<forall>k r r'. bm_get (s_runs s) k = Some r \<longrightarrow> bm_get (s_runs t) k = Some r' \<longrightarrow>
          durable_run r' = durable_run r)"

definition turned :: "string set \<Rightarrow> 'w engine \<Rightarrow> 'w engine \<Rightarrow> bool" where
  "turned X e e' \<longleftrightarrow> wf_engine e' \<and> later e e' \<and> shrinks X (st e) (st e')
     \<and> (mutations e' = mutations e \<longrightarrow> steady (st e) (st e'))"

text \<open>
  A failed save leaves memory ahead of the store, and a failed deletion leaves memory without the
  pool; both only happen when no request interfered.
\<close>

definition broken :: "string \<Rightarrow> 'w engine \<Rightarrow> error \<Rightarrow> 'w engine \<Rightarrow> bool" where
  "broken name e er e' \<longleftrightarrow> mutations e' = mutations e \<and> (\<exists>s. row e' = Some s \<and> wf_state s)
     \<and> (wf_state (st e') \<or> er \<noteq> ReconcileInterrupted \<and> bm_get (s_pools (st e')) name = None)"

text \<open>
  The runs of \<open>t\<close> are runs of \<open>s\<close> and at most one new run, which only a pool gets that is running,
  is not being deleted, and has no more runs than replicas with it, while the manager has no more
  than its limit.
\<close>

definition fits :: "state \<Rightarrow> state \<Rightarrow> bool" where
  "fits s t \<longleftrightarrow> set (bm_keys (s_runs t)) \<subseteq> set (bm_keys (s_runs s))
     \<or> (\<exists>rid r name ps. set (bm_keys (s_runs t)) \<subseteq> insert rid (set (bm_keys (s_runs s)))
          \<and> bm_get (s_runs t) rid = Some r \<and> run_phase r = ''creating'' \<and> \<not> run_retiring r
          \<and> \<not> run_force r
          \<and> length (s_runs t) \<le> unat (mg_max_runners (cfg_manager (s_config t)))
          \<and> find_pool name (s_config t) = Some (run_pool r)
          \<and> bm_get (s_pools t) name = Some ps \<and> run_pool_id r = ps_id ps
          \<and> run_generation r = ps_generation ps \<and> ps_running ps \<and> \<not> ps_deleting ps
          \<and> length (pool_runs (ps_id ps) t) \<le> unat (pl_replicas (run_pool r)))"

definition failed :: "string \<Rightarrow> 'w engine \<Rightarrow> error \<Rightarrow> 'w engine \<Rightarrow> bool" where
  "failed name e er e' \<longleftrightarrow> later e e' \<and> fits (st e) (st e') \<and> (wf_engine e' \<or> broken name e er e')"

lemma later_refl [simp]: "later e e"
  by (simp add: later_def)

lemma later_trans:
  assumes "later a b" "later b c"
  shows "later a c"
proof -
  have "mutations c - mutations a = (mutations b - mutations a) + (mutations c - mutations b)"
    using assms by (simp add: later_def)
  then show ?thesis using assms by (simp add: later_def)
qed

lemma calm_later: "calm e e' \<Longrightarrow> later e e'"
  by (simp add: calm_def later_def)

lemma steady_refl [simp]: "steady s s"
  by (simp add: steady_def)

lemma durable_runs_empty: "durable s = durable t \<Longrightarrow> durable (s\<lparr>s_runs := []\<rparr>) = durable (t\<lparr>s_runs := []\<rparr>)"
  by (cases s; cases t) (simp add: durable_def)

lemma durable_get_run:
  assumes "durable s = durable t" "bm_get (s_runs s) k = Some r"
  shows "\<exists>r'. bm_get (s_runs t) k = Some r' \<and> durable_run r' = durable_run r"
proof -
  have "map_option durable_run (bm_get (s_runs t) k) = Some (durable_run r)"
    using assms durable_get(1) [of s k] durable_get(1) [of t k] by simp
  then show ?thesis by auto
qed

lemma durable_steady:
  assumes "durable t = durable s"
  shows "steady s t"
proof -
  have "durable_run r' = durable_run r"
    if "bm_get (s_runs s) k = Some r" "bm_get (s_runs t) k = Some r'" for k r r'
    using durable_get_run [OF assms that(2)] that(1) by auto
  then show ?thesis using durable_runs_empty [OF assms] by (simp add: steady_def)
qed

lemma intent_le_shrinks: "intent_le s t \<Longrightarrow> shrinks X s t"
  by (fastforce simp: intent_le_def shrinks_def)

lemma shrinks_trans:
  assumes "shrinks X a b" "shrinks Y b c"
  shows "shrinks (X \<union> Y) a c"
proof -
  have "run_le r r''" if r: "bm_get (s_runs a) k = Some r" "bm_get (s_runs c) k = Some r''" for k r r''
  proof -
    have "k \<in> set (bm_keys (s_runs b))"
      using assms(2) bm.lookup_in_keys [OF r(2)] by (auto simp: shrinks_def)
    then obtain r' where "bm_get (s_runs b) k = Some r'" using bm.in_keys_lookup by blast
    then show ?thesis using assms r run_le_trans by (fastforce simp: shrinks_def)
  qed
  then show ?thesis using assms by (auto simp: shrinks_def)
qed

lemma steady_trans:
  assumes "steady a b" "steady b c" "set (bm_keys (s_runs c)) \<subseteq> set (bm_keys (s_runs b))"
  shows "steady a c"
proof -
  have "durable_run r'' = durable_run r"
    if r: "bm_get (s_runs a) k = Some r" "bm_get (s_runs c) k = Some r''" for k r r''
  proof -
    obtain r' where "bm_get (s_runs b) k = Some r'"
      using assms(3) bm.lookup_in_keys [OF r(2)] bm.in_keys_lookup by blast
    then show ?thesis using assms(1,2) r by (fastforce simp: steady_def)
  qed
  then show ?thesis using assms by (simp add: steady_def)
qed

lemma turned_trans:
  assumes "turned X a b" "turned Y b c"
  shows "turned (X \<union> Y) a c"
proof -
  have m: "mutations c = mutations a \<Longrightarrow> mutations b = mutations a \<and> mutations c = mutations b"
    using assms by (simp add: turned_def later_def)
  have "set (bm_keys (s_runs (st c))) \<subseteq> set (bm_keys (s_runs (st b)))"
    using assms(2) by (simp add: turned_def shrinks_def)
  then show ?thesis
    using assms m later_trans shrinks_trans steady_trans
    unfolding turned_def by blast
qed

lemma calm_turned: "calm e e' \<Longrightarrow> turned X e e'"
  using calm_later [of e e'] intent_le_shrinks [of "st e" "st e'" X] durable_steady [of "st e'" "st e"]
  unfolding calm_def turned_def by blast

lemma turned_refl: "wf_engine e \<Longrightarrow> turned X e e"
  using calm_turned [OF calm_refl] .

lemma shrinks_fits: "shrinks X s t \<Longrightarrow> fits s t"
  by (simp add: shrinks_def fits_def)

lemma turned_failed: "turned X e e' \<Longrightarrow> failed name e er e'"
  using shrinks_fits [of X "st e" "st e'"] by (simp add: turned_def failed_def)

lemma turned_calm: "turned X e0 e \<Longrightarrow> calm e e' \<Longrightarrow> turned X e0 e'"
  using turned_trans [of X e0 e "{}" e'] calm_turned [of e e' "{}"] by simp

text \<open>A new memory with the same durable part.\<close>

lemma turned_observe:
  assumes "turned X e0 e" "wf_state s" "durable s = durable (st e)"
  shows "turned X e0 (e\<lparr>st := s\<rparr>)"
proof -
  have "calm e (e\<lparr>st := s\<rparr>)"
    using assms durable_intent_le [of "st e" s] by (auto simp: calm_def turned_def wf_engine_def)
  then show ?thesis using turned_calm assms(1) by blast
qed

lemma turned_cong [simp]:
  "turned X e0 (e\<lparr>world := w\<rparr>) = turned X e0 e" "turned X e0 (e\<lparr>boot_time := b\<rparr>) = turned X e0 e"
  by (simp_all add: turned_def later_def wf_engine_def)

lemma turned_save:
  assumes "turned X e0 e"
  shows "post (\<lambda>_ e'. turned X e0 e' \<and> st e' = st e \<and> mutations e' = mutations e)
     (\<lambda>_ e'. turned X e0 e' \<and> st e' = st e \<and> mutations e' = mutations e) (save E e)"
  using assms by (auto simp: post_save turned_def later_def wf_engine_def split: option.split)

section \<open>External operations within a turn\<close>

definition begun :: "'w env \<Rightarrow> 'w engine \<Rightarrow> bool" where
  "begun E e0 \<longleftrightarrow> reads_ok E \<and> reconcile_epoch e0 = Some (epoch e0)"

lemmas calm_ops =
  calm.keeps_image calm.keeps_list calm.keeps_create calm.keeps_start calm.keeps_remove
  calm.keeps_repair calm.keeps_boot_time calm.keeps_logs calm.keeps_archive calm.keeps_gh_list
  calm.keeps_gh_token calm.keeps_gh_remove

lemma calm_futures [simp]:
  "calm_future E (docker_image E img)" "calm_future E (docker_list E mgr)"
  "calm_future E (docker_create E mgr r)" "calm_future E (docker_start E rid)"
  "calm_future E (docker_remove E rid force)" "calm_future E (repair_runtime_permissions E r)"
  "calm_future E (docker_boot_time E img)" "calm_future E (docker_logs E rid)"
  "calm_future E (docker_archive E rid)" "calm_future E (gh_list E profile a scope ttl)"
  "calm_future E (gh_token E profile a scope)" "calm_future E (gh_remove E profile a scope i)"
  by (simp_all add: calm_future_def calm_ops)

lemma wrapped_later: "wrapped e0 e \<Longrightarrow> mutations e \<le> mutations e' \<Longrightarrow> wrapped e0 e'"
  by (simp add: wrapped_def)

lemma uninterrupted:
  assumes "begun E e0" "later e0 e" "\<not> interrupted e"
  shows "mutations e = mutations e0 \<or> wrapped e0 e"
  using assms same_epoch [of e e0] by (simp add: begun_def later_def interrupted_def)

lemma external_turn:
  assumes b: "begun E e0" and c: "calm_future E m" and t: "turned X e0 e"
  shows "spec e0 (\<lambda>_ e'. turned X e0 e' \<and> calm e e' \<and> mutations e' = mutations e0)
    (\<lambda>er e'. turned X e0 e' \<and> calm e e'
       \<and> (er \<noteq> ReconcileInterrupted \<longrightarrow> mutations e' = mutations e0)) (external m e)"
proof -
  have later: "later e0 e" using t by (simp add: turned_def)
  have "reads_ok E" "wf_engine e" "reconcile_epoch e \<noteq> None"
    using b t by (auto simp: begun_def turned_def later_def)
  note step = external_step [OF c this]
  have "wrapped e0 e' \<or> mutations e' = mutations e0"
    if "calm e e'" "mutations e' = mutations e \<or> wrapped e e'" "\<not> interrupted e" for e'
    using that uninterrupted [OF b later] later by (auto simp: wrapped_def calm_def later_def)
  then show ?thesis
    using step turned_calm [OF t] unfolding spec_def
    by (cases "external m e" rule: outcome_cases) auto
qed

section \<open>Holding a run\<close>

text \<open>The run at \<open>rid\<close> is \<open>r\<close> but for observations.\<close>

definition holding :: "string set \<Rightarrow> 'w engine \<Rightarrow> string \<Rightarrow> run \<Rightarrow> 'w engine \<Rightarrow> bool" where
  "holding X e0 rid r e \<longleftrightarrow> turned X e0 e
     \<and> (\<exists>r0. bm_get (s_runs (st e)) rid = Some r0 \<and> durable_run r0 = durable_run r)"

lemma holding_turned: "holding X e0 rid r e \<Longrightarrow> turned X e0 e"
  by (simp add: holding_def)

lemma holding_cong [simp]:
  "holding X e0 rid r (e\<lparr>world := w\<rparr>) = holding X e0 rid r e"
  "holding X e0 rid r (e\<lparr>boot_time := b\<rparr>) = holding X e0 rid r e"
  by (simp_all add: holding_def)

lemma holding_durable: "durable_run r = durable_run r' \<Longrightarrow> holding X e0 rid r e \<Longrightarrow> holding X e0 rid r' e"
  by (simp add: holding_def)

lemma external_hold:
  assumes "begun E e0" "calm_future E m" "holding X e0 rid r e"
  shows "spec e0 (\<lambda>_ e'. holding X e0 rid r e' \<and> mutations e' = mutations e0)
    (\<lambda>er e'. turned X e0 e' \<and>
       (er \<noteq> ReconcileInterrupted \<longrightarrow> holding X e0 rid r e' \<and> mutations e' = mutations e0))
    (external m e)"
proof -
  have keep: "holding X e0 rid r e'"
    if "turned X e0 e'" "calm e e'" "mutations e' = mutations e0" for e'
  proof -
    have "mutations e' = mutations e"
      using assms(3) that by (simp add: holding_def turned_def later_def calm_def)
    then have "durable (st e) = durable (st e')" using that by (simp add: calm_def)
    then show ?thesis using that assms(3) durable_get_run by (fastforce simp: holding_def)
  qed
  show ?thesis
    by (rule spec_mono [OF external_turn [OF assms(1,2) holding_turned [OF assms(3)]]])
      (auto intro: keep)
qed

lemma bm_insert_durable:
  assumes "bm_invar m" "bm_get m k = Some v" "f v' = f v"
  shows "map (\<lambda>(n, v). (n, f v)) (bm_insert k v' m) = map (\<lambda>(n, v). (n, f v)) m"
  using assms
proof (induction m)
  case Nil
  then show ?case by simp
next
  case (Cons x xs)
  obtain n w where x: "x = (n, w)" by (cases x)
  show ?case
  proof (cases "k = n")
    case True
    then show ?thesis using Cons.prems x by simp
  next
    case False
    then have mem: "bm_get xs k = Some v" using Cons.prems x by simp
    then have "(k, v) \<in> set xs" by (rule map_of_SomeD)
    moreover have "sorted_wrt (<) (map fst (x # xs))" using Cons.prems by (simp add: bm_invar_def bm_keys_def)
    ultimately have "n < k" "bm_invar xs" using x by (auto simp: bm_invar_def bm_keys_def)
    then show ?thesis using Cons.IH mem Cons.prems x False by simp
  qed
qed

lemma put_durable:
  assumes "wf_state s" "bm_get (s_runs s) rid = Some r0" "durable_run r0 = durable_run r"
  shows "durable (put_run rid r s) = durable s" "wf_state (put_run rid r s)"
proof -
  have inv: "bm_invar (s_runs s)" using assms(1) by (simp add: wf_state_def wf_runs_def)
  show "durable (put_run rid r s) = durable s"
    using bm_insert_durable [OF inv assms(2), of durable_run r] assms(3)
    by (simp add: durable_def put_run_def)
  have "run_id r = rid" "run_pool_id r \<in> pool_ids s"
    using wf_runD [OF assms(1,2)] assms(3) durable_run_sel(1,2) by metis+
  then show "wf_state (put_run rid r s)"
    using wf_insert_run [OF assms(1), of r] by (simp add: insert_run_def put_run_def)
qed

lemma put_hold:
  assumes "holding X e0 rid r e" "durable_run r' = durable_run r"
  shows "holding X e0 rid r' (e\<lparr>st := put_run rid r' (st e)\<rparr>)"
proof -
  obtain r0 where r0: "bm_get (s_runs (st e)) rid = Some r0" "durable_run r0 = durable_run r'"
    using assms by (auto simp: holding_def)
  have wf: "wf_state (st e)" using assms(1) by (simp add: holding_def turned_def wf_engine_def)
  have "turned X e0 (e\<lparr>st := put_run rid r' (st e)\<rparr>)"
    using turned_observe [OF holding_turned [OF assms(1)] put_durable(2,1) [OF wf r0]] .
  then show ?thesis by (simp add: holding_def put_run_def)
qed

lemma save_hold:
  assumes "holding X e0 rid r e"
  shows "post (\<lambda>_ e'. holding X e0 rid r e' \<and> mutations e' = mutations e) (\<lambda>_. turned X e0) (save E e)"
  by (rule post_mono [OF turned_save [OF holding_turned [OF assms], of E]])
    (use assms in \<open>auto simp: holding_def\<close>)

lemma durable_observed [simp]:
  "durable_run (with_phase ph r) = durable_run r"
  "durable_run (r\<lparr>run_log_saved := l\<rparr>) = durable_run r"
  "durable_run (r\<lparr>run_completed_job := c\<rparr>) = durable_run r"
  "durable_run (r\<lparr>run_remote_id := i\<rparr>) = durable_run r"
  "durable_run (observe_remote remote r) = durable_run r"
  by (simp_all add: durable_run_def with_phase_def observe_remote_def split: option.split)

section \<open>The steps on one run\<close>

text \<open>
  \<open>gives\<close>: from a state with \<open>H\<close>, return with \<open>Q\<close> or fail with \<open>T\<close>; \<open>stays\<close> when \<open>Q\<close> is \<open>H\<close> again.
\<close>

definition gives :: "'w engine \<Rightarrow> ('w engine \<Rightarrow> bool) \<Rightarrow> ('a \<Rightarrow> 'w engine \<Rightarrow> bool)
    \<Rightarrow> (error \<Rightarrow> 'w engine \<Rightarrow> bool) \<Rightarrow> ('w, 'a) act \<Rightarrow> bool" where
  "gives e0 H Q T m \<longleftrightarrow> (\<forall>e. H e \<longrightarrow> spec e0 Q T (m e))"

abbreviation stays :: "'w engine \<Rightarrow> ('w engine \<Rightarrow> bool) \<Rightarrow> (error \<Rightarrow> 'w engine \<Rightarrow> bool)
    \<Rightarrow> ('w, 'a) act \<Rightarrow> bool" where
  "stays e0 H T m \<equiv> gives e0 H (\<lambda>_. H) T m"

named_theorems stays_intros \<open>programs that stay within an assertion\<close>

lemma givesI: "(\<And>e. H e \<Longrightarrow> post Q T (m e)) \<Longrightarrow> gives e0 H Q T m"
  by (simp add: gives_def spec_post)

lemma givesD: "gives e0 H Q T m \<Longrightarrow> H e \<Longrightarrow> spec e0 Q T (m e)"
  by (simp add: gives_def)

lemma gives_mono:
  assumes "gives e0 H Q T m" "\<And>e. H' e \<Longrightarrow> H e" "\<And>x e. Q x e \<Longrightarrow> Q' x e" "\<And>er e. T er e \<Longrightarrow> T' er e"
  shows "gives e0 H' Q' T' m"
  unfolding gives_def by (intro allI impI spec_mono [OF givesD [OF assms(1)]]) (auto intro: assms)

lemma gives_ret [stays_intros]: "(\<And>e. H e \<Longrightarrow> Q x e) \<Longrightarrow> gives e0 H Q T (ret x)"
  by (rule givesI) simp

lemma stays_reads [stays_intros]: "stays e0 H T (reads f)"
  by (rule givesI) simp

lemma gives_throw [stays_intros]: "(\<And>e. H e \<Longrightarrow> T er e) \<Longrightarrow> gives e0 H Q T (throw er)"
  by (rule givesI) simp

lemma gives_bind_dep:
  assumes "gives e0 H P T m" "\<And>x. gives e0 (P x) Q T (f x)" "\<And>x. monotone e0 (f x)"
  shows "gives e0 H Q T (bind_p m f)"
  unfolding gives_def
proof (intro allI impI spec_bind [OF _ assms(3)])
  fix e assume "H e"
  then show "spec e0 (\<lambda>x e'. spec e0 Q T (f x e')) T (m e)"
    by (intro spec_mono [OF givesD [OF assms(1)]]) (auto intro: givesD [OF assms(2)])
qed

lemma gives_bind:
  "stays e0 H T m \<Longrightarrow> (\<And>x. gives e0 H Q T (f x)) \<Longrightarrow> (\<And>x. monotone e0 (f x)) \<Longrightarrow>
     gives e0 H Q T (bind_p m f)"
  by (rule gives_bind_dep)

lemma gives_seq:
  "stays e0 H T m \<Longrightarrow> gives e0 H Q T n \<Longrightarrow> monotone e0 n \<Longrightarrow> gives e0 H Q T (seq_p m n)"
  unfolding seq_p_def by (rule gives_bind)

lemma gives_seq_dep:
  "gives e0 H (\<lambda>_. P) T m \<Longrightarrow> gives e0 P Q T n \<Longrightarrow> monotone e0 n \<Longrightarrow> gives e0 H Q T (seq_p m n)"
  unfolding seq_p_def by (rule gives_bind_dep)

text \<open>An error becomes a value.\<close>

lemma gives_attempt:
  assumes "gives e0 H (\<lambda>x. Q (Ok x)) T m" "\<And>er e. T er e \<Longrightarrow> Q (Err er) e"
  shows "gives e0 H Q T' (attempt m)"
  unfolding gives_def
  by (intro allI impI spec_attempt spec_mono [OF givesD [OF assms(1)]]) (auto intro: assms(2))

lemma gives_if [stays_intros]:
  "(b \<Longrightarrow> gives e0 H Q T m) \<Longrightarrow> (\<not> b \<Longrightarrow> gives e0 H Q T n) \<Longrightarrow> gives e0 H Q T (if b then m else n)"
  by simp

lemma stays_when [stays_intros]: "(b \<Longrightarrow> stays e0 H T m) \<Longrightarrow> stays e0 H T (when_p b m)"
  by (simp add: when_p_def gives_ret)

lemma gives_option [stays_intros]:
  "gives e0 H Q T m \<Longrightarrow> (\<And>x. gives e0 H Q T (f x)) \<Longrightarrow>
     gives e0 H Q T (case v of None \<Rightarrow> m | Some x \<Rightarrow> f x)"
  by (cases v) auto

text \<open>Operations of the world, and external ones, stay with a held run.\<close>

definition held :: "string set \<Rightarrow> 'w engine \<Rightarrow> string \<Rightarrow> run \<Rightarrow> bool \<Rightarrow> 'w engine \<Rightarrow> bool" where
  "held X e0 rid r quiet e \<longleftrightarrow> holding X e0 rid r e \<and> (quiet \<longrightarrow> mutations e = mutations e0)"

lemma held_turned: "held X e0 rid r q e \<Longrightarrow> turned X e0 e"
  unfolding held_def using holding_turned by blast

lemma held_cong [simp]:
  "held X e0 rid r q (e\<lparr>world := w\<rparr>) = held X e0 rid r q e"
  "held X e0 rid r q (e\<lparr>boot_time := b\<rparr>) = held X e0 rid r q e"
  by (simp_all add: held_def)

lemma stays_ask [stays_intros]: "stays e0 (held X e0 rid r q) T (ask f)"
  by (rule givesI) simp

lemma stays_perform [stays_intros]:
  "stays e0 (held X e0 rid r q) (\<lambda>_. turned X e0) (perform f)"
  by (rule givesI) (auto split: option.split dest: held_turned)

lemma stays_save [stays_intros]:
  "stays e0 (held X e0 rid r q) (\<lambda>_. turned X e0) (save E)"
  by (rule givesI, rule post_mono [OF save_hold]) (auto simp: held_def)

lemma external_held:
  assumes "begun E e0" "calm_future E m" "held X e0 rid r q e"
  shows "spec e0 (\<lambda>_. held X e0 rid r True) (\<lambda>_. turned X e0) (external m e)"
  by (rule spec_mono [OF external_hold [OF assms(1,2), of X rid r e]])
    (use assms(3) in \<open>auto simp: held_def\<close>)

lemma held_weaken: "held X e0 rid r True e \<Longrightarrow> held X e0 rid r q e"
  by (simp add: held_def)

lemma stays_external:
  assumes "begun E e0" "calm_future E m"
  shows "stays e0 (held X e0 rid r q) (\<lambda>_. turned X e0) (external m)"
  unfolding gives_def
  by (intro allI impI spec_mono [OF external_held [OF assms]]) (auto intro: held_weaken)

lemma stays_put [stays_intros]:
  assumes "durable_run r' = durable_run r"
  shows "stays e0 (held X e0 rid r q) T (set_st_with (put_run rid r'))"
proof (rule givesI)
  fix e assume h: "held X e0 rid r q e"
  then have "holding X e0 rid r' (e\<lparr>st := put_run rid r' (st e)\<rparr>)"
    by (intro put_hold [OF _ assms]) (simp add: held_def)
  from holding_durable [OF assms this] show "post (\<lambda>_. held X e0 rid r q) T (set_st_with (put_run rid r') e)"
    using h by (simp add: held_def)
qed

section \<open>Archiving and cleaning up\<close>

lemma archive_held:
  assumes b: "begun E e0" and rid: "run_id r = rid"
  shows "gives e0 (held X e0 rid r q) (\<lambda>r' e'. held X e0 rid r q e' \<and> durable_run r' = durable_run r
      \<and> run_completed_job r' = run_completed_job r) (\<lambda>_. turned X e0) (archive E r c)"
  unfolding archive_def rid Let_def
  by (intro gives_bind gives_seq stays_external [OF b] stays_intros keeps_intros) simp_all

lemma stays_boot [stays_intros]: "stays e0 (held X e0 rid r q) T (set_boot_time b)"
  by (rule givesI) (simp add: set_boot_time_def)

lemma reboot_held:
  assumes b: "begun E e0"
  shows "stays e0 (held X e0 rid r q) (\<lambda>_. turned X e0) (stopped_by_reboot E c img)"
proof -
  let ?H = "held X e0 rid r q"
  let ?note = "\<lambda>r. (case r of Ok b \<Rightarrow> set_boot_time b
      | Err err \<Rightarrow> (if err = ReconcileInterrupted then throw err else ret ()) | Panic p \<Rightarrow> ret ())"
  have "stays e0 ?H (\<lambda>_. turned X e0) (bind_p (attempt (external (docker_boot_time E img))) ?note)"
    unfolding gives_def
  proof (intro allI impI spec_bind spec_attempt)
    fix e assume "?H e"
    then have "holding X e0 rid r e" by (simp add: held_def)
    then show "spec e0 (\<lambda>x e'. spec e0 (\<lambda>_. ?H) (\<lambda>_. turned X e0) (?note (Ok x) e'))
        (\<lambda>er e'. spec e0 (\<lambda>_. ?H) (\<lambda>_. turned X e0) (?note (Err er) e'))
        (external (docker_boot_time E img) e)"
      by (rule spec_mono [OF external_hold [OF b calm_futures(7)]])
        (auto simp: held_def set_boot_time_def intro!: spec_post)
  qed (intro keeps_intros)
  note probe = this
  show ?thesis
    unfolding stopped_by_reboot_def
    by (rule gives_bind [OF stays_reads gives_seq [OF stays_when [OF probe]]])
      (intro gives_bind stays_intros keeps_intros; simp)+
qed

lemma cleanup_held:
  assumes b: "begun E e0" and rid: "run_id r = rid"
  shows "gives e0 (held X e0 rid r q)
     (\<lambda>outcome e'. case outcome of Ok (r', _) \<Rightarrow> held X e0 rid r' True e' \<and> durable_run r' = durable_run r
        | Err _ \<Rightarrow> turned X e0 e' | Panic _ \<Rightarrow> False)
     (\<lambda>_. turned X e0) (cleanup_container E rid r c)"
proof -
  let ?H = "held X e0 rid r q"
  have tail: "gives e0 ?H (\<lambda>outcome e'. case outcome of
        Ok (r', _) \<Rightarrow> held X e0 rid r' True e' \<and> durable_run r' = durable_run r
      | Err _ \<Rightarrow> turned X e0 e' | Panic _ \<Rightarrow> False) (\<lambda>_. turned X e0)
      (attempt (bind_p (archive E r2 c) (\<lambda>r3.
        seq_p (external (docker_remove E rid False)) (ret (r3, reboot)))))"
    if d: "durable_run r2 = durable_run r" for r2 reboot
  proof (rule gives_attempt)
    have id: "run_id r2 = rid" using d rid durable_run_sel(1) by metis
    have arch: "gives e0 ?H (\<lambda>r3 e'. ?H e' \<and> durable_run r3 = durable_run r) (\<lambda>_. turned X e0) (archive E r2 c)"
      by (rule gives_mono [OF archive_held [OF b id, of X q c]])
        (use d in \<open>auto simp: held_def holding_def\<close>)
    have rem: "gives e0 (\<lambda>e'. ?H e' \<and> durable_run r3 = durable_run r)
        (\<lambda>_ e'. held X e0 rid r True e' \<and> durable_run r3 = durable_run r) (\<lambda>_. turned X e0)
        (external (docker_remove E rid False))" for r3
      unfolding gives_def
      by (auto intro!: spec_mono [OF external_held [OF b calm_futures(5)]])
    show "gives e0 ?H (\<lambda>x e'. case Ok x of
        Ok (r', _) \<Rightarrow> held X e0 rid r' True e' \<and> durable_run r' = durable_run r
      | Err _ \<Rightarrow> turned X e0 e' | Panic _ \<Rightarrow> False) (\<lambda>_. turned X e0)
      (bind_p (archive E r2 c) (\<lambda>r3. seq_p (external (docker_remove E rid False)) (ret (r3, reboot))))"
      by (rule gives_bind_dep [OF arch gives_seq_dep [OF rem]])
        (auto simp: held_def holding_def intro!: gives_ret keeps_intros)
  qed simp
  show ?thesis
    unfolding cleanup_container_def Let_def
    by (intro gives_bind gives_seq reboot_held [OF b] tail stays_intros keeps_intros) simp_all
qed

section \<open>Settling\<close>

lemma deregister_held:
  assumes b: "begun E e0"
  shows "gives e0 (held X e0 rid r q) (\<lambda>_. held X e0 rid r True) (\<lambda>_. turned X e0) (deregister E cx rid)"
proof -
  have list: "gives e0 (held X e0 rid r q) (\<lambda>_. held X e0 rid r True) (\<lambda>_. turned X e0)
      (external (gh_list E profile a scope 0))" for profile a scope
    unfolding gives_def by (intro allI impI external_held [OF b]) simp_all
  show ?thesis
    unfolding deregister_def
    by (rule gives_bind_dep [OF list])
      (intro stays_intros stays_external [OF b] keeps_intros; simp)+
qed

lemma remove_directory_held:
  assumes b: "begun E e0"
  shows "stays e0 (held X e0 rid r True) (\<lambda>_. turned X e0) (remove_directory E rid r')"
  unfolding remove_directory_def Let_def
  by (intro gives_bind gives_seq stays_intros stays_external [OF b] keeps_intros)
    (auto dest: held_turned)

lemma steady_pool:
  assumes "steady s t" "bm_get (s_pools s) n = Some ps"
  shows "\<exists>ps'. bm_get (s_pools t) n = Some ps' \<and> durable_pool ps' = durable_pool ps"
proof -
  have "bm_get (s_pools (durable (s\<lparr>s_runs := []\<rparr>))) n = bm_get (s_pools (durable (t\<lparr>s_runs := []\<rparr>))) n"
    using assms(1) by (simp add: steady_def)
  then show ?thesis using assms(2) by (cases "bm_get (s_pools t) n") simp_all
qed

lemma steady_config:
  assumes "steady s t"
  shows "s_config t = s_config s" "s_manager_id t = s_manager_id s" "s_revision t = s_revision s"
    "s_file_hash t = s_file_hash s" "bm_keys (s_pools t) = bm_keys (s_pools s)"
proof -
  have d: "durable (t\<lparr>s_runs := []\<rparr>) = durable (s\<lparr>s_runs := []\<rparr>)" using assms by (simp add: steady_def)
  show "s_config t = s_config s" "s_manager_id t = s_manager_id s" "s_revision t = s_revision s"
    "s_file_hash t = s_file_hash s"
    using arg_cong [OF d, of s_config] arg_cong [OF d, of s_manager_id]
      arg_cong [OF d, of s_revision] arg_cong [OF d, of s_file_hash] by simp_all
  show "bm_keys (s_pools t) = bm_keys (s_pools s)"
    using arg_cong [OF d, of "\<lambda>x. bm_keys (s_pools x)"] durable_keys(2) [of "t\<lparr>s_runs := []\<rparr>"]
      durable_keys(2) [of "s\<lparr>s_runs := []\<rparr>"] by simp
qed

text \<open>
  The loop's assertion: as long as no error was collected, no request interfered.
\<close>

definition quiet :: "string set \<Rightarrow> 'w engine \<Rightarrow> progress \<Rightarrow> 'w engine \<Rightarrow> bool" where
  "quiet X e0 acc e \<longleftrightarrow> turned X e0 e \<and> (snd acc = None \<longrightarrow> mutations e = mutations e0)"

lemma keep_first_None [simp]: "keep_first old new \<noteq> None"
  by (simp add: keep_first_def split: option.split)

lemma remove_shrinks: "shrinks X s t \<Longrightarrow> shrinks (insert rid X) s (remove_run rid t)"
  by (auto simp: shrinks_def remove_run_def bm.keys_delete split: if_splits)

lemma remove_steady: "steady s t \<Longrightarrow> steady s (remove_run rid t)"
  by (auto simp: steady_def remove_run_def split: if_splits)

lemma durable_update_pool:
  assumes "\<And>p. durable_pool (f p) = durable_pool p"
  shows "durable (update_pool n f s) = durable s"
  by (simp add: durable_def update_pool_def bm_update_def comp_def case_prod_beta assms
      cong: map_cong if_cong)

lemma turned_save_removed:
  assumes t: "turned X e0 e" and m: "mutations e = mutations e0"
  shows "post (\<lambda>_ e'. turned (insert rid X) e0 e' \<and> mutations e' = mutations e0) (failed name e0)
    (save E (e\<lparr>st := remove_run rid (st e)\<rparr>))"
proof -
  have wf: "wf_state (remove_run rid (st e))"
    using t by (intro wf_remove_run) (simp add: turned_def wf_engine_def)
  have sh: "shrinks (insert rid X) (st e0) (remove_run rid (st e))" "steady (st e0) (remove_run rid (st e))"
    using t m remove_shrinks remove_steady by (auto simp: turned_def)
  show ?thesis
    using t m wf sh
    by (auto simp: post_save turned_def failed_def broken_def later_def wf_engine_def
        intro: shrinks_fits split: option.split)
qed

lemma forget_held:
  assumes p0: "bm_get (s_pools (st e0)) (cx_name cx) = Some p0" and h: "held X e0 rid r True e"
  shows "post (\<lambda>_ e'. turned (insert rid X) e0 e' \<and> mutations e' = mutations e0)
    (failed name e0) (forget_run E cx rid r e)"
proof -
  have t: "turned X e0 e" by (rule held_turned [OF h])
  have m: "mutations e = mutations e0" using h by (simp add: held_def)
  then have "steady (st e0) (st e)" using t by (simp add: turned_def)
  then obtain p where p: "bm_get (s_pools (st e)) (cx_name cx) = Some p"
    using steady_pool p0 by blast
  let ?s = "update_pool (cx_name cx) reset_failures (st e)"
  have "wf_state ?s" using t by (intro wf_update_pool) (simp_all add: turned_def wf_engine_def reset_failures_def)
  moreover have "durable ?s = durable (st e)"
    by (rule durable_update_pool) (simp add: durable_pool_def reset_failures_def)
  ultimately have t': "turned X e0 (e\<lparr>st := ?s\<rparr>)" using turned_observe [OF t] by blast
  show ?thesis
    using turned_save_removed [OF t m, of rid name E] turned_save_removed [OF t', of rid name E] m p
    by (simp add: forget_run_def post_give)
qed

lemma settle_turned:
  assumes b: "begun E e0" and p0: "bm_get (s_pools (st e0)) (cx_name cx) = Some p0"
    and rid: "run_id r = rid"
  shows "gives e0 (held X e0 rid r (snd acc = None)) (quiet (insert rid X) e0) (failed (cx_name cx) e0)
     (settle E cx rid r container acc)"
proof -
  let ?T = "turned (insert rid X) e0"
  let ?F = "failed (cx_name cx) e0"
  have up: "turned X e0 e \<Longrightarrow> ?T e" for e
    using turned_trans [of X e0 e "{rid}" e] turned_refl [of e "{rid}"]
    by (simp add: turned_def [of X])
  have forget: "gives e0 (held X e0 rid r' True) (quiet (insert rid X) e0) ?F
      (seq_p (forget_run E cx rid r') (ret x))" for r' x
    by (rule givesI) (simp, rule post_mono [OF forget_held [OF p0]], auto simp: quiet_def)
  have collect: "turned X e0 e \<Longrightarrow> quiet (insert rid X) e0 (n, keep_first old new) e" for n old new e
    using up by (simp add: quiet_def)
  have release: "gives e0 (held X e0 rid r' False) (\<lambda>res e'. case res of
        Ok _ \<Rightarrow> held X e0 rid r' True e' | Err _ \<Rightarrow> turned X e0 e' | Panic _ \<Rightarrow> False) ?F
      (attempt (seq_p (deregister E cx rid) (remove_directory E rid r')))" for r'
    by (rule gives_attempt [OF gives_seq_dep [OF deregister_held [OF b]]])
      (simp_all add: remove_directory_held [OF b] wrapped.remove_directory_calls)
  have rest: "gives e0 (held X e0 rid r' False) (quiet (insert rid X) e0) ?F
      (bind_p (attempt (seq_p (deregister E cx rid) (remove_directory E rid r'))) (\<lambda>res. case res of
           Err err \<Rightarrow> ret (fst acc, keep_first (snd acc) err)
         | Panic p \<Rightarrow> ret acc
         | Ok u \<Rightarrow> seq_p (forget_run E cx rid r') (ret (note_exit (fst acc) r' reboot, snd acc))))"
    for r' reboot
  proof (rule gives_bind_dep [OF release])
    fix res :: "unit res"
    show "gives e0 (\<lambda>e'. case res of Ok _ \<Rightarrow> held X e0 rid r' True e' | Err _ \<Rightarrow> turned X e0 e'
          | Panic _ \<Rightarrow> False) (quiet (insert rid X) e0) ?F (case res of
           Err err \<Rightarrow> ret (fst acc, keep_first (snd acc) err)
         | Panic p \<Rightarrow> ret acc
         | Ok u \<Rightarrow> seq_p (forget_run E cx rid r') (ret (note_exit (fst acc) r' reboot, snd acc)))"
      using forget collect by (cases res) (auto intro: gives_ret)
  qed (intro keeps_intros)
  have first: "gives e0 (held X e0 rid r (snd acc = None))
     (\<lambda>outcome e'. case outcome of Ok (r', _) \<Rightarrow> held X e0 rid r' False e'
        | Err _ \<Rightarrow> turned X e0 e' | Panic _ \<Rightarrow> False)
     ?F (case container of Some c \<Rightarrow> cleanup_container E rid r c | None \<Rightarrow> ret (Ok (r, False)))"
  proof (cases container)
    case None
    then show ?thesis by (auto intro!: gives_ret simp: held_def)
  next
    case (Some c)
    show ?thesis
      unfolding Some option.case
      by (rule gives_mono [OF cleanup_held [OF b rid]])
        (auto intro: held_weaken turned_failed split: res.splits)
  qed
  show ?thesis
    unfolding settle_def
  proof (rule gives_bind_dep [OF first])
    fix outcome :: "(run \<times> bool) res"
    show "gives e0 (\<lambda>e'. case outcome of Ok (r', _) \<Rightarrow> held X e0 rid r' False e'
        | Err _ \<Rightarrow> turned X e0 e' | Panic _ \<Rightarrow> False) (quiet (insert rid X) e0) ?F (case outcome of
       Err err \<Rightarrow> ret (fst acc, keep_first (snd acc) err)
     | Panic p \<Rightarrow> ret acc
     | Ok (r', reboot) \<Rightarrow>
         bind_p (attempt (seq_p (deregister E cx rid) (remove_directory E rid r'))) (\<lambda>res.
         case res of
           Err err \<Rightarrow> ret (fst acc, keep_first (snd acc) err)
         | Panic p \<Rightarrow> ret acc
         | Ok u \<Rightarrow> seq_p (forget_run E cx rid r')
             (ret (note_exit (fst acc) r' reboot, snd acc))))"
      using rest collect by (cases outcome) (auto intro: gives_ret split: prod.split)
  qed (unfold case_prod_beta, intro keeps_intros allows_all TrueI)
qed

section \<open>One run\<close>

lemma fresh_token_held:
  assumes b: "begun E e0"
  shows "stays e0 (held X e0 rid r q) (\<lambda>_. turned X e0) (fresh_token E cx)"
  unfolding fresh_token_def by (intro stays_external [OF b]) simp

lemma mark_starting_held:
  assumes b: "begun E e0"
  shows "stays e0 (held X e0 rid r q) (\<lambda>_. turned X e0) (mark_starting E rid r)"
  unfolding mark_starting_def
  by (intro gives_seq stays_intros stays_external [OF b] keeps_intros; simp)

lemma start_created_held:
  assumes b: "begun E e0"
  shows "stays e0 (held X e0 rid r q) (\<lambda>_. turned X e0) (start_created E cx rid r)"
  unfolding start_created_def
  by (intro gives_bind gives_seq fresh_token_held [OF b] mark_starting_held [OF b] stays_intros
      keeps_intros) simp_all

lemma create_missing_held:
  assumes b: "begun E e0"
  shows "stays e0 (held X e0 rid r q) (\<lambda>_. turned X e0) (create_missing E cx rid r)"
  unfolding create_missing_def
  by (intro gives_bind gives_seq fresh_token_held [OF b] mark_starting_held [OF b]
      stays_external [OF b] stays_intros keeps_intros) simp_all

lemma turned_more: "turned X e0 e \<Longrightarrow> turned (insert rid X) e0 e"
  using turned_trans [of X e0 e "{rid}" e] turned_refl [of e "{rid}"] by (simp add: turned_def [of X])

lemma gives_acc:
  assumes "stays e0 (held X e0 rid r (snd acc = None)) (\<lambda>_. turned X e0) m"
  shows "gives e0 (held X e0 rid r (snd acc = None)) (quiet (insert rid X) e0) (failed name e0)
    (seq_p m (ret acc))"
proof -
  let ?H = "held X e0 rid r (snd acc = None)"
  have "gives e0 ?H (\<lambda>_. ?H) (failed name e0) m"
    using assms by (rule gives_mono) (auto intro: turned_failed)
  moreover have "?H e \<Longrightarrow> quiet (insert rid X) e0 acc e" for e
    using turned_more [OF held_turned] by (simp add: quiet_def held_def)
  ultimately show ?thesis by (intro gives_seq gives_ret keeps_intros) auto
qed

lemma run_step_turned:
  assumes b: "begun E e0" and p0: "bm_get (s_pools (st e0)) (cx_name cx) = Some p0"
  shows "gives e0 (\<lambda>e. quiet X e0 acc e \<and> rid \<in> set (bm_keys (s_runs (st e))))
     (quiet (insert rid X) e0) (failed (cx_name cx) e0) (run_step E cx acc rid)"
  unfolding gives_def
proof (intro allI impI, elim conjE)
  fix e assume t: "quiet X e0 acc e" and k: "rid \<in> set (bm_keys (s_runs (st e)))"
  obtain r0 where r0: "bm_get (s_runs (st e)) rid = Some r0" using bm.in_keys_lookup [OF k] by blast
  define remote where "remote = find (\<lambda>x. rr_name x = rid) (cx_remotes cx)"
  define r where "r = observe_remote remote r0"
  define container where "container = find (\<lambda>c. owned c (s_manager_id (st e)) r) (cx_containers cx)"
  have wf: "wf_state (st e)" using t by (simp add: quiet_def turned_def wf_engine_def)
  have rid: "run_id r = rid"
    using wf_runD [OF wf r0] by (simp add: r_def observe_remote_def split: option.split)
  let ?H = "held X e0 rid r (snd acc = None)"
  have held: "?H e" using t r0 by (simp add: held_def holding_def r_def quiet_def)
  let ?G = "gives e0 ?H (quiet (insert rid X) e0) (failed (cx_name cx) e0)"
  have tok: "stays e0 ?H (failed (cx_name cx) e0)
      (when_p (remote \<noteq> None) (seq_p (ask (fs_remove_file E (token_path E rid))) (ret ())))"
    by (intro gives_seq stays_intros keeps_intros) simp
  have live: "?G (seq_p (when_p (remote \<noteq> None) (seq_p (ask (fs_remove_file E (token_path E rid))) (ret ())))
       (seq_p (set_st_with (put_run rid (with_phase (observed_phase remote) r))) (ret acc)))"
    by (rule gives_seq [OF tok]) (intro gives_acc stays_intros keeps_intros; simp)+
  have created: "?G (seq_p (if cx_allow cx then start_created E cx rid r else set_st_with (put_run rid r)) (ret acc))"
    by (intro gives_acc gives_if start_created_held [OF b] stays_put) simp
  have missing: "?G (seq_p (if cx_allow cx then create_missing E cx rid r else set_st_with (put_run rid r)) (ret acc))"
    by (intro gives_acc gives_if create_missing_held [OF b] stays_put) simp
  have settled: "?G (settle E cx rid r container acc)" by (rule settle_turned [OF b p0 rid])
  note parts = givesD [OF live held] givesD [OF created held] givesD [OF missing held]
    givesD [OF settled held]
  show "spec e0 (quiet (insert rid X) e0) (failed (cx_name cx) e0) (run_step E cx acc rid e)"
    unfolding run_step_def bind_reads r0 or_panic.simps bind_give_Ok Let_def
      remote_def [symmetric] r_def [symmetric] container_def [symmetric]
    using parts by (simp split: if_split)
qed

lemma run_step_monotone: "monotone e0 (run_step E cx acc rid)"
  by (rule wrapped.run_step_calls) simp_all

lemma fold_runs_turned:
  assumes b: "begun E e0" and p0: "bm_get (s_pools (st e0)) (cx_name cx) = Some p0"
    and "distinct ids" "set ids \<subseteq> set (bm_keys (s_runs (st e0))) - X" "quiet X e0 acc e"
  shows "spec e0 (quiet (set ids \<union> X) e0) (failed (cx_name cx) e0)
    (fold_p (run_step E cx) acc ids e)"
  using assms(3-)
proof (induction ids arbitrary: X acc e)
  case Nil
  then show ?case by (simp add: spec_post)
next
  case (Cons rid ids)
  have "rid \<in> set (bm_keys (s_runs (st e)))"
    using Cons.prems by (auto simp: quiet_def turned_def shrinks_def)
  with Cons.prems have pre: "quiet X e0 acc e \<and> rid \<in> set (bm_keys (s_runs (st e)))" by simp
  show ?case
    unfolding fold_p.simps
  proof (rule spec_bind, goal_cases)
    case 1
    have sub: "set ids \<subseteq> set (bm_keys (s_runs (st e0))) - insert rid X" using Cons.prems by auto
    have "spec e0 (quiet (set (rid # ids) \<union> X) e0) (failed (cx_name cx) e0)
        (fold_p (run_step E cx) acc' ids e')" if "quiet (insert rid X) e0 acc' e'" for acc' e'
      using Cons.IH [OF _ sub that] Cons.prems by simp
    then show ?case
      by (rule spec_mono [OF givesD [OF run_step_turned [OF b p0] pre]])
  next
    case (2 acc')
    then show ?case by (intro keeps_fold run_step_monotone)
  qed
qed

section \<open>The end of a turn\<close>

definition over :: "'w engine \<Rightarrow> 'w engine \<Rightarrow> bool" where
  "over e0 e \<longleftrightarrow> wf_engine e \<and> later e0 e \<and> fits (st e0) (st e)"

lemma over_failed: "over e0 e \<Longrightarrow> failed name e0 er e"
  by (simp add: over_def failed_def)

lemma over_world: "over e0 e \<Longrightarrow> over e0 (e\<lparr>world := w\<rparr>)"
  by (simp add: over_def wf_engine_def later_def)

lemma turned_over: "turned X e0 e \<Longrightarrow> over e0 e"
  using shrinks_fits [of X "st e0" "st e"] by (simp add: over_def turned_def)

lemma expire_over: "over e0 e \<Longrightarrow> post (\<lambda>_. over e0) (\<lambda>_. over e0) (expire_logs E e)"
proof -
  have "keeps (over e0) (\<lambda>_. False) (expire_entry E age entry)" for age entry
    unfolding expire_entry_def
    by (cases entry; simp; intro keeps_bind keeps_when keeps_throw keeps_ret keeps_reads keeps_give
        keeps_perform_world over_world; simp)
  then have "keeps (over e0) (\<lambda>_. False) (expire_logs E)"
    unfolding expire_logs_def Let_def
    by (intro keeps_bind keeps_fold keeps_reads keeps_give keeps_ask_world over_world) simp_all
  then show "over e0 e \<Longrightarrow> post (\<lambda>_. over e0) (\<lambda>_. over e0) (expire_logs E e)"
    by (simp add: keeps_iff_post)
qed

lemma without_pool_names: "set (pool_names (without_pool n c)) = set (pool_names c) - {n}"
  by (auto simp: pool_names_def without_pool_def)

lemma without_pool_auth [simp]: "cfg_auth (without_pool n c) = cfg_auth c"
  by (simp add: without_pool_def)

lemma delete_drained_over:
  assumes t: "turned X e0 e" and m: "mutations e = mutations e0"
    and ps: "bm_get (s_pools (st e)) name = Some ps" and none: "pool_runs (ps_id ps) (st e) = []"
  shows "post (\<lambda>_. over e0) (failed name e0) (delete_drained E name e)"
proof -
  let ?e1 = "e\<lparr>st := (st e)\<lparr>s_pools := bm_remove name (s_pools (st e))\<rparr>\<rparr>"
  let ?nxt = "without_pool name (s_config (st e))"
  have wf: "wf_state (st e)" and later: "later e0 e" using t by (simp_all add: turned_def wf_engine_def)
  obtain s where s: "row e = Some s" "wf_state s" using t by (auto simp: turned_def wf_engine_def)
  have inv: "bm_invar (s_pools (st ?e1))" "bm_invar (cfg_auth ?nxt)"
    "set (bm_keys (s_pools (st ?e1))) = set (pool_names ?nxt)"
    using wf by (simp_all add: wf_state_def bm.keys_delete without_pool_names)
  have "run_pool_id r \<in> pool_ids (st ?e1)" if r: "bm_get (s_runs (st e)) k = Some r" for k r
  proof -
    obtain n p where p: "bm_get (s_pools (st e)) n = Some p" "ps_id p = run_pool_id r"
      using wf_runD [OF wf r] pool_ids_iff [OF wf_stateD(3) [OF wf]] by auto
    have "r \<in> set (pool_runs (run_pool_id r) (st e))"
      using wf_runD [OF wf r] r by (simp add: set_pool_runs [OF wf])
    then have "run_pool_id r \<noteq> ps_id ps" using none by auto
    then have "n \<noteq> name" using p ps by auto
    then have "bm_get (s_pools (st ?e1)) n = Some p" using p by simp
    then show ?thesis using p(2) inv(1) by (subst pool_ids_iff) (simp, blast)
  qed
  then have runs: "wf_runs (st ?e1)" using wf by (simp add: wf_state_def wf_runs_def)
  have keys: "set (bm_keys (s_runs (st e))) \<subseteq> set (bm_keys (s_runs (st e0)))"
    using t by (simp add: turned_def shrinks_def)
  have "post (\<lambda>_. over e0) (failed name e0) (commit_config E ?nxt ?e1)"
  proof (rule post_mono [OF commit_step [OF runs inv]], goal_cases)
    case (1 u e2)
    then show ?case
      using later keys by (auto simp: over_def wf_engine_def later_def frame_def fits_def)
  next
    case (2 er e2)
    then show ?case
      using later m s keys by (auto simp: failed_def broken_def later_def frame_def fits_def)
  qed
  then show ?thesis
    using turned_failed [OF t] by (simp add: delete_drained_def post_clean_file split: sum.split)
qed

text \<open>There is room for one more run of the pool.\<close>

definition room :: "context_data \<Rightarrow> state \<Rightarrow> bool" where
  "room cx s \<longleftrightarrow> ps_running (cx_ps cx) \<and> \<not> ps_deleting (cx_ps cx)
     \<and> length (pool_runs (ps_id (cx_ps cx)) s) < unat (pl_replicas (cx_pool cx))
     \<and> length (s_runs s) < unat (mg_max_runners (cfg_manager (s_config s)))"

lemma durable_pool_runs:
  assumes "durable s = durable t"
  shows "length (pool_runs i s) = length (pool_runs i t)"
proof -
  have "length (pool_runs i s) = length (pool_runs i (durable s))" for s
    by (simp add: pool_runs_def durable_def bm_values_def comp_def case_prod_beta filter_map)
  then show ?thesis using assms by metis
qed

lemma durable_room:
  assumes "durable s = durable t" "room cx s"
  shows "room cx t"
proof -
  have "length (s_runs s) = length (s_runs t)"
    using arg_cong [OF assms(1), of "\<lambda>s. length (s_runs s)"] by (simp add: durable_def)
  moreover have "s_config s = s_config t" using arg_cong [OF assms(1), of s_config] by simp
  ultimately show ?thesis using assms(2) durable_pool_runs [OF assms(1)] by (simp add: room_def)
qed

lemma length_filter_insert:
  "length (filter P (bm_values (bm_insert k v m))) \<le> Suc (length (filter P (bm_values m)))"
  by (induction k v m rule: bm_insert.induct) (auto simp: bm_values_def)

lemma length_bm_insert: "length (bm_insert k v m) \<le> Suc (length m)"
  by (induction k v m rule: bm_insert.induct) auto

lemma add_run_fits:
  assumes room: "room cx s" and keys: "set (bm_keys (s_runs s)) \<subseteq> set (bm_keys (s_runs s0))"
    and p: "find_pool name (s_config s) = Some (cx_pool cx)" "bm_get (s_pools s) name = Some ps"
    and d: "durable_pool ps = durable_pool (cx_ps cx)"
  shows "fits s0 (put_run rid (new_run cx rid now) s)"
proof -
  have ps: "ps_id ps = ps_id (cx_ps cx)" "ps_running ps" "\<not> ps_deleting ps"
    "ps_generation ps = ps_generation (cx_ps cx)"
    using d room durable_pool_sel by (metis room_def)+
  let ?t = "put_run rid (new_run cx rid now) s"
  have "length (pool_runs (ps_id (cx_ps cx)) ?t) \<le> Suc (length (pool_runs (ps_id (cx_ps cx)) s))"
    using length_filter_insert [of "\<lambda>r. run_pool_id r = ps_id (cx_ps cx)" rid _ "s_runs s"]
    by (simp add: pool_runs_def put_run_def)
  then have "length (pool_runs (ps_id (cx_ps cx)) ?t) \<le> unat (pl_replicas (cx_pool cx))"
    using room by (simp add: room_def)
  moreover have "length (s_runs ?t) \<le> unat (mg_max_runners (cfg_manager (s_config s)))"
    using length_bm_insert [of rid "new_run cx rid now" "s_runs s"] room
    by (simp add: room_def put_run_def)
  moreover have "set (bm_keys (s_runs ?t)) \<subseteq> insert rid (set (bm_keys (s_runs s0)))"
    using keys by (auto simp: put_run_def set_keys_insert)
  ultimately show ?thesis
    unfolding fits_def using p ps
    by (intro disjI2 exI [of _ rid] exI [of _ "new_run cx rid now"] exI [of _ name] exI [of _ ps])
      (simp add: put_run_def new_run_def)
qed

lemma add_run_over:
  assumes b: "begun E e0" and p0: "bm_get (s_pools (st e0)) name = Some p0"
    and d: "durable_pool p0 = durable_pool (cx_ps cx)"
    and f: "find_pool name (s_config (st e0)) = Some (cx_pool cx)"
  shows "gives e0 (\<lambda>e. turned X e0 e \<and> mutations e = mutations e0 \<and> room cx (st e)) (\<lambda>_. over e0)
    (failed name e0) (add_run E cx)"
proof -
  have ext: "gives e0 (\<lambda>e. turned X e0 e \<and> mutations e = mutations e0 \<and> room cx (st e))
      (\<lambda>_ e. turned X e0 e \<and> mutations e = mutations e0 \<and> room cx (st e)) (failed name e0)
      (external (docker_image E img))" for img
    unfolding gives_def
  proof (intro allI impI, elim conjE)
    fix e assume t: "turned X e0 e" "mutations e = mutations e0" "room cx (st e)"
    show "spec e0 (\<lambda>_ e. turned X e0 e \<and> mutations e = mutations e0 \<and> room cx (st e)) (failed name e0)
        (external (docker_image E img) e)"
    proof (rule spec_mono [OF external_turn [OF b calm_futures(1) t(1)]], goal_cases)
      case (1 x e')
      then have "durable (st e) = durable (st e')" using t(2) by (simp add: calm_def)
      then have "room cx (st e')" by (rule durable_room [OF _ t(3)])
      then show ?case using 1 by simp
    qed (auto intro: turned_failed)
  qed
  have tail: "post (\<lambda>_. over e0) (failed name e0)
      (bind_p (reads st) (\<lambda>s. bind_p (give (manager_prefix (s_manager_id s))) (\<lambda>prefix.
       bind_p (ask (uuid E)) (\<lambda>u. let rid = ''rc-'' @ prefix @ ''-'' @ simple_uuid u in
       bind_p (ask (clock E)) (\<lambda>now. seq_p (set_st_with (put_run rid (new_run cx rid now))) (save E))))) e)"
    if t: "turned X e0 e" and m: "mutations e = mutations e0" and room: "room cx (st e)" for e
  proof -
    have wf: "wf_state (st e)" using t by (simp add: turned_def wf_engine_def)
    then obtain prefix where prefix: "manager_prefix (s_manager_id (st e)) = Ok prefix"
      by (cases "manager_prefix (s_manager_id (st e))") (auto simp: wf_state_def wf_runs_def)
    have steady: "steady (st e0) (st e)" using t m by (simp add: turned_def)
    obtain p where p: "bm_get (s_pools (st e)) name = Some p" "durable_pool p = durable_pool p0"
      using steady_pool [OF steady p0] by auto
    have "ps_id p = ps_id (cx_ps cx)" using p(2) d durable_pool_sel(1) by metis
    then have mem: "ps_id (cx_ps cx) \<in> pool_ids (st e)"
      using p(1) pool_ids_iff [OF wf_stateD(3) [OF wf]] by auto
    have new: "wf_state (put_run rid (new_run cx rid now) (st e))" for rid now
      using wf_insert_run [OF wf, of "new_run cx rid now"] mem
      by (simp add: insert_run_def put_run_def new_run_def)
    have keys: "set (bm_keys (s_runs (st e))) \<subseteq> set (bm_keys (s_runs (st e0)))"
      using t by (simp add: turned_def shrinks_def)
    have fits: "fits (st e0) (put_run rid (new_run cx rid now) (st e))" for rid now
      by (rule add_run_fits [OF room keys _ p(1)]) (use f d p(2) steady_config(1) [OF steady] in simp_all)
    obtain s where s: "row e = Some s" "wf_state s" using t by (auto simp: turned_def wf_engine_def)
    show ?thesis
      using new fits t m s prefix
      by (auto simp: post_give post_save Let_def over_def failed_def broken_def turned_def later_def
          wf_engine_def split: option.split)
  qed
  show ?thesis
    unfolding add_run_def
    by (rule gives_seq_dep [OF ext givesI]) (use tail in \<open>auto intro!: keeps_intros simp: Let_def\<close>)
qed

lemma finish_turn_over:
  assumes b: "begun E e0" and p0: "bm_get (s_pools (st e0)) (cx_name cx) = Some p0"
    and d: "durable_pool p0 = durable_pool (cx_ps cx)"
    and f: "find_pool (cx_name cx) (s_config (st e0)) = Some (cx_pool cx)"
  shows "gives e0 (\<lambda>e. turned X e0 e \<and> mutations e = mutations e0) (\<lambda>_. over e0)
     (failed (cx_name cx) e0) (finish_turn E cx unknown report)"
  unfolding gives_def
proof (intro allI impI, elim conjE)
  fix e assume t: "turned X e0 e" and m: "mutations e = mutations e0"
  obtain p where p: "bm_get (s_pools (st e)) (cx_name cx) = Some p" "durable_pool p = durable_pool p0"
    using steady_pool [OF _ p0] t m by (auto simp: turned_def)
  have pid: "ps_id p = ps_id (cx_ps cx)" using p(2) d durable_pool_sel(1) by metis
  have del: "spec e0 (\<lambda>_. over e0) (failed (cx_name cx) e0)
      (seq_p (delete_drained E (cx_name cx)) (ret report) e)"
    if "pool_runs (ps_id (cx_ps cx)) (st e) = []"
    using delete_drained_over [OF t m p(1), of E] that pid by (auto intro: spec_post)
  have exp: "gives e0 (over e0) (\<lambda>_. over e0) (failed (cx_name cx) e0) (seq_p (expire_logs E) (ret report))"
    by (rule givesI) (simp, rule post_mono [OF expire_over], auto intro: over_failed)
  have add: "gives e0 (\<lambda>e. turned X e0 e \<and> mutations e = mutations e0 \<and> (g \<longrightarrow> room cx (st e)))
      (\<lambda>_. over e0) (failed (cx_name cx) e0) (when_p g (add_run E cx))" for g
    unfolding when_p_def
    by (intro gives_if gives_mono [OF add_run_over [OF b p0 d f]] gives_ret) (auto intro: turned_over)
  have rest: "gives e0 (\<lambda>e. turned X e0 e \<and> mutations e = mutations e0 \<and> (g \<longrightarrow> room cx (st e)))
      (\<lambda>_. over e0) (failed (cx_name cx) e0)
      (seq_p (when_p g (add_run E cx)) (seq_p (expire_logs E) (ret report)))" for g
    by (rule gives_seq_dep [OF add exp]) (intro keeps_intros)
  let ?g = "cx_allow cx \<and> report = 0 \<and> length (pool_runs (ps_id (cx_ps cx)) (st e)) < kept (cx_pool cx) (cx_ps cx)
           \<and> length (s_runs (st e)) + unknown < unat (mg_max_runners (cfg_manager (s_config (st e))))"
  have "?g \<longrightarrow> room cx (st e)" by (auto simp: room_def kept_def split: if_splits)
  then have pre: "turned X e0 e \<and> mutations e = mutations e0 \<and> (?g \<longrightarrow> room cx (st e))" using t m by simp
  show "spec e0 (\<lambda>_. over e0) (failed (cx_name cx) e0) (finish_turn E cx unknown report e)"
    unfolding finish_turn_def Let_def
    by (subst bind_reads) (use del givesD [OF rest pre] in \<open>auto split: if_split\<close>)
qed

section \<open>The reconciliation\<close>

text \<open>No request interfered since \<open>e0\<close>, and no run is gone.\<close>

definition calm_so_far :: "'w engine \<Rightarrow> 'w engine \<Rightarrow> bool" where
  "calm_so_far e0 e \<longleftrightarrow> turned {} e0 e \<and> mutations e = mutations e0"

lemma gives_fold:
  assumes "\<And>acc x. x \<in> set xs \<Longrightarrow> gives e0 I (\<lambda>_. I) T (f acc x)"
    "\<And>acc x. x \<in> set xs \<Longrightarrow> monotone e0 (f acc x)"
  shows "gives e0 I (\<lambda>_. I) T (fold_p f acc xs)"
  using assms
proof (induction xs arbitrary: acc)
  case Nil
  then show ?case by (simp add: gives_ret)
next
  case (Cons x xs)
  then show ?case
    unfolding fold_p.simps by (intro gives_bind keeps_fold Cons.IH) simp_all
qed

lemma rebase:
  assumes "spec e1 Q R r" "mutations e1 = mutations e0"
    "\<And>x e. Q x e \<Longrightarrow> Q' x e" "\<And>er e. R er e \<Longrightarrow> R' er e"
  shows "spec e0 Q' R' r"
proof -
  have "spec e0 Q R r" using assms(1,2) by (simp add: spec_def wrapped_def)
  then show ?thesis by (rule spec_mono) (auto intro: assms(3,4))
qed

lemma fits_rebase:
  "set (bm_keys (s_runs s1)) \<subseteq> set (bm_keys (s_runs s0)) \<Longrightarrow> fits s1 t \<Longrightarrow> fits s0 t"
  unfolding fits_def by (elim disjE exE conjE; blast)

lemma over_rebase:
  "later e0 e1 \<Longrightarrow> set (bm_keys (s_runs (st e1))) \<subseteq> set (bm_keys (s_runs (st e0))) \<Longrightarrow>
     over e1 e \<Longrightarrow> over e0 e"
  by (auto simp: over_def intro: later_trans fits_rebase)

lemma failed_rebase:
  "later e0 e1 \<Longrightarrow> mutations e1 = mutations e0 \<Longrightarrow>
     set (bm_keys (s_runs (st e1))) \<subseteq> set (bm_keys (s_runs (st e0))) \<Longrightarrow>
     failed name e1 er e \<Longrightarrow> failed name e0 er e"
  by (auto simp: failed_def broken_def intro: later_trans fits_rebase)

lemma begun_rebase: "begun E e0 \<Longrightarrow> later e0 e1 \<Longrightarrow> mutations e1 = mutations e0 \<Longrightarrow> begun E e1"
  by (simp add: begun_def later_def)

lemma reconcile_runs_over:
  assumes b: "begun E e0" and c: "calm_so_far e0 e"
    and p0: "bm_get (s_pools (st e0)) (cx_name cx) = Some p0"
    and d: "durable_pool p0 = durable_pool (cx_ps cx)"
    and f: "find_pool (cx_name cx) (s_config (st e0)) = Some (cx_pool cx)"
  shows "spec e0 (\<lambda>_. over e0) (failed (cx_name cx) e0) (reconcile_runs E cx unknown e)"
proof -
  let ?name = "cx_name cx"
  have t: "turned {} e0 e" and m: "mutations e = mutations e0" using c by (simp_all add: calm_so_far_def)
  have wf: "wf_state (st e)" and later: "later e0 e" using t by (simp_all add: turned_def wf_engine_def)
  obtain s where s: "row e = Some s" "wf_state s" using t by (auto simp: turned_def wf_engine_def)
  obtain p where p: "bm_get (s_pools (st e)) ?name = Some p" "durable_pool p = durable_pool p0"
    using steady_pool [OF _ p0] t m by (auto simp: turned_def)
  have pd: "durable_pool p = durable_pool (cx_ps cx)" using p(2) d by simp
  have cfg: "s_config (st e) = s_config (st e0)"
    using steady_config(1) t m by (simp add: turned_def)
  have keys: "set (bm_keys (s_runs (st e))) \<subseteq> set (bm_keys (s_runs (st e0)))"
    using t by (simp add: turned_def shrinks_def)
  let ?ids = "map run_id (pool_runs (ps_id (cx_ps cx)) (st e))"
  have ids: "distinct ?ids" "set ?ids \<subseteq> set (bm_keys (s_runs (st e)))"
    using distinct_pool_run_ids [OF wf] bm.lookup_in_keys [of "s_runs (st e)"]
    by (auto simp: set_pool_runs [OF wf])
  have loop: "spec e0 (\<lambda>_. over e0) (failed ?name e0)
      (bind_p (fold_p (run_step E cx) (0, None) ?ids) (\<lambda>(report, cleanup_error).
     case cleanup_error of Some err \<Rightarrow> throw err | None \<Rightarrow> finish_turn E cx unknown report) e1)"
    if e1: "wf_engine e1" "later e0 e1" "mutations e1 = mutations e0" "s_pools (st e1) = s_pools (st e)"
      "bm_keys (s_runs (st e1)) = bm_keys (s_runs (st e))" "s_config (st e1) = s_config (st e)" for e1
  proof -
    have b1: "begun E e1" using begun_rebase [OF b e1(2,3)] .
    have p1: "bm_get (s_pools (st e1)) ?name = Some p" using p e1(4) by simp
    have f1: "find_pool ?name (s_config (st e1)) = Some (cx_pool cx)" using f cfg e1(6) by simp
    have q: "quiet {} e1 (0, None) e1" using turned_refl [OF e1(1)] by (simp add: quiet_def)
    have sub: "set ?ids \<subseteq> set (bm_keys (s_runs (st e1))) - {}" using ids(2) e1(5) by simp
    have "spec e1 (\<lambda>_. over e1) (failed ?name e1)
      (bind_p (fold_p (run_step E cx) (0, None) ?ids) (\<lambda>(report, cleanup_error).
       case cleanup_error of Some err \<Rightarrow> throw err | None \<Rightarrow> finish_turn E cx unknown report) e1)"
    proof (rule spec_bind, goal_cases)
      case 1
      have "spec e1 (\<lambda>_. over e1) (failed ?name e1) ((\<lambda>(report, cleanup_error).
          case cleanup_error of Some err \<Rightarrow> throw err | None \<Rightarrow> finish_turn E cx unknown report) acc e2)"
        if q2: "quiet (set ?ids \<union> {}) e1 acc e2" for acc e2
      proof (cases "snd acc")
        case None
        then show ?thesis
          using q2 givesD [OF finish_turn_over [OF b1 p1 pd f1]]
          by (simp add: case_prod_beta quiet_def)
      next
        case (Some err)
        then show ?thesis
          using q2 turned_failed [of _ e1 e2 ?name err]
          by (simp add: case_prod_beta quiet_def spec_def)
      qed
      then show ?case by (rule spec_mono [OF fold_runs_turned [OF b1 p1 ids(1) sub q]])
    next
      case (2 acc)
      show ?case unfolding case_prod_beta by (intro keeps_intros allows_all)
    qed
    moreover have k: "set (bm_keys (s_runs (st e1))) \<subseteq> set (bm_keys (s_runs (st e0)))"
      using e1(5) keys by simp
    ultimately show ?thesis
      by (elim rebase [OF _ e1(3)] over_rebase [OF e1(2) k] failed_rebase [OF e1(2,3) k])
  qed
  have mark: "post (\<lambda>_ e'. frame e e' \<and> row e' = row e \<and> wf_state (st e') \<and> intent_le (st e) (st e')
       \<and> s_pools (st e') = s_pools (st e) \<and> s_config (st e') = s_config (st e))
     (\<lambda>_ _. False) (mark_retiring_p ?name e)"
    by (rule mark_step [OF wf]) (use bm.lookup_in_keys [OF p(1)] in simp)
  show ?thesis
    unfolding reconcile_runs_def bind_reads Let_def
  proof (rule spec_seq, rule spec_mono [OF spec_post [OF mark]], goal_cases)
    case (1 u e1)
    then have e1: "later e0 e1" "mutations e1 = mutations e0" "wf_state (st e1)" "row e1 = Some s"
      using later m s by (auto simp: frame_def later_def)
    have fit: "fits (st e0) (st e1)" using 1 keys by (simp add: intent_le_def fits_def)
    show ?case
    proof (rule spec_seq, rule spec_mono [OF spec_post [OF save_step]], goal_cases)
      case (1 u e2)
      then show ?case
        using e1 \<open>frame e e1 \<and> _\<close>
        by (intro loop) (auto simp: wf_engine_def frame_def later_def intent_le_def)
    next
      case (2 er e2)
      then show ?case using e1 s fit by (auto simp: failed_def broken_def later_def frame_def)
    next
      case 3
      show ?case
        unfolding case_prod_beta
        by (intro keeps_intros wrapped.run_step_calls allows_all) simp_all
    qed
  next
    case 3
    show ?case
      unfolding case_prod_beta
      by (intro keeps_intros wrapped.run_step_calls allows_all) simp_all
  qed simp
qed

lemma force_run_calm:
  assumes b: "begun E e0" and r: "bm_get (s_runs (st e0)) (run_id r) = Some r"
  shows "gives e0 (calm_so_far e0) (\<lambda>_. calm_so_far e0) (failed name e0) (force_run E containers r)"
  unfolding gives_def
proof (intro allI impI)
  fix e assume c: "calm_so_far e0 e"
  let ?rid = "run_id r" and ?r = "with_phase ''cleanup'' r"
  have "run_id r \<in> set (bm_keys (s_runs (st e)))"
    using c bm.lookup_in_keys [OF r] by (auto simp: calm_so_far_def turned_def shrinks_def)
  then obtain r1 where r1: "bm_get (s_runs (st e)) ?rid = Some r1" using bm.in_keys_lookup by blast
  then have "durable_run r1 = durable_run r"
    using c r by (auto simp: calm_so_far_def turned_def steady_def)
  then have held: "held {} e0 ?rid r True e"
    using c r1 by (simp add: held_def holding_def calm_so_far_def)
  have id: "run_id ?r = ?rid" by (simp add: with_phase_def)
  have arch: "stays e0 (held {} e0 ?rid r True) (\<lambda>_. turned {} e0) (archive E ?r c)" for c
    by (rule gives_mono [OF archive_held [OF b id, of "{}" True c]]) (auto simp: held_def holding_def)
  have "stays e0 (held {} e0 ?rid r True) (\<lambda>_. turned {} e0)
      (seq_p (set_st_with (put_run ?rid ?r)) (seq_p (save E)
         (bind_p (archive E ?r c) (\<lambda>_. external (docker_remove E ?rid True)))))" for c
    by (intro gives_bind gives_seq arch stays_external [OF b] stays_intros keeps_intros) simp_all
  from givesD [OF this held]
  have step: "spec e0 (\<lambda>_. calm_so_far e0) (failed name e0)
      (seq_p (set_st_with (put_run ?rid ?r)) (seq_p (save E)
         (bind_p (archive E ?r c) (\<lambda>_. external (docker_remove E ?rid True)))) e)" for c
    by (rule spec_mono) (auto simp: held_def holding_def calm_so_far_def intro: turned_failed)
  show "spec e0 (\<lambda>_. calm_so_far e0) (failed name e0) (force_run E containers r e)"
    unfolding force_run_def bind_reads Let_def
    using c step by (simp add: spec_def split: option.split)
qed

lemma external_calm:
  assumes b: "begun E e0" and f: "calm_future E m"
  shows "gives e0 (calm_so_far e0) (\<lambda>_. calm_so_far e0) (failed name e0) (external m)"
  unfolding gives_def
proof (intro allI impI)
  fix e assume "calm_so_far e0 e"
  then have "turned {} e0 e" by (simp add: calm_so_far_def)
  from external_turn [OF b f this]
  show "spec e0 (\<lambda>_. calm_so_far e0) (failed name e0) (external m e)"
    by (rule spec_mono) (auto simp: calm_so_far_def intro: turned_failed)
qed

lemma calm_so_far_config: "calm_so_far e0 e \<Longrightarrow> s_config (st e) = s_config (st e0)"
  using steady_config(1) by (auto simp: calm_so_far_def turned_def)

lemma reconcile_runs_monotone: "monotone e0 (reconcile_runs E cx unknown)"
  by (rule wrapped.reconcile_runs_calls) simp_all

lemma forced_runs_get:
  assumes "calm_so_far e0 e" "r \<in> set (forced_runs pid (st e))"
  shows "bm_get (s_runs (st e)) (run_id r) = Some r"
  using assms set_pool_runs [of "st e" r pid]
  by (auto simp: forced_runs_def calm_so_far_def turned_def wf_engine_def)

lemma forced_calm:
  assumes b: "begun E e0" and c: "calm_so_far e0 e"
  shows "spec e0 (\<lambda>_. calm_so_far e0) (failed name e0)
     (fold_p (\<lambda>_. force_run E containers) () (forced_runs pid (st e)) e)"
proof -
  have later: "later e0 e" "mutations e = mutations e0" and wf: "wf_engine e"
    using c by (simp_all add: calm_so_far_def turned_def)
  have b1: "begun E e" using begun_rebase [OF b later] .
  have "gives e (calm_so_far e) (\<lambda>_. calm_so_far e) (failed name e)
      (fold_p (\<lambda>_. force_run E containers) () (forced_runs pid (st e)))"
    by (intro gives_fold force_run_calm [OF b1] forced_runs_get [OF c] keeps_intros)
      simp_all
  from givesD [OF this, of e] have fold: "spec e (\<lambda>_. calm_so_far e) (failed name e)
     (fold_p (\<lambda>_. force_run E containers) () (forced_runs pid (st e)) e)"
    using turned_refl [OF wf] by (simp add: calm_so_far_def)
  have keys: "set (bm_keys (s_runs (st e))) \<subseteq> set (bm_keys (s_runs (st e0)))"
    using c by (simp add: calm_so_far_def turned_def shrinks_def)
  have lift: "calm_so_far e e' \<Longrightarrow> calm_so_far e0 e'" for e'
    using turned_trans [of "{}" e0 e "{}" e'] c by (simp add: calm_so_far_def)
  show ?thesis
    by (rule rebase [OF fold later(2)]) (auto intro: lift failed_rebase [OF later keys])
qed

text \<open>What follows the observation of the containers, when there is anything to do.\<close>

lemma gives_state:
  assumes "\<And>e. H e \<Longrightarrow> gives e0 (\<lambda>e'. H e' \<and> e' = e) Q T (f (g e))"
  shows "gives e0 H Q T (bind_p (reads g) f)"
  unfolding gives_def
proof (intro allI impI)
  fix e assume "H e"
  then show "spec e0 Q T (bind_p (reads g) f e)"
    unfolding bind_reads by (intro givesD [OF assms]) simp_all
qed

lemma reconcile_over:
  assumes b: "begun E e0" and wf: "wf_engine e0" and ps: "bm_get (s_pools (st e0)) name = Some ps"
  shows "spec e0 (\<lambda>_. over e0) (failed name e0) (reconcile E name allow e0)"
proof -
  have wfs: "wf_state (st e0)" using wf by (simp add: wf_engine_def)
  obtain p where p: "find_pool name (s_config (st e0)) = Some p"
    using wf_pool_config [OF wfs ps] by blast
  obtain a where a: "bm_get (cfg_auth (s_config (st e0))) (pl_auth p) = Some a"
    using wf_auth [OF wfs p] by blast
  have c0: "calm_so_far e0 e0" using turned_refl [OF wf] by (simp add: calm_so_far_def)
  let ?mgr = "s_manager_id (st e0)"
  let ?runs = "\<lambda>containers remotes unknown. reconcile_runs E
          \<lparr>cx_name = name, cx_pool = p, cx_ps = ps, cx_allow = allow, cx_manager = ?mgr, cx_auth = a,
           cx_scope = api_scope p, cx_containers = containers, cx_remotes = remotes\<rparr> unknown"
  have runs: "gives e0 (calm_so_far e0) (\<lambda>_. over e0) (failed name e0) (?runs cs rs u)" for cs rs u
    unfolding gives_def
    using reconcile_runs_over [OF b, of _ "\<lparr>cx_name = name, cx_pool = p, cx_ps = ps, cx_allow = allow,
      cx_manager = ?mgr, cx_auth = a, cx_scope = api_scope p, cx_containers = cs, cx_remotes = rs\<rparr>"] ps p
    by simp
  let ?observed = "\<lambda>cs u. bind_p (reads st) (\<lambda>s2.
        bind_p (give (or_panic (bm_get (cfg_auth (s_config s2)) (pl_auth p)) ''no entry found for key'')) (\<lambda>a.
        bind_p (external (gh_list E (pl_auth p) a (api_scope p)
            (mg_poll_interval_seconds (cfg_manager (s_config s2))))) (\<lambda>remotes.
        reconcile_runs E
          \<lparr>cx_name = name, cx_pool = p, cx_ps = ps, cx_allow = allow, cx_manager = ?mgr, cx_auth = a,
           cx_scope = api_scope p, cx_containers = cs, cx_remotes = remotes\<rparr> u)))"
  have observed: "gives e0 (calm_so_far e0) (\<lambda>_. over e0) (failed name e0) (?observed cs u)" for cs u
    unfolding gives_def
  proof (intro allI impI)
    fix e assume c: "calm_so_far e0 e"
    have "gives e0 (calm_so_far e0) (\<lambda>_. over e0) (failed name e0)
        (bind_p (external (gh_list E (pl_auth p) a (api_scope p)
            (mg_poll_interval_seconds (cfg_manager (s_config (st e0)))))) (\<lambda>remotes. ?runs cs remotes u))"
      by (rule gives_bind [OF external_calm [OF b] runs]) (simp_all add: reconcile_runs_monotone)
    from givesD [OF this c] show "spec e0 (\<lambda>_. over e0) (failed name e0) (?observed cs u e)"
      unfolding bind_reads calm_so_far_config [OF c] a or_panic.simps bind_give_Ok .
  qed
  have monotone_observed: "monotone e0 (?observed cs u)" for cs u
    by (intro keeps_intros reconcile_runs_monotone) simp_all
  let ?relist = "\<lambda>cs u. bind_p (reads st) (\<lambda>s1.
      bind_p (if forced_runs (ps_id ps) s1 \<noteq> [] then external (docker_list E ?mgr) else ret cs) (\<lambda>cs'.
        ?observed cs' u))"
  have relist: "gives e0 (calm_so_far e0) (\<lambda>_. over e0) (failed name e0) (?relist cs u)" for cs u
    by (rule gives_bind [OF stays_reads gives_bind [OF gives_if observed]])
      (auto intro!: external_calm [OF b] gives_ret monotone_observed keeps_intros)
  have monotone_relist: "monotone e0 (?relist cs u)" for cs u
    by (intro keeps_bind keeps_reads keeps_if monotone_observed keeps_intros) simp_all
  let ?act = "\<lambda>cs. bind_p (reads st) (\<lambda>s. let unknown = length (filter (unrecorded s) cs) in
     if pool_runs (ps_id ps) s = [] \<and> \<not> ps_running ps then
       seq_p (when_p (ps_deleting ps) (delete_drained E name)) (ret 0)
     else seq_p (fold_p (\<lambda>_. force_run E cs) () (forced_runs (ps_id ps) s)) (?relist cs unknown))"
  have act: "gives e0 (calm_so_far e0) (\<lambda>_. over e0) (failed name e0) (?act cs)" for cs
    unfolding gives_def
  proof (intro allI impI)
    fix e assume c: "calm_so_far e0 e"
    then have t: "turned {} e0 e" and m: "mutations e = mutations e0" by (simp_all add: calm_so_far_def)
    obtain ps' where ps': "bm_get (s_pools (st e)) name = Some ps'" "durable_pool ps' = durable_pool ps"
      using steady_pool [OF _ ps] t m by (auto simp: turned_def)
    have id: "ps_id ps' = ps_id ps" using ps'(2) durable_pool_sel(1) by metis
    have del: "spec e0 (\<lambda>_. over e0) (failed name e0)
        (seq_p (when_p (ps_deleting ps) (delete_drained E name)) (ret 0) e)"
      if "pool_runs (ps_id ps) (st e) = []"
      using delete_drained_over [OF t m ps'(1), of E] that id turned_over [OF t]
      by (auto intro: spec_post)
    have force: "spec e0 (\<lambda>_. over e0) (failed name e0)
        (seq_p (fold_p (\<lambda>_. force_run E cs) () (forced_runs (ps_id ps) (st e))) (?relist cs u) e)" for u
      by (rule spec_seq, rule spec_mono [OF forced_calm [OF b c]])
        (auto intro: givesD [OF relist] monotone_relist)
    show "spec e0 (\<lambda>_. over e0) (failed name e0) (?act cs e)"
      by (subst bind_reads) (use del force in \<open>auto simp: Let_def\<close>)
  qed
  have monotone_act: "monotone e0 (?act cs)" for cs
    unfolding Let_def
    by (intro keeps_bind keeps_reads keeps_if keeps_seq monotone_relist keeps_intros) simp_all
  have "gives e0 (calm_so_far e0) (\<lambda>_. over e0) (failed name e0)
      (bind_p (external (docker_list E ?mgr)) ?act)"
    by (rule gives_bind [OF external_calm [OF b] act monotone_act]) simp
  from givesD [OF this c0] show ?thesis
    unfolding reconcile_def
    by (subst bind_reads) (simp only: p or_error.simps bind_give_Ok ps or_panic.simps Let_def)
qed

end
