(* ===== verification/Tick_Invariant.thy ===== *)
theory Tick_Invariant
  imports Reconcile_Invariant
begin

text \<open>
  The tick: after every tick that returns the engine's invariant holds again and no
  reconciliation is under way; when it fails, the store still holds a well-formed state.
\<close>

section \<open>Concluding a turn\<close>

text \<open>The engine between turns.\<close>

definition resting :: "'w engine \<Rightarrow> bool" where
  "resting e \<longleftrightarrow> wf_engine e \<and> reconcile_epoch e = None"

definition recoverable :: "'w engine \<Rightarrow> bool" where
  "recoverable e \<longleftrightarrow> (\<exists>s. row e = Some s \<and> wf_state s)"

lemma recoverable_cong [simp]:
  "recoverable (e\<lparr>world := w\<rparr>) = recoverable e" "recoverable (e\<lparr>st := s\<rparr>) = recoverable e"
  "recoverable (e\<lparr>reconcile_epoch := re\<rparr>) = recoverable e"
  by (simp_all add: recoverable_def)

lemma resting_recoverable: "resting e \<Longrightarrow> recoverable e"
  by (auto simp: resting_def recoverable_def wf_engine_def)

text \<open>Memory may be ahead of the store, but both are well formed.\<close>

definition unsaved :: "state \<Rightarrow> 'w engine \<Rightarrow> bool" where
  "unsaved s0 e \<longleftrightarrow> wf_state (st e) \<and> recoverable e \<and> reconcile_epoch e = None \<and> fits s0 (st e)"

definition rested :: "state \<Rightarrow> 'w engine \<Rightarrow> bool" where
  "rested s0 e \<longleftrightarrow> resting e \<and> fits s0 (st e)"

lemma unsaved_recoverable: "unsaved s0 e \<Longrightarrow> recoverable e"
  by (simp add: unsaved_def)

lemma unsaved_world [simp]: "unsaved s0 (e\<lparr>world := w\<rparr>) = unsaved s0 e"
  by (simp add: unsaved_def)

lemma unsaved_memory: "unsaved s0 e \<Longrightarrow> wf_state s \<Longrightarrow> fits s0 s \<Longrightarrow> unsaved s0 (e\<lparr>st := s\<rparr>)"
  by (simp add: unsaved_def)

lemma fits_update_pool:
  assumes "\<And>p. durable_pool (f p) = durable_pool p" "fits s t"
  shows "fits s (update_pool n f t)"
proof -
  have same: "s_runs (update_pool n f t) = s_runs t" "s_config (update_pool n f t) = s_config t"
    "pool_runs i (update_pool n f t) = pool_runs i t" for i
    by (simp_all add: update_pool_def pool_runs_def)
  have pool: "\<exists>ps'. bm_get (s_pools (update_pool n f t)) m = Some ps' \<and> ps_id ps' = ps_id ps
      \<and> ps_running ps' = ps_running ps \<and> ps_deleting ps' = ps_deleting ps
      \<and> ps_generation ps' = ps_generation ps"
    if "bm_get (s_pools t) m = Some ps" for m ps
  proof -
    have "ps_id (f p) = ps_id p" "ps_running (f p) = ps_running p" "ps_deleting (f p) = ps_deleting p"
      "ps_generation (f p) = ps_generation p" for p
      using assms(1) [of p] durable_pool_sel by metis+
    then show ?thesis using that by (auto simp: update_pool_def)
  qed
  show ?thesis
    using assms(2) unfolding fits_def same
  proof (elim disjE exE conjE, goal_cases)
    case (2 rid r name ps)
    then show ?case using pool [of name ps] by metis
  qed simp
qed

lemma forget_phase_sel [simp]:
  "run_id (forget_phase r) = run_id r" "run_pool_id (forget_phase r) = run_pool_id r"
  "run_phase r = ''creating'' \<Longrightarrow> forget_phase r = r"
  by (simp_all add: forget_phase_def with_phase_def)

lemma fits_forget:
  assumes "fits s t"
  shows "fits s (update_runs_of i forget_phase t)"
proof -
  let ?t = "update_runs_of i forget_phase t"
  have keys: "bm_keys (s_runs ?t) = bm_keys (s_runs t)" "length (s_runs ?t) = length (s_runs t)"
    by (simp_all add: update_runs_of_def)
  have same: "s_config ?t = s_config t" "s_pools ?t = s_pools t" by (simp_all add: update_runs_of_def)
  have runs: "length (pool_runs j ?t) = length (pool_runs j t)" for j
    by (simp add: pool_runs_def update_runs_of_def bm_values_def bm_update_where_def filter_map
        comp_def if_distrib case_prod_beta cong: if_cong)
  have get: "bm_get (s_runs ?t) k = Some r" if "bm_get (s_runs t) k = Some r" "run_phase r = ''creating''" for k r
    using that by (simp add: update_runs_of_def)
  show ?thesis
    using assms unfolding fits_def keys same runs
  proof (elim disjE exE conjE, goal_cases)
    case (2 rid r name ps)
    then show ?case using get [of rid r] by metis
  qed simp
qed

lemma save_unsaved: "unsaved s0 e \<Longrightarrow> post (\<lambda>_. rested s0) (\<lambda>_. recoverable) (save E e)"
  by (auto simp: post_save unsaved_def rested_def resting_def recoverable_def wf_engine_def
      split: option.split)

lemma durable_notes [simp]:
  "durable_pool (note_failure now b err scope p) = durable_pool p"
  "durable_pool (clear_error p) = durable_pool p"
  "durable_pool (p\<lparr>ps_observed_at := now\<rparr>) = durable_pool p"
  by (simp_all add: durable_pool_def note_failure_def clear_error_def Let_def)

text \<open>Observations of a pool keep memory fit to be saved.\<close>

lemma unsaved_update_pool:
  assumes "\<And>p. durable_pool (f p) = durable_pool p" "unsaved s0 e"
  shows "unsaved s0 (e\<lparr>world := w, st := update_pool n f (st e)\<rparr>)"
    "unsaved s0 (e\<lparr>st := update_pool n f (st e)\<rparr>)"
proof -
  have "ps_id (f p) = ps_id p" for p using assms(1) [of p] durable_pool_sel(1) by metis
  then have "wf_state (update_pool n f (st e))" using assms(2) by (intro wf_update_pool) (simp_all add: unsaved_def)
  then show "unsaved s0 (e\<lparr>world := w, st := update_pool n f (st e)\<rparr>)"
    "unsaved s0 (e\<lparr>st := update_pool n f (st e)\<rparr>)"
    using fits_update_pool [OF assms(1)] assms(2) by (simp_all add: unsaved_def)
qed

lemma record_failure_unsaved:
  "unsaved s0 e \<Longrightarrow> post (\<lambda>_. unsaved s0) (\<lambda>_. unsaved s0) (record_failure E name err scope e)"
  by (simp add: record_failure_def post_give unsaved_update_pool split: res.split)

lemma observed_unsaved:
  "unsaved s0 e \<Longrightarrow> post (\<lambda>_. unsaved s0) (\<lambda>_. unsaved s0) (note_observed E name e)"
  by (simp add: note_observed_def unsaved_update_pool)

lemma report_unsaved:
  "unsaved s0 e \<Longrightarrow> post (\<lambda>_. unsaved s0) (\<lambda>_. unsaved s0) (note_report E name retrying report e)"
  by (simp add: note_report_def unsaved_update_pool record_failure_unsaved)

lemma error_unsaved:
  assumes "unsaved s0 e"
  shows "post (\<lambda>_. unsaved s0) (\<lambda>_. unsaved s0) (note_error E name err e)"
proof -
  have "unsaved s0 (e'\<lparr>st := case bm_get (s_pools (st e')) name of None \<Rightarrow> st e'
      | Some ps \<Rightarrow> update_runs_of (ps_id ps) forget_phase (st e')\<rparr>)" if "unsaved s0 e'" for e'
    using that by (auto simp: unsaved_def intro: wf_update_runs_of fits_forget split: option.split)
  then show ?thesis
    by (auto simp: note_error_def intro!: post_mono [OF record_failure_unsaved [OF assms]])
qed

text \<open>A pool that is gone makes \<open>record_failure\<close> fail.\<close>

lemma record_failure_gone:
  "bm_get (s_pools (st e)) name = None \<Longrightarrow> recoverable e \<Longrightarrow>
     post (\<lambda>_ _. False) (\<lambda>_. recoverable) (record_failure E name err scope e)"
  by (simp add: record_failure_def post_give recoverable_def)

lemma conclude_unsaved:
  assumes "unsaved s0 e" "\<And>p. result \<noteq> Panic p"
  shows "post (\<lambda>_. rested s0) (\<lambda>_. recoverable) (conclude E name retrying result e)"
proof -
  have finish: "post (\<lambda>_. rested s0) (\<lambda>_. recoverable) (seq_p (note_observed E name) (save E) e')"
    if "unsaved s0 e'" for e'
    by (simp, rule post_mono [OF observed_unsaved [OF that]])
      (auto intro: save_unsaved unsaved_recoverable)
  show ?thesis
  proof (cases result)
    case (Ok report)
    then show ?thesis
      using finish by (simp add: conclude_def del: post_seq)
        (subst post_seq, rule post_mono [OF report_unsaved [OF assms(1)]], auto intro: unsaved_recoverable)
  next
    case (Err er)
    show ?thesis
    proof (cases "er = ReconcileInterrupted")
      case True
      then show ?thesis using Err save_unsaved [OF assms(1)] by (simp add: conclude_def)
    next
      case False
      then show ?thesis
        using Err finish by (simp add: conclude_def del: post_seq)
          (subst post_seq, rule post_mono [OF error_unsaved [OF assms(1)]], auto intro: unsaved_recoverable)
    qed
  qed (use assms(2) in blast)
qed

lemma conclude_gone:
  assumes "bm_get (s_pools (st e)) name = None" "recoverable e" "er \<noteq> ReconcileInterrupted"
  shows "post (\<lambda>_. rested s0) (\<lambda>_. recoverable) (conclude E name retrying (Err er) e)"
  using assms(3)
  by (simp add: conclude_def note_error_def)
    (rule post_mono [OF record_failure_gone [OF assms(1,2)]]; simp)

section \<open>The turn\<close>

lemma turn_spec:
  assumes reads: "reads_ok E" and r: "resting e" and ps: "bm_get (s_pools (st e)) name = Some ps"
  shows "spec e (\<lambda>_. rested (st e)) (\<lambda>_. recoverable) (turn E name retry_at now e)"
proof -
  let ?e0 = "e\<lparr>reconcile_epoch := Some (epoch e)\<rparr>"
  have b: "begun E ?e0" and wf: "wf_engine ?e0"
    using reads r by (simp_all add: begun_def resting_def wf_engine_def)
  define tail :: "nat res \<Rightarrow> ('a, unit) act" where
    "tail = (\<lambda>result. bind_p (reads (\<lambda>e. reconcile_epoch e \<noteq> Some (epoch e))) (\<lambda>changed.
       seq_p (modify (\<lambda>e. e\<lparr>reconcile_epoch := None\<rparr>))
       (if changed then save E else conclude E name (now < retry_at) result)))"
  have good: "post (\<lambda>_. rested (st e)) (\<lambda>_. recoverable) (tail result e')"
    if "wf_state (st e')" "recoverable e'" "fits (st e) (st e')" "\<And>p. result \<noteq> Panic p" for result e'
  proof -
    have "unsaved (st e) (e'\<lparr>reconcile_epoch := None\<rparr>)" using that by (simp add: unsaved_def)
    note steps = save_unsaved [OF this, of E]
      conclude_unsaved [OF this that(4), of E name "now < retry_at"]
    show ?thesis using steps by (simp add: tail_def)
  qed
  have fine: "post (\<lambda>_. rested (st e)) (\<lambda>_. recoverable) (tail (Ok x) e')" if "over ?e0 e'" for x e'
    using that by (intro good) (auto simp: over_def wf_engine_def recoverable_def)
  have bad: "post (\<lambda>_. rested (st e)) (\<lambda>_. recoverable) (tail (Err er) e')" if f: "failed name ?e0 er e'" for er e'
  proof (cases "wf_state (st e')")
    case True
    then show ?thesis using f by (intro good) (auto simp: failed_def broken_def wf_engine_def recoverable_def)
  next
    case False
    then have g: "bm_get (s_pools (st e')) name = None" "er \<noteq> ReconcileInterrupted" "recoverable e'"
      "mutations e' = mutations e" "later ?e0 e'"
      using f by (auto simp: failed_def broken_def wf_engine_def recoverable_def)
    then have "reconcile_epoch e' = Some (epoch e')" by (simp add: later_def)
    then show ?thesis
      using g conclude_gone [of "e'\<lparr>reconcile_epoch := None\<rparr>" name er]
      by (simp add: tail_def recoverable_def)
  qed
  have mono: "monotone ?e0 (tail result)" for result
    unfolding tail_def
    by (intro keeps_intros) (auto simp: wrapped_def)
  have "spec ?e0 (\<lambda>_. rested (st e)) (\<lambda>_. recoverable)
      (bind_p (attempt (reconcile E name (replenishment_allowed retry_at now))) tail ?e0)"
    by (rule spec_bind [OF _ mono], rule spec_attempt, rule spec_mono [OF reconcile_over [OF b wf]])
      (use ps fine bad in \<open>auto intro: spec_post\<close>)
  then have "spec e (\<lambda>_. rested (st e)) (\<lambda>_. recoverable)
      (bind_p (attempt (reconcile E name (replenishment_allowed retry_at now))) tail ?e0)"
    by (simp add: spec_def wrapped_def)
  then show ?thesis by (simp add: turn_def tail_def seq_p_def bind_p_def [of "modify f" for f] modify_def)
qed

lemma tick_spec:
  assumes reads: "reads_ok E" and r: "resting e"
  shows "spec e (\<lambda>_. rested (st e)) (\<lambda>_. recoverable) (tick E e)"
proof (cases "bm_keys (s_pools (st e)) = []")
  case True
  then show ?thesis using r by (simp add: tick_def bind_reads spec_post rested_def fits_def)
next
  case False
  let ?names = "bm_keys (s_pools (st e))"
  let ?name = "?names ! (unat (cursor e) mod length ?names)"
  let ?e1 = "e\<lparr>cursor := cursor e + 1, world := snd (clock E (world e))\<rparr>"
  let ?now = "fst (clock E (world e))"
  have "?name \<in> set ?names" using False by simp
  then obtain ps where ps: "bm_get (s_pools (st e)) ?name = Some ps" using bm.in_keys_lookup by blast
  have r1: "resting ?e1" using r by (simp add: resting_def wf_engine_def)
  have "spec e (\<lambda>_. rested (st e)) (\<lambda>_. recoverable)
      ((if ?now < ps_retry_at ps \<and> ps_retry_scope ps = Observation then ret ()
       else turn E ?name (ps_retry_at ps) ?now) ?e1)"
    using turn_spec [OF reads r1, of ?name ps "ps_retry_at ps" ?now] ps r1
    by (simp add: spec_def wrapped_def rested_def fits_def)
  then show ?thesis
    using False ps
    unfolding tick_def Let_def
    by (subst bind_reads, cases "?now < ps_retry_at ps \<and> ps_retry_scope ps = Observation")
      (auto simp: bind_reads seq_p_def bind_p_def [of "modify f" for f]
        bind_p_def [of "ask f" for f] modify_def ask_def case_prod_beta bind_give_Ok)
qed

lemma spec_outcome:
  assumes "spec e Q R r" "mutations (snd r) < mutations e + 2 ^ 64"
  shows "post Q R r"
  using assms by (auto simp: spec_def wrapped_def)

end
