(* ===== verification/Sample.thy ===== *)
theory Sample
  imports Tick_Invariant
begin

text \<open>
  A small manager on which the properties are applied: one organization pool with two runs, an
  environment whose world is the queue of the events still to arrive, and a docker daemon and a
  GitHub that answer every call.
\<close>

section \<open>Configuration and state\<close>

definition sample_pool :: pool where
  "sample_pool =
     \<lparr>pl_name = ''web'', pl_organization = ''acme'', pl_repository = None, pl_auth = ''main'',
      pl_labels = [''linux''], pl_runner_group = ''Default'', pl_replicas = 2,
      pl_image = ''ghcr.io/acme/runner:v1'', pl_docker_socket = False,
      pl_allow_privilege_escalation = False, pl_cpus = None, pl_memory = Some ''512m''\<rparr>"

definition sample_auth :: auth where
  "sample_auth = auth_pat ''env:TOKEN''"

definition sample_config :: config where
  "sample_config =
     \<lparr>cfg_schema_version = 1, cfg_auth = [(''main'', sample_auth)], cfg_manager = default_manager,
      cfg_pools = [sample_pool]\<rparr>"

definition sample_pool_state :: pool_state where
  "sample_pool_state = (default_pool_state ''p1'')\<lparr>ps_running := True\<rparr>"

definition sample_run :: "string \<Rightarrow> u64 \<Rightarrow> run" where
  "sample_run rid created =
     \<lparr>run_id = rid, run_pool_id = ''p1'', run_pool = sample_pool, run_generation = 1,
      run_created_at = created, run_phase = ''idle'', run_remote_id = None, run_retiring = False,
      run_force = False, run_completed_job = False, run_log_saved = False\<rparr>"

definition sample_state :: state where
  "sample_state =
     \<lparr>s_manager_id = ''0123456789ab'', s_revision = 1, s_config = sample_config,
      s_file_hash = ''file'', s_pools = [(''web'', sample_pool_state)],
      s_runs = [(''a'', sample_run ''a'' 10), (''b'', sample_run ''b'' 20)]\<rparr>"

section \<open>Environment and engine\<close>

type_synonym queue = "event list list"

definition env_of :: "('w \<Rightarrow> event list \<times> 'w) \<Rightarrow> 'w env" where
  "env_of arr =
     \<lparr>home = ''/home/m'', clock = Pair 1000, nanos = Pair (1000 * 10 ^ 9),
      uuid = Pair ''12345678-90ab-4cde-8f01-234567890abc'', random_byte = Pair 3,
      sha256 = (\<lambda>t. t), from_toml = (\<lambda>_. Some sample_config), to_toml = (\<lambda>_. Inr ''file''),
      auth_json = au_credential, claims_json = (\<lambda>_ _ i. i), base64_decode = Some,
      base64_url = (\<lambda>t. t), rsa_from_pkcs8 = Some, rsa_from_der = Some,
      rsa_sign = (\<lambda>_ m. Pair (Some m)), parse_json = (\<lambda>_. Inr (JArr [])),
      shape_error = (\<lambda>_. ''shape''), parse_rfc3339 = (\<lambda>_. None),
      format_rfc3339 = (\<lambda>_. Some ''date''), f64_text = (\<lambda>_. ''1''),
      host_ids = (1000, 1000), client_build = Pair None, sql_open = Pair None, sql_load = Pair None,
      sql_save = Pair None,
      fs_exists = (\<lambda>_. Pair False),
      fs_remove_file = (\<lambda>_. Pair None), fs_remove_dir_all = (\<lambda>_. Pair None),
      fs_create_dir_all = (\<lambda>_. Pair None), fs_is_symlink = (\<lambda>_. Pair (Inr False)),
      fs_temp = (\<lambda>_. Pair (Inr ''/tmp/t'')), fs_append = (\<lambda>_ _. Pair None),
      fs_sync = (\<lambda>_. Pair None), fs_rename = (\<lambda>_ _. Pair None),
      fs_probe = (\<lambda>_ _. Pair (Inr ''/probe'')), fs_open = (\<lambda>_. Pair None),
      fs_chmod = (\<lambda>_ _. Pair None), try_lock = (\<lambda>_. Pair (Inr True)), socket_bind = (\<lambda>_. Pair True),
      signals = Pair None,
      fs_logs = Pair (Inr []), env_var = (\<lambda>_. Pair (Some ''token'')),
      docker = (\<lambda>_. Pair (Docker_Exit True [] [])), docker_cp = (\<lambda>_ _. Pair (Cp_Copied 0 (Inr True))),
      status_text = (\<lambda>_. ''status''),
      http = (\<lambda>_ _ _. Pair (Some \<lparr>hr_status = 200, hr_ratelimit_remaining = None,
        hr_retry_after = None, hr_ratelimit_reset = None,
        hr_json = Some (JObj [(''runners'', JArr []), (''token'', JStr ''t'')])\<rparr>)),
      arrivals = arr\<rparr>"

definition sample_env :: "queue env" where
  "sample_env = env_of (\<lambda>q. case q of [] \<Rightarrow> ([], []) | evs # rest \<Rightarrow> (evs, rest))"

text \<open>The environment in which nothing arrives.\<close>

definition quiet_env :: "unit env" where
  "quiet_env = env_of (Pair [])"

text \<open>An engine at rest on a state that is in memory and in the store.\<close>

definition engine_of :: "state \<Rightarrow> 'w \<Rightarrow> 'w engine" where
  "engine_of s w =
     \<lparr>st = s, row = Some s, config_file = Inr ''file'', github = empty_cache 0, cursor = 0,
      boot_time = None, serving = True, snapshots = Some s, epoch = 0, reconcile_epoch = None,
      mutations = 0, issued = [], world = w\<rparr>"

lemma engine_of_sel [simp]:
  "st (engine_of s w) = s" "row (engine_of s w) = Some s" "config_file (engine_of s w) = Inr ''file''"
  "mutations (engine_of s w) = 0" "issued (engine_of s w) = []" "epoch (engine_of s w) = 0"
  "reconcile_epoch (engine_of s w) = None" "world (engine_of s w) = w"
  by (simp_all add: engine_of_def)

definition sample_engine :: "'w \<Rightarrow> 'w engine" where
  "sample_engine w = engine_of sample_state w"

text \<open>The manager before its first runs.\<close>

definition fresh_state :: state where
  "fresh_state = sample_state\<lparr>s_runs := []\<rparr>"

section \<open>They satisfy the hypotheses\<close>

lemmas text_evals =
  has_whitespace_def whitespace_sequences_def trim_def trim_start_def trim_end_def starts_with_def
  ends_with_def last_segment_def is_ascii_alphanumeric_def is_ascii_digit_def
  is_ascii_alphabetic_def byte_def

lemmas validate_evals =
  validate_def validate_auth_def validate_reference_def validate_pool_def validate_image_def
  memory_bytes_def valid_name_def valid_org_def valid_label_def total_replicas_def parse_u64_def
  parse_unsigned_def digits_value_def memory_multiplier_def to_ascii_lowercase_def
  checked_mul_def ensure_def bm_contains_key_def

lemma sample_config_valid: "well_formed_config sample_config"
  unfolding validate_Ok [symmetric]
  by (simp add: sample_config_def sample_auth_def sample_pool_def default_manager_def auth_pat_def
      validate_evals text_evals)

lemma sample_wf: "wf_state sample_state"
proof -
  have "bm_get (s_runs sample_state) k = Some r \<Longrightarrow> run_id r = k \<and> run_pool_id r = ''p1''" for k r
    by (auto simp: sample_state_def sample_run_def split: if_splits)
  then show ?thesis
    using sample_config_valid
    by (auto simp: wf_state_def wf_runs_def sample_state_def pool_ids_def bm_values_def bm_keys_def
        bm_invar_def sample_config_def pool_names_def sample_pool_def sample_pool_state_def
        default_pool_state_def simple_uuid_def manager_prefix_def continuation_def byte_def)
qed

lemma sample_reads [simp]: "reads_ok (env_of arr)" "reads_ok sample_env" "reads_ok quiet_env"
  by (simp_all add: reads_ok_def env_of_def sample_env_def quiet_env_def)

lemma fresh_wf: "wf_state fresh_state"
  using sample_wf by (simp add: wf_state_def wf_runs_def fresh_state_def bm.invar_empty)

lemma resting_engine: "wf_state s \<Longrightarrow> resting (engine_of s w)"
  by (simp add: resting_def wf_engine_def engine_of_def)

lemma sample_resting [simp]: "resting (sample_engine w)" "resting (engine_of fresh_state w)"
  using sample_wf fresh_wf by (simp_all add: sample_engine_def resting_engine)

lemma sample_engine_wf [simp]: "wf_engine (sample_engine w)"
  using sample_resting(1) [of w] unfolding resting_def by blast

section \<open>Undisturbed operation\<close>

text \<open>Where nothing arrives, nothing is mutated, however long the program runs.\<close>

lemma quiet_events: "events quiet_env = ret ()"
  by (simp add: fun_eq_iff events_def quiet_env_def env_of_def bind_p_def ask_def ret_def)

interpretation undisturbed: bookkeeping quiet_env "\<lambda>e. mutations e = n" "\<lambda>e. mutations e = n" "\<lambda>_. True"
  for n :: nat
  by unfold_locales (auto simp: quiet_events intro: keeps_ret)

section \<open>Evaluation\<close>

text \<open>The equations by which the programs are evaluated on the samples.\<close>

lemma quiet_sel [simp]:
  "home quiet_env = ''/home/m''" "clock quiet_env = Pair 1000" "nanos quiet_env = Pair (1000 * 10 ^ 9)"
  "uuid quiet_env = Pair ''12345678-90ab-4cde-8f01-234567890abc''"
  "random_byte quiet_env = Pair 3" "sha256 quiet_env = (\<lambda>t. t)" "auth_json quiet_env = au_credential"
  "to_toml quiet_env = (\<lambda>_. Inr ''file'')" "from_toml quiet_env = (\<lambda>_. Some sample_config)"
  "fs_chmod quiet_env = (\<lambda>_ _. Pair None)" "try_lock quiet_env = (\<lambda>_. Pair (Inr True))"
  "socket_bind quiet_env = (\<lambda>_. Pair True)" "sql_open quiet_env = Pair None" "client_build quiet_env = Pair None"
  "sql_load quiet_env = Pair None" "sql_save quiet_env = Pair None"
  "signals quiet_env = Pair None" "fs_exists quiet_env = (\<lambda>_. Pair False)"
  "fs_remove_file quiet_env = (\<lambda>_. Pair None)" "fs_create_dir_all quiet_env = (\<lambda>_. Pair None)"
  "fs_is_symlink quiet_env = (\<lambda>_. Pair (Inr False))" "fs_temp quiet_env = (\<lambda>_. Pair (Inr ''/tmp/t''))"
  "fs_append quiet_env = (\<lambda>_ _. Pair None)" "fs_sync quiet_env = (\<lambda>_. Pair None)"
  "fs_rename quiet_env = (\<lambda>_ _. Pair None)" "fs_logs quiet_env = Pair (Inr [])"
  "env_var quiet_env = (\<lambda>_. Pair (Some ''token''))"
  "docker quiet_env = (\<lambda>_. Pair (Docker_Exit True [] []))"
  "http quiet_env = (\<lambda>_ _ _. Pair (Some \<lparr>hr_status = 200, hr_ratelimit_remaining = None,
        hr_retry_after = None, hr_ratelimit_reset = None,
        hr_json = Some (JObj [(''runners'', JArr []), (''token'', JStr ''t'')])\<rparr>))"
  by (simp_all add: quiet_env_def env_of_def)

lemma unit_world [simp]: "e\<lparr>world := w\<rparr> = e" for e :: "unit engine"
  by (cases e) simp

lemma max_pages: "Suc 9999 = MAX_PAGES"
  by (simp add: MAX_PAGES_def)

lemmas first_page = list_pages.simps(2) [of _ _ _ _ _ 9999, unfolded max_pages]

lemma quiet_files [simp]:
  "secure_dir quiet_env p u = (None, ())"
  "write_file quiet_env p d u = (if parent_dir p = None then Some ''missing parent'' else None, ())"
  "atomic_write quiet_env p d u =
     (if parent_dir p = None then Write_Failed ''missing parent'' else Written, ())"
  by (simp_all add: secure_dir_def and_io_def no_symlink_def write_file_def atomic_write_def
      split: option.split)

lemma quiet_config [simp]: "parent_dir (config_path ''/home/m'') = Some ''/home/m''"
  by (simp add: config_path_def join_def parent_dir_def ends_with_def starts_with_def)

lemmas prog_evals =
  bind_p_def seq_p_def ret_def throw_def give_def reads_def modify_def ensure_p_def attempt_def
  when_p_def ask_def perform_def no_value_def ensure_def from_sum_def set_st_def set_st_with_def
  quiet_events Let_def

lemmas state_evals =
  fresh_state_def sample_state_def sample_config_def sample_pool_def sample_pool_state_def
  default_pool_state_def simple_uuid_def sample_auth_def auth_pat_def default_manager_def engine_of_def
  sample_engine_def empty_cache_def sample_run_def

lemmas map_evals =
  bm_keys_def bm_values_def pool_runs_def find_pool_def forced_runs_def bm_contains_key_def
  bm_update_def update_pool_def put_run_def publish_def

lemmas docker_evals =
  docker_list_def docker_command_def docker_run_def await_def docker_image_def from_utf8_def
  from_utf8_at.simps

lemmas github_evals =
  gh_list_def first_page gh_request_def not_blocked_def access_token_def credential_def secret_def
  secret_source_def send_http_def read_json_def runners_of_def auth_key_def update_cache_def
  api_scope_def json_get_def guarded_def put_list_def is_success_def

lemmas reconcile_evals =
  tick_def turn_def reconcile_def reconcile_runs_def finish_turn_def add_run_def expire_logs_def
  external_def check_epoch_def interrupted_def mark_retiring_p_def mark_retiring_def save_def
  store_save_def conclude_def note_report_def note_observed_def retire_order_def
  replenishment_allowed_def kept_def manager_prefix_def continuation_def
  new_run_def clear_error_def

lemmas handle_evals =
  handle_local_def handle_inner_def handle_request_def handle_stop_def handle_start_def
  handle_remove_def handle_scale_def handle_upgrade_def handle_add_def targets_def existing_pool_def
  not_deleting_def has_runs_def start_pool_def save_def store_save_def clean_file_def read_config_def
  update_runs_of_def bm_update_where_def

lemmas commit_evals =
  commit_config_def validate_evals text_evals write_config_def clear_github_def clear_cache_def
  edited_config_def with_pools_def

lemmas retire_evals =
  mark_retiring_p_def mark_retiring_def retire_order_def retire_key_of_def keep_count_def
  bump_generation_def less_eq_retire_key_def set_retiring_def

text \<open>The first tick of the fresh manager creates a run.\<close>

definition first_run :: run where
  "first_run = new_run
     \<lparr>cx_name = ''web'', cx_pool = sample_pool, cx_ps = sample_pool_state, cx_allow = True,
      cx_manager = ''0123456789ab'', cx_auth = sample_auth, cx_scope = ''/orgs/acme'',
      cx_containers = [], cx_remotes = []\<rparr> ''rc-01234567-1234567890ab4cde8f01234567890abc'' 1000"

lemma first_tick:
  "\<exists>e. tick quiet_env (engine_of fresh_state ()) = (Ok (), e) \<and> mutations e = 0
     \<and> s_runs (st e) = [(''rc-01234567-1234567890ab4cde8f01234567890abc'', first_run)]"
  by (simp add: first_run_def prog_evals state_evals map_evals docker_evals github_evals
      reconcile_evals text_evals)

end
