(* ===== verification/Requests.thy ===== *)
theory Requests
  imports Sample
begin

text \<open>
  What an accepted control request has done, and what a refused one has left alone
  (\<open>handle_local\<close> and \<open>handle_inner\<close> of src/manager.rs), for each kind of request.
\<close>

section \<open>Accepted requests\<close>

lemma save_returns: "save E e = (Ok u, e') \<Longrightarrow> st e' = st e \<and> row e' = Some (st e)
    \<and> config_file e' = config_file e"
  using post_save [of "\<lambda>_ e'. st e' = st e \<and> row e' = Some (st e) \<and> config_file e' = config_file e"
      "\<lambda>_ _. True" E e]
  by (auto split: option.splits)

lemma handle_local_returns: "handle_local E r e = (Ok v, e') \<Longrightarrow>
   \<exists>e1. handle_inner E r e = (Ok v, e1) \<and> e' = (if mutating r then bump_epoch e1 else e1)"
  by (cases "handle_inner E r e" rule: outcome_cases) (auto simp: handle_local_def returns)

lemma handle_request_returns: "handle_local E r e = (Ok v, e') \<Longrightarrow> mutating r \<Longrightarrow>
   \<exists>e1. handle_request E r e = (Ok v, e1) \<and> e' = bump_epoch e1"
  using handle_local_returns [of E r e v e']
  by (cases "changes_config r")
    (auto simp: handle_inner_def clean_file_def read_config_def returns)

lemma bump_sel [simp]:
  "st (bump_epoch e) = st e" "row (bump_epoch e) = row e" "config_file (bump_epoch e) = config_file e"
  by (simp_all add: bump_epoch_def)

lemma update_sel [simp]:
  "s_runs (update_pool n f s) = s_runs s" "s_pools (update_runs_of i g s) = s_pools s"
  "s_config (update_pool n f s) = s_config s" "s_config (update_runs_of i g s) = s_config s"
  "bm_get (s_pools (update_pool n f s)) m =
     (if m = n then map_option f (bm_get (s_pools s) n) else bm_get (s_pools s) m)"
  "bm_get (s_runs (update_runs_of i g s)) k =
     map_option (\<lambda>r. if run_pool_id r = i then g r else r) (bm_get (s_runs s) k)"
  by (simp_all add: update_pool_def update_runs_of_def)

section \<open>Stopping and removing\<close>

definition halted :: "bool \<Rightarrow> string \<Rightarrow> state \<Rightarrow> bool" where
  "halted force pid s \<longleftrightarrow> (\<forall>k r. bm_get (s_runs s) k = Some r \<longrightarrow> run_pool_id r = pid \<longrightarrow>
     run_retiring r \<and> (force \<longrightarrow> run_force r))"

definition stopped_in :: "bool \<Rightarrow> string \<Rightarrow> state \<Rightarrow> bool" where
  "stopped_in force n s \<longleftrightarrow>
     (\<exists>ps. bm_get (s_pools s) n = Some ps \<and> \<not> ps_running ps \<and> halted force (ps_id ps) s)"

lemma halted_update [simp]: "halted force pid (update_pool n f s) = halted force pid s"
  by (simp add: halted_def)

lemma halted_retire:
  "i = pid \<or> halted force pid s \<Longrightarrow> halted force pid (update_runs_of i (retire_force force) s)"
  unfolding halted_def
proof (intro allI impI)
  fix k r
  assume "i = pid \<or> (\<forall>k r. bm_get (s_runs s) k = Some r \<longrightarrow> run_pool_id r = pid \<longrightarrow>
      run_retiring r \<and> (force \<longrightarrow> run_force r))"
    and "bm_get (s_runs (update_runs_of i (retire_force force) s)) k = Some r" "run_pool_id r = pid"
  moreover from this obtain r0 where "bm_get (s_runs s) k = Some r0"
    "r = (if run_pool_id r0 = i then retire_force force r0 else r0)" by auto
  ultimately show "run_retiring r \<and> (force \<longrightarrow> run_force r)"
    by (cases "run_pool_id r0 = i") auto
qed

lemma stopped_step:
  assumes "bm_get (s_pools s) n = Some ps" "m = n \<or> stopped_in force m s"
  shows "stopped_in force m
    (update_runs_of (ps_id ps) (retire_force force) (update_pool n (stop_pool force) s))"
  using assms by (auto simp: stopped_in_def halted_retire stop_pool_def)

lemma stop_pools_stopped:
  "stop_pools force names s = Ok s' \<Longrightarrow> m \<in> set names \<or> stopped_in force m s \<Longrightarrow> stopped_in force m s'"
proof (induction force names s rule: stop_pools.induct)
  case (2 force n ns s)
  then obtain ps where ps: "bm_get (s_pools s) n = Some ps"
    and rest: "stop_pools force ns (update_runs_of (ps_id ps) (retire_force force)
       (update_pool n (stop_pool force) s)) = Ok s'" by auto
  from "2.prems"(2) stopped_step [OF ps, of m force] show ?case
    by (intro "2.IH" [OF rest]) auto
qed simp

text \<open>
  C11: a stop that is accepted has disabled every target pool and marked all its runs for
  retirement, and for termination when it was forced, in memory and in the store alike.
\<close>

theorem stop_takes_effect:
  assumes "handle_local E (Stop p all force) e = (Ok v, e')"
    "n \<in> (case p of Some m \<Rightarrow> {m} | None \<Rightarrow> set (bm_keys (s_pools (st e))))"
  shows "\<exists>ps. row e' = Some (st e') \<and> bm_get (s_pools (st e')) n = Some ps \<and> \<not> ps_running ps
     \<and> (\<forall>k r. bm_get (s_runs (st e')) k = Some r \<longrightarrow> run_pool_id r = ps_id ps \<longrightarrow>
          run_retiring r \<and> (force \<longrightarrow> run_force r))"
proof -
  obtain e1 where e1: "handle_request E (Stop p all force) e = (Ok v, e1)" "e' = bump_epoch e1"
    using handle_request_returns [OF assms(1)] by auto
  then obtain names s' where t: "targets (st e) p all = Ok names"
    "stop_pools force names (st e) = Ok s'" "st e1 = s'" "row e1 = Some s'"
    by (auto simp: handle_request_def handle_stop_def returns set_st_def dest!: save_returns)
  have "n \<in> set names" using t(1) assms(2) by (auto simp: targets_def split: option.splits)
  then show ?thesis
    using stop_pools_stopped [OF t(2), of n] t e1(2) by (auto simp: stopped_in_def halted_def)
qed

theorem stop_takes_effect_witness:
  "\<exists>v e' ps. handle_local quiet_env (Stop (Some ''web'') False True) (sample_engine ()) = (Ok v, e')
     \<and> row e' = Some (st e') \<and> bm_get (s_pools (st e')) ''web'' = Some ps \<and> \<not> ps_running ps
     \<and> (\<forall>k r. bm_get (s_runs (st e')) k = Some r \<longrightarrow> run_pool_id r = ps_id ps \<longrightarrow>
          run_retiring r \<and> run_force r)"
proof -
  have "\<exists>v e'. handle_local quiet_env (Stop (Some ''web'') False True) (sample_engine ()) = (Ok v, e')"
    by (simp add: handle_evals prog_evals state_evals map_evals)
  then show ?thesis using stop_takes_effect [of quiet_env "Some ''web''" False True] by fastforce
qed

text \<open>
  A removal that is accepted only records the intent: the pool is stopped and marked as being
  deleted and all its runs as retiring (and to be terminated when it was forced), while the
  configuration keeps the pool until a reconciliation finds it drained.
\<close>

theorem remove_takes_effect:
  assumes "handle_local E (Remove name force) e = (Ok v, e')"
  shows "\<exists>ps. row e' = Some (st e') \<and> bm_get (s_pools (st e')) name = Some ps
     \<and> \<not> ps_running ps \<and> ps_deleting ps
     \<and> s_config (st e') = s_config (st e)
     \<and> (\<forall>k r. bm_get (s_runs (st e')) k = Some r \<longrightarrow> run_pool_id r = ps_id ps \<longrightarrow>
          run_retiring r \<and> (force \<longrightarrow> run_force r))"
proof -
  obtain e1 where "handle_request E (Remove name force) e = (Ok v, e1)" "e' = bump_epoch e1"
    using handle_request_returns [OF assms] by auto
  then obtain ps where ps: "bm_get (s_pools (st e)) name = Some ps" "row e' = Some (st e')"
    "st e' = update_runs_of (ps_id ps) (retire_force force) (update_pool name (delete_pool force) (st e))"
    by (auto simp: handle_request_def handle_remove_def returns set_st_def dest!: save_returns)
  have "halted force (ps_id ps) (st e')" unfolding ps(3) by (rule halted_retire) simp
  then show ?thesis using ps by (auto simp: halted_def delete_pool_def)
qed

theorem remove_takes_effect_witness:
  "\<exists>v e' ps. handle_local quiet_env (Remove ''web'' False) (sample_engine ()) = (Ok v, e')
     \<and> row e' = Some (st e') \<and> bm_get (s_pools (st e')) ''web'' = Some ps \<and> \<not> ps_running ps
     \<and> ps_deleting ps \<and> (\<forall>k r. bm_get (s_runs (st e')) k = Some r \<longrightarrow> run_pool_id r = ps_id ps \<longrightarrow>
          run_retiring r)"
proof -
  have "\<exists>v e'. handle_local quiet_env (Remove ''web'' False) (sample_engine ()) = (Ok v, e')"
    by (simp add: handle_evals prog_evals state_evals map_evals)
  then show ?thesis using remove_takes_effect [of quiet_env "''web''" False] by fastforce
qed

lemma start_pool_twice: "start_pool \<circ> start_pool = start_pool"
  by (simp add: fun_eq_iff start_pool_def)

lemma start_pools_get:
  "bm_get (s_pools (start_pools ns s)) m =
     (if m \<in> set ns then map_option start_pool (bm_get (s_pools s) m) else bm_get (s_pools s) m)
   \<and> s_config (start_pools ns s) = s_config s \<and> s_runs (start_pools ns s) = s_runs s"
  by (induction ns arbitrary: s) (auto simp: option.map_comp start_pool_twice)

text \<open>
  A start that is accepted makes every target pool run with a cleared backoff, changes nothing
  of any other pool, of the runs or of the configuration, and no target was being deleted.
\<close>

theorem start_takes_effect:
  assumes "handle_local E (Start p all) e = (Ok v, e')"
  shows "\<exists>names. targets (st e) p all = Ok names \<and> row e' = Some (st e')
     \<and> s_config (st e') = s_config (st e) \<and> s_runs (st e') = s_runs (st e)
     \<and> (\<forall>n ps. bm_get (s_pools (st e)) n = Some ps \<longrightarrow>
          bm_get (s_pools (st e')) n =
            Some (if n \<in> set names
                  then ps\<lparr>ps_running := True, ps_retry_at := 0, ps_failures := 0, ps_error := None\<rparr>
                  else ps)
          \<and> (n \<in> set names \<longrightarrow> \<not> ps_deleting ps))"
proof -
  obtain e1 where "handle_request E (Start p all) e = (Ok v, e1)" "e' = bump_epoch e1"
    using handle_request_returns [OF assms] by auto
  then obtain names oks where t: "targets (st e) p all = Ok names"
    "map_res (not_deleting (st e)) names = Ok oks" "list_all (\<lambda>b. b) oks"
    "st e' = start_pools names (st e)" "row e' = Some (st e')"
    by (auto simp: handle_request_def handle_start_def returns set_st_with_def clear_github_def
        dest!: save_returns)
  have "map_res (not_deleting s) ns = Ok bs \<Longrightarrow> list_all (\<lambda>b. b) bs \<Longrightarrow>
      \<forall>n \<in> set ns. \<exists>ps. bm_get (s_pools s) n = Some ps \<and> \<not> ps_deleting ps" for s ns bs
    by (induction ns arbitrary: bs) (auto simp: not_deleting_def)
  from this [OF t(2,3)] show ?thesis
    using t start_pools_get [of names "st e"] by (fastforce simp: start_pool_def)
qed

theorem start_takes_effect_witness:
  "\<exists>v e' ps. handle_local quiet_env (Start None True) (sample_engine ()) = (Ok v, e')
     \<and> row e' = Some (st e') \<and> bm_get (s_pools (st e')) ''web'' = Some ps \<and> ps_running ps"
proof -
  obtain v e' where h: "handle_local quiet_env (Start None True) (sample_engine ()) = (Ok v, e')"
    by (simp add: handle_evals prog_evals state_evals map_evals clear_github_def)
  have "bm_get (s_pools (st (sample_engine ()))) ''web'' = Some sample_pool_state"
    by (simp add: sample_engine_def engine_of_def sample_state_def)
  with start_takes_effect [OF h] h show ?thesis
    by (fastforce simp: sample_pool_state_def split: if_splits)
qed

section \<open>Changing the configuration\<close>

lemma commit_returns:
  assumes "commit_config E nxt e = (Ok u, e')"
  shows "\<exists>text. well_formed_config nxt \<and> to_toml E nxt = Inr text
     \<and> st e' = committed_state E nxt text (st e) \<and> row e' = Some (st e') \<and> config_file e' = Inr text
     \<and> github e' = clear_cache (github e)"
proof -
  have "post (\<lambda>_ e'. \<exists>text. well_formed_config nxt \<and> to_toml E nxt = Inr text
      \<and> st e' = committed_state E nxt text (st e) \<and> row e' = Some (st e') \<and> config_file e' = Inr text
      \<and> github e' = clear_cache (github e)) (\<lambda>_ _. True) (commit_config E nxt e)"
    by (rule post_commit_config) auto
  then show ?thesis using assms by simp
qed

lemma mark_returns: "mark_retiring_p name e = (Ok u, e') \<Longrightarrow>
    mark_retiring name (st e) = Ok (st e') \<and> row e' = row e \<and> config_file e' = config_file e"
  by (auto simp: mark_retiring_p_def returns set_st_def)

lemma committed_sel [simp]:
  "s_config (committed_state E nxt text s) = nxt"
  "s_revision (committed_state E nxt text s) = s_revision s + 1"
  "s_file_hash (committed_state E nxt text s) = sha256 E text"
  "s_pools (committed_state E nxt text s) = s_pools s"
  "s_runs (committed_state E nxt text s) = s_runs s"
  by (simp_all add: committed_state_def)

lemma find_update_named:
  assumes "\<And>p. pl_name (f p) = pl_name p"
  shows "find (\<lambda>p. pl_name p = m) (update_named name f ps) =
    (if m = name then map_option f (find (\<lambda>p. pl_name p = name) ps) else find (\<lambda>p. pl_name p = m) ps)"
  using assms by (induction ps) auto

lemma find_edited:
  assumes "\<And>p. pl_name (f p) = pl_name p"
  shows "find_pool m (edited_config name f s) =
    (if m = name then map_option f (find_pool name (s_config s)) else find_pool m (s_config s))"
  using find_update_named [of f m name "cfg_pools (s_config s)", OF assms]
  by (simp add: edited_config_def with_pools_def find_pool_def)

text \<open>The common end of scale and upgrade: commit, choose who retires, save.\<close>

lemma commit_mark_save_returns:
  assumes wf: "wf_runs s" "bm_invar (s_pools s)" "bm_invar (cfg_auth nxt)"
      "set (bm_keys (s_pools s)) = set (pool_names nxt)"
    and steps: "commit_config E nxt e = (Ok u, e1)" "mark_retiring_p name e1 = (Ok v, e2)"
      "save E e2 = (Ok w, e3)"
    and s: "st e = s" and ps: "bm_get (s_pools s) name = Some ps"
    and p: "find_pool name nxt = Some p"
  shows "row e3 = Some (st e3) \<and> s_config (st e3) = nxt \<and> s_pools (st e3) = s_pools s
     \<and> s_revision (st e3) = s_revision s + 1
     \<and> (\<exists>text. to_toml E nxt = Inr text \<and> config_file e3 = Inr text
          \<and> s_file_hash (st e3) = sha256 E text)
     \<and> length (filter (\<lambda>r. \<not> run_retiring r) (pool_runs (ps_id ps) (st e3))) \<le> keep_count p ps
     \<and> (\<forall>r \<in> set (pool_runs (ps_id ps) (st e3)). run_generation r \<noteq> ps_generation ps \<longrightarrow> run_retiring r)"
proof -
  obtain t where c: "well_formed_config nxt" "to_toml E nxt = Inr t"
    "st e1 = committed_state E nxt t s" "config_file e1 = Inr t"
    using commit_returns [OF steps(1)] s by auto
  have wf1: "wf_state (st e1)" unfolding c(3) using wf c(1) by (intro wf_committed)
  have ps1: "bm_get (s_pools (st e1)) name = Some ps" and p1: "find_pool name (s_config (st e1)) = Some p"
    using ps p c(3) by simp_all
  have mark: "mark_retiring name (st e1) = Ok (st e3)" and "row e3 = Some (st e3)"
    "config_file e3 = config_file e1"
    using mark_returns [OF steps(2)] save_returns [OF steps(3)] by auto
  moreover obtain runs where "st e3 = st e1\<lparr>s_runs := runs\<rparr>"
    using mark_retiring_spec [OF wf1 ps1 p1] mark by auto
  moreover have "length (filter (\<lambda>r. \<not> run_retiring r) (pool_runs (ps_id ps) (st e3))) \<le> keep_count p ps"
    using mark_retiring_count [OF wf1 ps1 p1 mark] .
  moreover have "\<forall>r \<in> set (pool_runs (ps_id ps) (st e3)). run_generation r \<noteq> ps_generation ps \<longrightarrow> run_retiring r"
    unfolding mark_retiring_runs [OF wf1 ps1 p1 mark]
    by (auto simp: retire_spec_def keeps_place_def pool_runs_def)
  ultimately show ?thesis using c by simp
qed

text \<open>
  C12: an accepted scale changes the replicas of its pool and of no other, raises the revision by
  one, leaves the file, the hash and the store agreeing, and at most the new number of the pool's
  runs stays unmarked.
\<close>

theorem scale_takes_effect:
  assumes wf: "wf_engine e" and h: "handle_local E (Scale name n) e = (Ok v, e')"
  shows "\<exists>p ps. find_pool name (s_config (st e)) = Some p
     \<and> bm_get (s_pools (st e)) name = Some ps \<and> \<not> ps_deleting ps
     \<and> find_pool name (s_config (st e')) = Some (p\<lparr>pl_replicas := n\<rparr>)
     \<and> (\<forall>m. m \<noteq> name \<longrightarrow> find_pool m (s_config (st e')) = find_pool m (s_config (st e)))
     \<and> s_pools (st e') = s_pools (st e) \<and> s_revision (st e') = s_revision (st e) + 1
     \<and> row e' = Some (st e')
     \<and> (\<exists>text. to_toml E (s_config (st e')) = Inr text \<and> config_file e' = Inr text
          \<and> s_file_hash (st e') = sha256 E text)
     \<and> length (filter (\<lambda>r. \<not> run_retiring r) (pool_runs (ps_id ps) (st e'))) \<le> unat n"
proof -
  let ?nxt = "edited_config name (\<lambda>p. p\<lparr>pl_replicas := n\<rparr>) (st e)"
  have wfs: "wf_state (st e)" using wf by (simp add: wf_engine_def)
  obtain e3 where "handle_request E (Scale name n) e = (Ok v, e3)" and e': "e' = bump_epoch e3"
    using handle_request_returns [OF h] by auto
  then obtain e1 e2 where ex: "existing_pool (st e) name = Ok ()"
    and steps: "commit_config E ?nxt e = (Ok (), e1)" "mark_retiring_p name e1 = (Ok (), e2)"
      "save E e2 = (Ok (), e3)"
    by (auto simp: handle_request_def handle_scale_def returns Let_def)
  obtain p ps where p: "find_pool name (s_config (st e)) = Some p"
    and ps: "bm_get (s_pools (st e)) name = Some ps" "\<not> ps_deleting ps"
    using ex by (auto simp: existing_pool_def)
  have find: "find_pool m ?nxt = (if m = name then Some (p\<lparr>pl_replicas := n\<rparr>)
      else find_pool m (s_config (st e)))" for m
    using find_edited [of "\<lambda>p. p\<lparr>pl_replicas := n\<rparr>" m name "st e"] p by simp
  have names: "set (bm_keys (s_pools (st e))) = set (pool_names ?nxt)"
    using wfs edited_config_names [of "\<lambda>p. p\<lparr>pl_replicas := n\<rparr>" name "st e"] by (simp add: wf_state_def)
  have "keep_count (p\<lparr>pl_replicas := n\<rparr>) ps \<le> unat n" by (simp add: keep_count_def)
  with commit_mark_save_returns [OF wf_stateD(5,3) [OF wfs] _ names steps refl ps(1),
      of "p\<lparr>pl_replicas := n\<rparr>"] wf_stateD(2) [OF wfs]
  show ?thesis using p ps find e' by auto
qed

theorem scale_takes_effect_witness:
  "\<exists>v e' p. handle_local quiet_env (Scale ''web'' 1) (sample_engine ()) = (Ok v, e')
     \<and> find_pool ''web'' (s_config (st e')) = Some p \<and> pl_replicas p = 1 \<and> row e' = Some (st e')"
proof -
  obtain v e' where h: "handle_local quiet_env (Scale ''web'' 1) (sample_engine ()) = (Ok v, e')"
    by (simp add: handle_evals prog_evals state_evals map_evals commit_evals retire_evals)
  from scale_takes_effect [OF sample_engine_wf h] h show ?thesis by fastforce
qed

text \<open>
  C13: an accepted upgrade installs an image that passed validation, begins a new generation of the
  pool, and every run of another generation is retiring, in memory and in the store.
\<close>

theorem upgrade_takes_effect:
  assumes wf: "wf_engine e" and h: "handle_local E (Upgrade name img) e = (Ok v, e')"
  shows "\<exists>p ps. find_pool name (s_config (st e)) = Some p
     \<and> bm_get (s_pools (st e)) name = Some ps \<and> \<not> ps_deleting ps
     \<and> find_pool name (s_config (st e')) = Some (p\<lparr>pl_image := img\<rparr>) \<and> validate_image img = Ok ()
     \<and> (\<forall>m. m \<noteq> name \<longrightarrow> find_pool m (s_config (st e')) = find_pool m (s_config (st e)))
     \<and> bm_get (s_pools (st e')) name = Some (ps\<lparr>ps_generation := ps_generation ps + 1\<rparr>)
     \<and> s_revision (st e') = s_revision (st e) + 1 \<and> row e' = Some (st e')
     \<and> (\<forall>k r. bm_get (s_runs (st e')) k = Some r \<longrightarrow> run_pool_id r = ps_id ps \<longrightarrow>
          run_generation r \<noteq> ps_generation ps + 1 \<longrightarrow> run_retiring r)"
proof -
  let ?nxt = "edited_config name (\<lambda>p. p\<lparr>pl_image := img\<rparr>) (st e)"
  let ?s = "update_pool name bump_generation (st e)"
  have wfs: "wf_state (st e)" using wf by (simp add: wf_engine_def)
  have wf1: "wf_state ?s" using wfs by (rule wf_update_pool) (simp add: bump_generation_def)
  obtain e3 where "handle_request E (Upgrade name img) e = (Ok v, e3)" and e': "e' = bump_epoch e3"
    using handle_request_returns [OF h] by auto
  then obtain e1 e2 where ex: "existing_pool (st e) name = Ok ()" and valid: "validate ?nxt = Ok ()"
    and steps: "commit_config E ?nxt (e\<lparr>st := ?s\<rparr>) = (Ok (), e1)" "mark_retiring_p name e1 = (Ok (), e2)"
      "save E e2 = (Ok (), e3)"
    by (auto simp: handle_request_def handle_upgrade_def returns Let_def set_st_with_def)
  obtain p ps where p: "find_pool name (s_config (st e)) = Some p"
    and ps: "bm_get (s_pools (st e)) name = Some ps" "\<not> ps_deleting ps"
    using ex by (auto simp: existing_pool_def)
  let ?ps = "bump_generation ps"
  have find: "find_pool m ?nxt = (if m = name then Some (p\<lparr>pl_image := img\<rparr>)
      else find_pool m (s_config (st e)))" for m
    using find_edited [of "\<lambda>p. p\<lparr>pl_image := img\<rparr>" m name "st e"] p by simp
  have img: "validate_image img = Ok ()"
    using valid find_pool_Some [of name ?nxt "p\<lparr>pl_image := img\<rparr>"] find
    by (auto simp: validate_Ok well_formed_config_def well_formed_pool_def)
  have names: "set (bm_keys (s_pools ?s)) = set (pool_names ?nxt)"
    using wfs edited_config_names [of "\<lambda>p. p\<lparr>pl_image := img\<rparr>" name "st e"]
    by (simp add: wf_state_def update_pool_def)
  have ps1: "bm_get (s_pools ?s) name = Some ?ps" using ps by simp
  have id: "ps_id ?ps = ps_id ps" "ps_generation ?ps = ps_generation ps + 1" by (simp_all add: bump_generation_def)
  have end3: "row e3 = Some (st e3) \<and> s_config (st e3) = ?nxt \<and> s_pools (st e3) = s_pools ?s
      \<and> s_revision (st e3) = s_revision ?s + 1
      \<and> (\<forall>r \<in> set (pool_runs (ps_id ps) (st e3)). run_generation r \<noteq> ps_generation ps + 1 \<longrightarrow> run_retiring r)"
    using commit_mark_save_returns [OF wf_stateD(5,3) [OF wf1] _ names steps _ ps1,
      of "p\<lparr>pl_image := img\<rparr>"] wf_stateD(2) [OF wfs] find by (auto simp: id)
  have "run_retiring r" if "bm_get (s_runs (st e3)) k = Some r" "run_pool_id r = ps_id ps"
    "run_generation r \<noteq> ps_generation ps + 1" for k r
    using end3 that bm_get_values [OF that(1)] by (auto simp: pool_runs_def)
  then show ?thesis using p ps find e' img end3 by (auto simp: bump_generation_def update_pool_def)
qed

theorem upgrade_takes_effect_witness:
  "\<exists>v e' p. handle_local quiet_env (Upgrade ''web'' ''acme/runner:v2'') (sample_engine ()) = (Ok v, e')
     \<and> find_pool ''web'' (s_config (st e')) = Some p \<and> pl_image p = ''acme/runner:v2''
     \<and> (\<forall>k r. bm_get (s_runs (st e')) k = Some r \<longrightarrow> run_pool_id r = ''p1'' \<longrightarrow>
          run_generation r \<noteq> 2 \<longrightarrow> run_retiring r)"
proof -
  obtain v e' where h: "handle_local quiet_env (Upgrade ''web'' ''acme/runner:v2'') (sample_engine ()) = (Ok v, e')"
    by (simp add: handle_evals prog_evals state_evals map_evals commit_evals retire_evals)
  have "bm_get (s_pools (st (sample_engine ()))) ''web'' = Some sample_pool_state"
    by (simp add: sample_engine_def engine_of_def sample_state_def)
  with upgrade_takes_effect [OF sample_engine_wf h] h show ?thesis
    by (fastforce simp: sample_pool_state_def default_pool_state_def simple_uuid_def)
qed

section \<open>Refused requests and the rollback\<close>

text \<open>
  C9: no request panics. One that is accepted leaves memory well formed and, if it changes
  anything, equal to the stored row and with a new epoch; one that is refused leaves memory equal
  to the stored row.
\<close>

theorem request_durable:
  assumes "wf_engine e" "reads_ok E"
  shows "case handle_local E r e of
      (Ok _, e') \<Rightarrow> wf_state (st e') \<and> epoch e' = (if mutating r then epoch e + 1 else epoch e)
        \<and> (if mutating r then row e' = Some (st e') else row e' = row e)
    | (Err _, e') \<Rightarrow> wf_state (st e') \<and> row e' = Some (st e')
    | (Panic _, _) \<Rightarrow> False"
  using handle_local_step [OF assms, of r]
  by (cases "handle_local E r e" rule: outcome_cases) (auto simp: handled_def wf_engine_def)

theorem request_durable_witness:
  "case handle_local quiet_env (Stop (Some ''db'') False True) (sample_engine ()) of
      (Ok _, e') \<Rightarrow> False
    | (Err _, e') \<Rightarrow> wf_state (st e') \<and> row e' = Some (st e')
    | (Panic _, _) \<Rightarrow> False"
proof -
  have "\<exists>er e'. handle_local quiet_env (Stop (Some ''db'') False True) (sample_engine ()) = (Err er, e')"
    by (simp add: handle_evals prog_evals state_evals map_evals reload_def store_load_def)
  then show ?thesis
    using request_durable [OF sample_engine_wf sample_reads(3), of "Stop (Some ''db'') False True" "()"]
    by auto
qed

text \<open>
  C16: no request, accepted or refused, forgets a run or withdraws a retirement or a forced
  termination that was recorded before.
\<close>

theorem request_keeps_runs:
  assumes "wf_engine e" "reads_ok E" "bm_get (s_runs (st e)) k = Some r0"
  shows "\<exists>r1. bm_get (s_runs (st (snd (handle_local E r e)))) k = Some r1
     \<and> run_id r1 = run_id r0 \<and> run_pool_id r1 = run_pool_id r0
     \<and> (run_retiring r0 \<longrightarrow> run_retiring r1) \<and> (run_force r0 \<longrightarrow> run_force r1)"
proof -
  have "intent_le (st e) (st (snd (handle_local E r e)))"
    using handle_local_step [OF assms(1,2), of r]
    by (cases "handle_local E r e" rule: outcome_cases) (auto simp: handled_def)
  then show ?thesis using intent_leD [OF _ assms(3)] by (auto simp: run_le_def)
qed

theorem request_keeps_runs_witness:
  "\<exists>r1. bm_get (s_runs (st (snd (handle_local quiet_env (Start None True) (sample_engine ()))))) ''a'' = Some r1
     \<and> run_id r1 = ''a''"
proof -
  have "bm_get (s_runs (st (sample_engine ()))) ''a'' = Some (sample_run ''a'' 10)"
    by (simp add: sample_engine_def engine_of_def sample_state_def)
  from request_keeps_runs [OF sample_engine_wf sample_reads(3) this, of "Start None True"]
  show ?thesis by (auto simp: sample_run_def)
qed

text \<open>
  C15: a request that would rewrite config.toml is refused while the file has changes that were not
  applied; memory then equals the stored row, and neither the store nor the file is touched.
\<close>

theorem unapplied_edits_protected:
  assumes "changes_config r" "config_file e = Inr text" "sha256 E text \<noteq> s_file_hash (st e)"
    "row e = Some s" "reads_ok E"
  shows "\<exists>e'. handle_local E r e
        = (Err (Msg ''config.toml has unapplied changes; run config apply first''), e')
     \<and> st e' = s \<and> row e' = row e \<and> config_file e' = config_file e \<and> github e' = github e
     \<and> issued e' = issued e"
proof -
  have inner: "handle_inner E r e
      = (Err (Msg ''config.toml has unapplied changes; run config apply first''), e)"
    using assms(1-3)
    by (simp add: handle_inner_def when_p_def clean_file_def read_config_def from_sum_def seq_p_def
        bind_p_def reads_def give_def ensure_p_def ensure_def)
  have "fst (sql_load E w) = None" for w using assms(5) by (simp add: reads_ok_def)
  then show ?thesis
    using assms(4) changes_config_mutating [OF assms(1)]
    by (simp add: handle_local_def attempt_def inner bind_p_def seq_p_def when_p_def reload_def
        store_load_def perform_def ask_def reads_def give_def set_st_def modify_def bump_epoch_def ret_def
        case_prod_beta)
qed

theorem unapplied_edits_protected_witness:
  "\<exists>e'. handle_local quiet_env (Scale ''web'' 1) ((sample_engine ())\<lparr>config_file := Inr ''edited''\<rparr>)
        = (Err (Msg ''config.toml has unapplied changes; run config apply first''), e')
     \<and> st e' = sample_state \<and> config_file e' = Inr ''edited''"
proof -
  let ?e = "(sample_engine ())\<lparr>config_file := Inr ''edited''\<rparr>"
  have "sha256 quiet_env ''edited'' \<noteq> s_file_hash (st ?e)" "row ?e = Some sample_state"
    by (simp_all add: sample_engine_def engine_of_def sample_state_def)
  from unapplied_edits_protected [OF _ _ this sample_reads(3), of "Scale ''web'' 1"]
  show ?thesis by auto
qed

text \<open>
  An apply that was prepared against another revision is refused without touching the store
  or the file.
\<close>

theorem stale_apply_refused:
  assumes "s_revision (st e) \<noteq> revision" "row e = Some s" "reads_ok E"
  shows "\<exists>e'. handle_local E (Apply text revision) e
        = (Err (Msg ''stale revision; read status and retry''), e')
     \<and> st e' = s \<and> row e' = row e \<and> config_file e' = config_file e \<and> issued e' = issued e"
proof -
  have inner: "handle_inner E (Apply text revision) e
      = (Err (Msg ''stale revision; read status and retry''), e)"
    using assms(1)
    by (simp add: handle_inner_def handle_request_def handle_apply_def when_p_def seq_p_def
        bind_p_def reads_def give_def ensure_p_def ensure_def ret_def)
  have "fst (sql_load E w) = None" for w using assms(3) by (simp add: reads_ok_def)
  then show ?thesis
    using assms(2)
    by (simp add: handle_local_def attempt_def inner bind_p_def seq_p_def when_p_def reload_def
        store_load_def perform_def ask_def reads_def give_def set_st_def modify_def bump_epoch_def ret_def
        case_prod_beta)
qed

theorem stale_apply_refused_witness:
  "\<exists>e'. handle_local quiet_env (Apply ''file'' 7) (sample_engine ())
        = (Err (Msg ''stale revision; read status and retry''), e') \<and> st e' = sample_state"
  using stale_apply_refused [of "sample_engine ()" 7 sample_state quiet_env "''file''"]
  by (fastforce simp: sample_engine_def engine_of_def sample_state_def)

section \<open>Who retires\<close>

text \<open>
  C14: of a pool's runs, exactly those that were marked before, those of another generation, and
  those with as many younger runs as the pool keeps are retiring after \<open>mark_retiring\<close>, so no more
  than the pool keeps are left; runs of other pools are unchanged.
\<close>

theorem mark_retiring_keeps_newest:
  assumes "wf_state s" "bm_get (s_pools s) name = Some ps" "find_pool name (s_config s) = Some p"
  shows "\<exists>s'. mark_retiring name s = Ok s' \<and> s_config s' = s_config s \<and> s_pools s' = s_pools s
     \<and> length (filter (\<lambda>r. \<not> run_retiring r) (pool_runs (ps_id ps) s')) \<le> keep_count p ps
     \<and> (\<forall>k. bm_get (s_runs s') k = map_option (\<lambda>r.
          r\<lparr>run_retiring := (run_retiring r \<or> run_pool_id r = ps_id ps
             \<and> (run_generation r \<noteq> ps_generation ps
                \<or> keep_count p ps \<le> length (filter (\<lambda>q. retire_key_of r < retire_key_of q)
                     (pool_runs (ps_id ps) s))))\<rparr>) (bm_get (s_runs s) k))"
proof -
  obtain s' where s': "mark_retiring name s = Ok s'" "s' = s\<lparr>s_runs := s_runs s'\<rparr>"
    and get: "\<forall>i. bm_get (s_runs s') i
        = map_option (retire_spec (keep_count p ps) ps s) (bm_get (s_runs s) i)"
    using mark_retiring_spec [OF assms] by blast
  have "s_config s' = s_config s" "s_pools s' = s_pools s" by (subst s'(2), simp)+
  moreover have "retire_spec (keep_count p ps) ps s =
     (\<lambda>r. r\<lparr>run_retiring := (run_retiring r \<or> run_pool_id r = ps_id ps
         \<and> (run_generation r \<noteq> ps_generation ps
            \<or> keep_count p ps \<le> length (filter (\<lambda>q. retire_key_of r < retire_key_of q)
                 (pool_runs (ps_id ps) s))))\<rparr>)"
    by (auto simp: fun_eq_iff retire_spec_def keeps_place_def newer_def set_retiring_def not_less)
  ultimately show ?thesis
    using s'(1) get mark_retiring_count [OF assms s'(1)] by auto
qed

theorem mark_retiring_keeps_newest_witness:
  "\<exists>s'. mark_retiring ''web'' sample_state = Ok s'
     \<and> length (filter (\<lambda>r. \<not> run_retiring r) (pool_runs ''p1'' s')) \<le> 2"
proof -
  have "bm_get (s_pools sample_state) ''web'' = Some sample_pool_state"
    "find_pool ''web'' (s_config sample_state) = Some sample_pool"
    by (simp_all add: sample_state_def sample_config_def sample_pool_def find_pool_def)
  from mark_retiring_keeps_newest [OF sample_wf this] show ?thesis
    by (auto simp: keep_count_def sample_pool_def sample_pool_state_def default_pool_state_def simple_uuid_def)
qed

end
