(* ===== verification/Control_Spec.thy ===== *)
theory Control_Spec
  imports Requests
begin

text \<open>
  What the requests of the command line mean to an operator: an abstract view of the manager's
  state (pools, profiles, revision and runs), a step relation \<open>intends\<close> with a rule for each kind
  of request, and the proof that the handlers of Engine refine it. The view forgets observations,
  failures, deadlines, job identities and the order in which runs are chosen for retirement: the
  specification only says that those which stay are of the pool's generation, and not more than
  the pool is to have.
\<close>

section \<open>What an operator sees\<close>

record pool_intent =
  pi_settings :: pool
  pi_id :: string
  pi_running :: bool
  pi_deleting :: bool
  pi_generation :: u64

record run_intent =
  ri_pool :: string
  ri_generation :: u64
  ri_retiring :: bool
  ri_force :: bool

record intent =
  in_revision :: u64
  in_manager :: manager
  in_auth :: "string \<Rightarrow> auth option"
  in_pools :: "string \<Rightarrow> pool_intent option"
  in_runs :: "string \<Rightarrow> run_intent option"

definition pool_view :: "pool \<Rightarrow> pool_state \<Rightarrow> pool_intent" where
  "pool_view p ps = \<lparr>pi_settings = p, pi_id = ps_id ps, pi_running = ps_running ps,
     pi_deleting = ps_deleting ps, pi_generation = ps_generation ps\<rparr>"

definition run_view :: "run \<Rightarrow> run_intent" where
  "run_view r = \<lparr>ri_pool = run_pool_id r, ri_generation = run_generation r,
     ri_retiring = run_retiring r, ri_force = run_force r\<rparr>"

definition pools_view :: "state \<Rightarrow> string \<Rightarrow> pool_intent option" where
  "pools_view s n = (case find_pool n (s_config s) of
       None \<Rightarrow> None | Some p \<Rightarrow> map_option (pool_view p) (bm_get (s_pools s) n))"

definition view :: "state \<Rightarrow> intent" where
  "view s = \<lparr>in_revision = s_revision s, in_manager = cfg_manager (s_config s),
     in_auth = bm_get (cfg_auth (s_config s)), in_pools = pools_view s,
     in_runs = (\<lambda>k. map_option run_view (bm_get (s_runs s) k))\<rparr>"

section \<open>The specification\<close>

definition selected :: "intent \<Rightarrow> string option \<Rightarrow> bool \<Rightarrow> string set \<Rightarrow> bool" where
  "selected a p all T \<longleftrightarrow> (case p of
       Some n \<Rightarrow> \<not> all \<and> T = {n} \<and> in_pools a n \<noteq> None | None \<Rightarrow> all \<and> T = dom (in_pools a))"

definition on_pools :: "string set \<Rightarrow> (pool_intent \<Rightarrow> pool_intent) \<Rightarrow> intent \<Rightarrow> intent" where
  "on_pools T f a = a\<lparr>in_pools := (\<lambda>n. if n \<in> T then map_option f (in_pools a n) else in_pools a n)\<rparr>"

text \<open>All runs of these pools retire, and are terminated if so asked.\<close>

definition dismiss :: "string set \<Rightarrow> bool \<Rightarrow> intent \<Rightarrow> intent" where
  "dismiss T force a = a\<lparr>in_runs := (\<lambda>k. map_option (\<lambda>r.
      if \<exists>n \<in> T. \<exists>q. in_pools a n = Some q \<and> pi_id q = ri_pool r
      then r\<lparr>ri_retiring := True, ri_force := (ri_force r \<or> force)\<rparr> else r) (in_runs a k))\<rparr>"

text \<open>Some runs of the pools with these identifiers retire; the choice is open.\<close>

definition thinned :: "string set \<Rightarrow> (string \<Rightarrow> run_intent option) \<Rightarrow> (string \<Rightarrow> run_intent option) \<Rightarrow> bool" where
  "thinned I R R' \<longleftrightarrow> (\<forall>k. R' k = R k \<or>
     (\<exists>r. R k = Some r \<and> ri_pool r \<in> I \<and> R' k = Some (r\<lparr>ri_retiring := True\<rparr>)))"

text \<open>The runs of a pool that stay are of its generation, and not more than it is to have.\<close>

definition staying :: "pool_intent \<Rightarrow> (string \<Rightarrow> run_intent option) \<Rightarrow> string set" where
  "staying q R = {k. \<exists>r. R k = Some r \<and> ri_pool r = pi_id q \<and> \<not> ri_retiring r}"

definition capacity :: "pool_intent \<Rightarrow> nat" where
  "capacity q = (if pi_running q \<and> \<not> pi_deleting q then unat (pl_replicas (pi_settings q)) else 0)"

definition within_limits :: "pool_intent \<Rightarrow> (string \<Rightarrow> run_intent option) \<Rightarrow> bool" where
  "within_limits q R \<longleftrightarrow> card (staying q R) \<le> capacity q
     \<and> (\<forall>k r. k \<in> staying q R \<longrightarrow> R k = Some r \<longrightarrow> ri_generation r = pi_generation q)"

text \<open>What applying an edited file does to a pool that exists.\<close>

definition edited :: "intent \<Rightarrow> pool_intent \<Rightarrow> pool_intent \<Rightarrow> bool" where
  "edited a q q' \<longleftrightarrow> \<not> pi_deleting q
     \<and> (\<exists>p. q' = q\<lparr>pi_settings := p,
          pi_generation := pi_generation q + (if new_generation (pi_settings q) p then 1 else 0)\<rparr>
        \<and> (api_scope (pi_settings q) \<noteq> api_scope p \<or> pl_auth (pi_settings q) \<noteq> pl_auth p \<longrightarrow>
            \<not> pi_running q \<and> (\<forall>k r. in_runs a k = Some r \<longrightarrow> ri_pool r \<noteq> pi_id q)))"

inductive intends :: "(string \<Rightarrow> config option) \<Rightarrow> request \<Rightarrow> intent \<Rightarrow> intent \<Rightarrow> bool" for toml where
  queried: "\<not> mutating r \<Longrightarrow> intends toml r a a"
| added: "in_pools a (pl_name p) = None \<Longrightarrow>
    intends toml (Add p) a (a\<lparr>in_revision := in_revision a + 1, in_pools := (in_pools a)(pl_name p \<mapsto>
      \<lparr>pi_settings = p, pi_id = i, pi_running = False, pi_deleting = False, pi_generation = 1\<rparr>)\<rparr>)"
| started: "selected a p all T \<Longrightarrow> \<forall>n \<in> T. \<forall>q. in_pools a n = Some q \<longrightarrow> \<not> pi_deleting q \<Longrightarrow>
    intends toml (Start p all) a (on_pools T (\<lambda>q. q\<lparr>pi_running := True\<rparr>) a)"
| stopped: "selected a p all T \<Longrightarrow>
    intends toml (Stop p all force) a (on_pools T (\<lambda>q. q\<lparr>pi_running := False\<rparr>) (dismiss T force a))"
| removed: "in_pools a n \<noteq> None \<Longrightarrow>
    intends toml (Remove n force) a
      (on_pools {n} (\<lambda>q. q\<lparr>pi_running := False, pi_deleting := True\<rparr>) (dismiss {n} force a))"
| scaled: "in_pools a n = Some q \<Longrightarrow> \<not> pi_deleting q \<Longrightarrow>
    q' = q\<lparr>pi_settings := (pi_settings q)\<lparr>pl_replicas := k\<rparr>\<rparr> \<Longrightarrow>
    thinned {pi_id q} (in_runs a) R \<Longrightarrow> within_limits q' R \<Longrightarrow>
    intends toml (Scale n k) a (a\<lparr>in_revision := in_revision a + 1, in_pools := (in_pools a)(n \<mapsto> q'), in_runs := R\<rparr>)"
| upgraded: "in_pools a n = Some q \<Longrightarrow> \<not> pi_deleting q \<Longrightarrow> validate_image img = Ok () \<Longrightarrow>
    q' = q\<lparr>pi_settings := (pi_settings q)\<lparr>pl_image := img\<rparr>, pi_generation := pi_generation q + 1\<rparr> \<Longrightarrow>
    thinned {pi_id q} (in_runs a) R \<Longrightarrow> within_limits q' R \<Longrightarrow>
    intends toml (Upgrade n img) a (a\<lparr>in_revision := in_revision a + 1, in_pools := (in_pools a)(n \<mapsto> q'), in_runs := R\<rparr>)"
| authorised: "valid_name profile \<Longrightarrow>
    intends toml (Auth profile cred app) a (a\<lparr>in_revision := in_revision a + 1,
      in_auth := (in_auth a)(profile \<mapsto> \<lparr>au_credential = cred, au_app = app\<rparr>)\<rparr>)"
| applied: "parse_config toml txt = Ok c \<Longrightarrow> in_manager b = cfg_manager c \<Longrightarrow> in_auth b = bm_get (cfg_auth c) \<Longrightarrow>
    \<forall>n. map_option pi_settings (in_pools b n) = find_pool n c \<Longrightarrow>
    in_revision a = revision \<Longrightarrow> in_revision b = revision + 1 \<Longrightarrow>
    \<forall>n q. in_pools a n = Some q \<longrightarrow> (\<exists>q'. in_pools b n = Some q' \<and> edited a q q') \<Longrightarrow>
    \<forall>n q'. in_pools a n = None \<longrightarrow> in_pools b n = Some q' \<longrightarrow>
      \<not> pi_running q' \<and> \<not> pi_deleting q' \<and> pi_generation q' = 1 \<Longrightarrow>
    thinned (pi_id ` ran (in_pools b)) (in_runs a) (in_runs b) \<Longrightarrow>
    \<forall>q \<in> ran (in_pools b). within_limits q (in_runs b) \<Longrightarrow>
    intends toml (Apply txt revision) a b"

section \<open>The view of each operation\<close>

lemma view_sel [simp]:
  "in_revision (view s) = s_revision s" "in_manager (view s) = cfg_manager (s_config s)"
  "in_auth (view s) = bm_get (cfg_auth (s_config s))" "in_pools (view s) = pools_view s"
  "in_runs (view s) k = map_option run_view (bm_get (s_runs s) k)"
  by (simp_all add: view_def)

lemma pool_view_sel [simp]:
  "pi_settings (pool_view p ps) = p" "pi_id (pool_view p ps) = ps_id ps"
  "pi_running (pool_view p ps) = ps_running ps" "pi_deleting (pool_view p ps) = ps_deleting ps"
  "pi_generation (pool_view p ps) = ps_generation ps"
  by (simp_all add: pool_view_def)

lemma run_view_sel [simp]:
  "ri_pool (run_view r) = run_pool_id r" "ri_generation (run_view r) = run_generation r"
  "ri_retiring (run_view r) = run_retiring r" "ri_force (run_view r) = run_force r"
  by (simp_all add: run_view_def)

lemma intent_eqI:
  assumes "in_revision a = in_revision b" "in_manager a = in_manager b" "in_auth a = in_auth b"
    "in_pools a = in_pools b" "in_runs a = in_runs b"
  shows "a = (b :: intent)"
  using assms by (cases a; cases b) simp

text \<open>In a well-formed state the pools of the configuration are those of the manager.\<close>

lemma pools_view_Some: "wf_state s \<Longrightarrow> bm_get (s_pools s) n = Some ps \<Longrightarrow>
    \<exists>p. find_pool n (s_config s) = Some p \<and> pools_view s n = Some (pool_view p ps)"
  using wf_pool_config [of s n ps] by (auto simp: pools_view_def)

lemma pools_view_None: "wf_state s \<Longrightarrow> pools_view s n = None \<longleftrightarrow> bm_get (s_pools s) n = None"
  using wf_pool_config [of s n] by (cases "bm_get (s_pools s) n") (auto simp: pools_view_def split: option.split)

lemma pools_viewD: "pools_view s n = Some q \<Longrightarrow>
    \<exists>p ps. find_pool n (s_config s) = Some p \<and> bm_get (s_pools s) n = Some ps \<and> q = pool_view p ps"
  by (auto simp: pools_view_def split: option.splits)

lemma selected_targets:
  assumes "wf_state s" "targets s p all = Ok names"
  shows "selected (view s) p all (set names)"
proof (cases p)
  case None
  have "dom (pools_view s) = dom (bm_get (s_pools s))"
    using pools_view_None [OF assms(1)] by (auto simp: dom_def)
  with None assms(2) show ?thesis by (auto simp: targets_def selected_def set_bm_keys)
next
  case (Some n)
  with assms show ?thesis
    using pools_view_None [OF assms(1), of n]
    by (auto simp: targets_def selected_def bm_contains_key_def)
qed

lemma pools_view_cong: "s_config s' = s_config s \<Longrightarrow> bm_get (s_pools s') n = map_option f (bm_get (s_pools s) n) \<Longrightarrow>
    (\<And>p ps. pool_view p (f ps) = g (pool_view p ps)) \<Longrightarrow> pools_view s' n = map_option g (pools_view s n)"
  by (simp add: pools_view_def option.map_comp comp_def split: option.split)

lemma pools_view_same: "s_config s' = s_config s \<Longrightarrow> bm_get (s_pools s') n = bm_get (s_pools s) n \<Longrightarrow>
    pools_view s' n = pools_view s n"
  by (simp add: pools_view_def split: option.split)

definition marked :: "string set \<Rightarrow> state \<Rightarrow> run \<Rightarrow> bool" where
  "marked T s r \<longleftrightarrow> (\<exists>n \<in> T. \<exists>ps. bm_get (s_pools s) n = Some ps \<and> ps_id ps = run_pool_id r)"

lemma retire_force_twice [simp]: "retire_force f (retire_force f r) = retire_force f r"
  "run_pool_id (retire_force f r) = run_pool_id r"
  by (simp_all add: retire_force_def)

lemma stop_pool_twice [simp]: "stop_pool f (stop_pool f p) = stop_pool f p" "ps_id (stop_pool f p) = ps_id p"
  by (simp_all add: stop_pool_def)

lemma revision_update [simp]: "s_revision (update_pool n f s) = s_revision s"
    "s_revision (update_runs_of i g s) = s_revision s"
  by (simp_all add: update_pool_def update_runs_of_def)

lemma stop_pools_get:
  assumes "stop_pools force ns s = Ok s'"
  shows "s_config s' = s_config s \<and> s_revision s' = s_revision s
    \<and> (\<forall>m. bm_get (s_pools s') m = (if m \<in> set ns
         then map_option (stop_pool force) (bm_get (s_pools s) m) else bm_get (s_pools s) m))
    \<and> (\<forall>k. bm_get (s_runs s') k = map_option (\<lambda>r. if marked (set ns) s r then retire_force force r else r)
         (bm_get (s_runs s) k))"
  using assms
proof (induction force ns s rule: stop_pools.induct)
  case (2 force n ns s)
  obtain ps where ps: "bm_get (s_pools s) n = Some ps"
    and rest: "stop_pools force ns (update_runs_of (ps_id ps) (retire_force force)
      (update_pool n (stop_pool force) s)) = Ok s'" (is "stop_pools _ _ ?s1 = _")
    using "2.prems" by auto
  note IH = "2.IH" [OF rest]
  have "(\<exists>q. bm_get (s_pools ?s1) m = Some q \<and> ps_id q = i)
      \<longleftrightarrow> (\<exists>q. bm_get (s_pools s) m = Some q \<and> ps_id q = i)" for m i
    using ps by (cases "m = n") auto
  then have "marked (set ns) ?s1 r \<longleftrightarrow> marked (set ns) s r" for r
    unfolding marked_def by (simp only:)
  then have runs: "bm_get (s_runs s') k = map_option (\<lambda>r. if marked (set (n # ns)) s r
      then retire_force force r else r) (bm_get (s_runs s) k)" for k
    using IH ps by (cases "bm_get (s_runs s) k") (auto simp: marked_def)
  have "bm_get (s_pools s') m = (if m \<in> set (n # ns) then map_option (stop_pool force) (bm_get (s_pools s) m)
      else bm_get (s_pools s) m)" for m
    using IH ps by simp
  then show ?case using IH runs by simp
qed (auto simp: marked_def option.map_ident)

lemma run_view_retired: "run_view (retire_force force r)
    = (run_view r)\<lparr>ri_retiring := True, ri_force := (run_force r \<or> force)\<rparr>"
  by (simp add: run_view_def retire_force_def)

lemma dismiss_runs:
  assumes "wf_state s" "\<And>k. bm_get (s_runs s') k
      = map_option (\<lambda>r. if marked T s r then retire_force force r else r) (bm_get (s_runs s) k)"
  shows "in_runs (view s') = in_runs (dismiss T force (view s))"
proof
  fix k
  have m: "(\<exists>n \<in> T. \<exists>q. pools_view s n = Some q \<and> pi_id q = run_pool_id r) \<longleftrightarrow> marked T s r" for r
  proof -
    have "(\<exists>q. pools_view s n = Some q \<and> pi_id q = i) \<longleftrightarrow> (\<exists>ps. bm_get (s_pools s) n = Some ps \<and> ps_id ps = i)" for n i
    proof
      assume "\<exists>ps. bm_get (s_pools s) n = Some ps \<and> ps_id ps = i"
      then show "\<exists>q. pools_view s n = Some q \<and> pi_id q = i" using pools_view_Some [OF assms(1), of n] by fastforce
    qed (auto dest!: pools_viewD)
    then show ?thesis unfolding marked_def by (simp only:)
  qed
  show "in_runs (view s') k = in_runs (dismiss T force (view s)) k"
    by (cases "bm_get (s_runs s) k") (auto simp: assms(2) dismiss_def m run_view_retired)
qed

lemma refines_status: "handle_request E (Status p) e = (Ok v, e') \<Longrightarrow> intends ft (Status p) (view (st e)) (view (st e'))"
  by (auto simp: handle_request_def handle_status_def returns intro!: intends.queried)

lemma refines_start:
  assumes wf: "wf_state (st e)" and h: "handle_request E (Start p all) e = (Ok v, e')"
  shows "intends ft (Start p all) (view (st e)) (view (st e'))"
proof -
  obtain names oks where t: "targets (st e) p all = Ok names"
    "map_res (not_deleting (st e)) names = Ok oks" "list_all (\<lambda>b. b) oks" "st e' = start_pools names (st e)"
    using h by (auto simp: handle_request_def handle_start_def returns set_st_with_def clear_github_def
        dest!: save_returns)
  have "map_res (not_deleting s) ns = Ok bs \<Longrightarrow> list_all (\<lambda>b. b) bs \<Longrightarrow>
      \<forall>n \<in> set ns. \<forall>ps. bm_get (s_pools s) n = Some ps \<longrightarrow> \<not> ps_deleting ps" for s ns bs
    by (induction ns arbitrary: bs) (auto simp: not_deleting_def)
  from this [OF t(2,3)] have d: "\<forall>n \<in> set names. \<forall>q. pools_view (st e) n = Some q \<longrightarrow> \<not> pi_deleting q"
    by (auto dest!: pools_viewD)
  have get: "s_config (st e') = s_config (st e)" "s_runs (st e') = s_runs (st e)"
    "bm_get (s_pools (st e')) m = (if m \<in> set names then map_option start_pool (bm_get (s_pools (st e)) m)
       else bm_get (s_pools (st e)) m)" for m
    using start_pools_get [of names "st e"] t(4) by auto
  have "s_revision (start_pools ns s) = s_revision s" for ns s
    by (induction ns arbitrary: s) (auto simp: update_pool_def)
  then have rev: "s_revision (st e') = s_revision (st e)" by (simp add: t(4))
  have "view (st e') = on_pools (set names) (\<lambda>q. q\<lparr>pi_running := True\<rparr>) (view (st e))"
  proof (rule intent_eqI)
    have "pools_view (st e') n = in_pools (on_pools (set names) (\<lambda>q. q\<lparr>pi_running := True\<rparr>) (view (st e))) n" for n
      using get pools_view_cong [OF get(1), of n start_pool "\<lambda>q. q\<lparr>pi_running := True\<rparr>"] pools_view_same [OF get(1), of n]
      by (cases "n \<in> set names") (simp_all add: on_pools_def pool_view_def start_pool_def)
    then show "in_pools (view (st e')) = in_pools (on_pools (set names) (\<lambda>q. q\<lparr>pi_running := True\<rparr>) (view (st e)))"
      by (simp add: fun_eq_iff)
  qed (simp_all add: on_pools_def get rev fun_eq_iff)
  then show ?thesis using intends.started [OF selected_targets [OF wf t(1)]] d by simp
qed

lemma refines_stop:
  assumes wf: "wf_state (st e)" and h: "handle_request E (Stop p all force) e = (Ok v, e')"
  shows "intends ft (Stop p all force) (view (st e)) (view (st e'))"
proof -
  obtain names where t: "targets (st e) p all = Ok names" "stop_pools force names (st e) = Ok (st e')"
    using h by (auto simp: handle_request_def handle_stop_def returns set_st_def dest!: save_returns)
  note get = stop_pools_get [OF t(2)]
  let ?b = "on_pools (set names) (\<lambda>q. q\<lparr>pi_running := False\<rparr>) (dismiss (set names) force (view (st e)))"
  have "view (st e') = ?b"
  proof (rule intent_eqI)
    have "pools_view (st e') n = in_pools ?b n" for n
      using get pools_view_cong [of "st e'" "st e" n "stop_pool force" "\<lambda>q. q\<lparr>pi_running := False\<rparr>"]
        pools_view_same [of "st e'" "st e" n]
      by (cases "n \<in> set names") (simp_all add: on_pools_def dismiss_def pool_view_def stop_pool_def)
    then show "in_pools (view (st e')) = in_pools ?b" by (simp add: fun_eq_iff)
    have "in_runs (view (st e')) = in_runs (dismiss (set names) force (view (st e)))"
      using get by (intro dismiss_runs [OF wf]) blast
    then show "in_runs (view (st e')) = in_runs ?b" by (simp add: on_pools_def)
  qed (use get in \<open>simp_all add: on_pools_def dismiss_def\<close>)
  then show ?thesis using intends.stopped [OF selected_targets [OF wf t(1)]] by simp
qed

lemma refines_remove:
  assumes wf: "wf_state (st e)" and h: "handle_request E (Remove name force) e = (Ok v, e')"
  shows "intends ft (Remove name force) (view (st e)) (view (st e'))"
proof -
  obtain ps where ps: "bm_get (s_pools (st e)) name = Some ps"
    and s': "st e' = update_runs_of (ps_id ps) (retire_force force) (update_pool name (delete_pool force) (st e))"
    using h by (auto simp: handle_request_def handle_remove_def returns set_st_def dest!: save_returns)
  let ?b = "on_pools {name} (\<lambda>q. q\<lparr>pi_running := False, pi_deleting := True\<rparr>) (dismiss {name} force (view (st e)))"
  have "view (st e') = ?b"
  proof (rule intent_eqI)
    have "pools_view (st e') n = in_pools ?b n" for n
      using pools_view_cong [of "st e'" "st e" n "delete_pool force" "\<lambda>q. q\<lparr>pi_running := False, pi_deleting := True\<rparr>"]
        pools_view_same [of "st e'" "st e" n]
      by (cases "n = name") (simp_all add: s' on_pools_def dismiss_def pool_view_def delete_pool_def)
    then show "in_pools (view (st e')) = in_pools ?b" by (simp add: fun_eq_iff)
    have "in_runs (view (st e')) = in_runs (dismiss {name} force (view (st e)))"
      using ps by (intro dismiss_runs [OF wf]) (simp add: s' marked_def eq_commute [of "ps_id ps"])
    then show "in_runs (view (st e')) = in_runs ?b" by (simp add: on_pools_def)
  qed (simp_all add: s' on_pools_def dismiss_def)
  moreover have "in_pools (view (st e)) name \<noteq> None"
    using ps pools_view_None [OF wf, of name] by simp
  ultimately show ?thesis using intends.removed by metis
qed

section \<open>Retiring runs\<close>

lemma card_staying:
  assumes "wf_state s"
  shows "card (staying q (in_runs (view s))) = length (filter (\<lambda>r. \<not> run_retiring r) (pool_runs (pi_id q) s))"
proof -
  let ?rs = "filter (\<lambda>r. \<not> run_retiring r) (pool_runs (pi_id q) s)"
  have "staying q (in_runs (view s)) = run_id ` set ?rs"
  proof (intro equalityI subsetI)
    fix k assume "k \<in> staying q (in_runs (view s))"
    then obtain r where "bm_get (s_runs s) k = Some r" "run_pool_id r = pi_id q" "\<not> run_retiring r"
      by (auto simp: staying_def)
    with wf_runD [OF assms this(1)] have "r \<in> set ?rs" "k = run_id r" by (simp_all add: set_pool_runs [OF assms])
    then show "k \<in> run_id ` set ?rs" by blast
  qed (auto simp: staying_def set_pool_runs [OF assms])
  moreover have "distinct (map run_id ?rs)"
    using distinct_pool_run_ids [OF assms, of "pi_id q"] by (simp add: distinct_map inj_on_def)
  ultimately show ?thesis using distinct_card [of "map run_id ?rs"] by simp
qed

lemma mark_view:
  assumes wf: "wf_state s" and ps: "bm_get (s_pools s) name = Some ps"
    and p: "find_pool name (s_config s) = Some p" and ok: "mark_retiring name s = Ok s'"
  shows "thinned {ps_id ps} (in_runs (view s)) (in_runs (view s'))" "within_limits (pool_view p ps) (in_runs (view s'))"
    "s_config s' = s_config s" "s_pools s' = s_pools s" "s_revision s' = s_revision s" "wf_state s'"
proof -
  obtain runs where s': "s' = s\<lparr>s_runs := runs\<rparr>"
    and get: "\<And>i. bm_get (s_runs s') i = map_option (retire_spec (keep_count p ps) ps s) (bm_get (s_runs s) i)"
    using mark_retiring_spec [OF wf ps p] ok by auto
  show same: "s_config s' = s_config s" "s_pools s' = s_pools s" "s_revision s' = s_revision s"
    by (simp_all add: s')
  show wf': "wf_state s'" using wf_mark_retiring [OF wf ok] .
  show "thinned {ps_id ps} (in_runs (view s)) (in_runs (view s'))"
    unfolding thinned_def
  proof
    fix k
    show "in_runs (view s') k = in_runs (view s) k \<or> (\<exists>r. in_runs (view s) k = Some r
        \<and> ri_pool r \<in> {ps_id ps} \<and> in_runs (view s') k = Some (r\<lparr>ri_retiring := True\<rparr>))"
      by (cases "bm_get (s_runs s) k") (auto simp: get retire_spec_def run_view_def set_retiring_def)
  qed
  have "card (staying (pool_view p ps) (in_runs (view s'))) \<le> capacity (pool_view p ps)"
    using mark_retiring_count [OF wf ps p ok] card_staying [OF wf', of "pool_view p ps"]
    by (simp add: capacity_def keep_count_def split: if_splits)
  moreover have "run_generation r = ps_generation ps"
    if "bm_get (s_runs s') k = Some r" "run_pool_id r = ps_id ps" "\<not> run_retiring r" for k r
    using that by (auto simp: get retire_spec_def keeps_place_def split: if_splits dest: arg_cong [of _ _ run_retiring])
  ultimately show "within_limits (pool_view p ps) (in_runs (view s'))"
    by (auto simp: within_limits_def staying_def)
qed

section \<open>Changing the configuration\<close>

lemma find_snoc: "find P (xs @ [x]) = (case find P xs of None \<Rightarrow> if P x then Some x else None | Some y \<Rightarrow> Some y)"
  by (induction xs) auto

lemma refines_add:
  assumes wf: "wf_state (st e)" and h: "handle_request E (Add p) e = (Ok v, e')"
  shows "intends ft (Add p) (view (st e)) (view (st e'))"
proof -
  let ?nxt = "with_pools (s_config (st e)) (cfg_pools (s_config (st e)) @ [p])"
  obtain u t where new: "\<not> bm_contains_key (s_pools (st e)) (pl_name p)"
    and e': "st e' = committed_state E ?nxt t
      ((st e)\<lparr>s_pools := bm_insert (pl_name p) (default_pool_state u) (s_pools (st e))\<rparr>)"
    using h by (auto simp: handle_request_def handle_add_def returns Let_def set_st_with_def dest!: commit_returns)
  have none: "pools_view (st e) (pl_name p) = None" "find_pool (pl_name p) (s_config (st e)) = None"
  proof -
    show "pools_view (st e) (pl_name p) = None"
      using new pools_view_None [OF wf, of "pl_name p"] by (auto simp: bm_contains_key_def)
    then show "find_pool (pl_name p) (s_config (st e)) = None"
      using new wf find_pool_None [of "pl_name p" "s_config (st e)"]
      by (auto simp: bm_contains_key_keys wf_state_def)
  qed
  have find: "find_pool n ?nxt = (if n = pl_name p then Some p else find_pool n (s_config (st e)))" for n
    using none(2) by (auto simp: find_pool_def with_pools_def find_snoc split: option.split)
  let ?q = "\<lparr>pi_settings = p, pi_id = simple_uuid u, pi_running = False, pi_deleting = False, pi_generation = 1\<rparr>"
  have "view (st e') = (view (st e))\<lparr>in_revision := in_revision (view (st e)) + 1,
      in_pools := (in_pools (view (st e)))(pl_name p \<mapsto> ?q)\<rparr>"
  proof (rule intent_eqI)
    show "in_pools (view (st e')) = in_pools ((view (st e))\<lparr>in_revision := in_revision (view (st e)) + 1,
      in_pools := (in_pools (view (st e)))(pl_name p \<mapsto> ?q)\<rparr>)"
      by (auto simp: fun_eq_iff e' pools_view_def find pool_view_def default_pool_state_def split: option.split)
  qed (simp_all add: e' with_pools_def fun_eq_iff)
  then show ?thesis using intends.added [of "view (st e)" p] none(1) by simp
qed

lemma refines_auth:
  assumes h: "handle_request E (Auth profile cred app) e = (Ok v, e')"
  shows "intends ft (Auth profile cred app) (view (st e)) (view (st e'))"
proof -
  let ?nxt = "(s_config (st e))\<lparr>cfg_auth := bm_insert profile
          \<lparr>au_credential = cred, au_app = app\<rparr> (cfg_auth (s_config (st e)))\<rparr>"
  obtain t where valid: "valid_name profile"
    and e': "st e' = reset_profile profile (committed_state E ?nxt t (st e))"
    using h by (auto simp: handle_request_def handle_auth_def returns Let_def set_st_with_def
        dest!: commit_returns save_returns)
  have get: "bm_get (s_pools (reset_profile profile s)) n
      = map_option (\<lambda>ps. if uses_profile (s_config s) profile n then reset_backoff ps else ps) (bm_get (s_pools s) n)" for s n
  proof -
    have "map_of (map (\<lambda>x. if P (fst x) then (fst x, f (snd x)) else x) m) n
        = map_option (\<lambda>v. if P n then f v else v) (map_of m n)" for P and f :: "pool_state \<Rightarrow> pool_state" and m
      by (induction m) auto
    then show ?thesis by (simp add: reset_profile_def)
  qed
  have sel: "s_config (reset_profile profile s) = s_config s" "s_revision (reset_profile profile s) = s_revision s"
    "s_runs (reset_profile profile s) = s_runs s" for s
    by (simp_all add: reset_profile_def)
  have view_reset: "pool_view p (if b then reset_backoff ps else ps) = pool_view p ps" for p b ps
    by (simp add: pool_view_def reset_backoff_def)
  have "view (st e') = (view (st e))\<lparr>in_revision := in_revision (view (st e)) + 1,
      in_auth := (in_auth (view (st e)))(profile \<mapsto> \<lparr>au_credential = cred, au_app = app\<rparr>)\<rparr>"
  proof (rule intent_eqI)
    have "pools_view (st e') n = pools_view (st e) n" for n
      by (auto simp: e' pools_view_def get sel find_pool_def view_reset option.map_comp comp_def split: option.split)
    then show "in_pools (view (st e')) = in_pools ((view (st e))\<lparr>in_revision := in_revision (view (st e)) + 1,
      in_auth := (in_auth (view (st e)))(profile \<mapsto> \<lparr>au_credential = cred, au_app = app\<rparr>)\<rparr>)"
      by (simp add: fun_eq_iff)
  qed (simp_all add: e' sel fun_eq_iff)
  then show ?thesis using intends.authorised [OF valid, where a = "view (st e)"] by simp
qed

text \<open>Scale and upgrade: an edited pool, committed, then thinned.\<close>

lemma commit_mark_view:
  assumes wf: "wf_runs s" "bm_invar (s_pools s)" "bm_invar (cfg_auth nxt)"
      "set (bm_keys (s_pools s)) = set (pool_names nxt)"
    and steps: "commit_config E nxt e = (Ok u, e1)" "mark_retiring_p name e1 = (Ok v, e2)"
      "save E e2 = (Ok w, e3)" and s: "st e = s"
    and ps: "bm_get (s_pools s) name = Some ps" and p: "find_pool name nxt = Some p"
  shows "thinned {ps_id ps} (in_runs (view s)) (in_runs (view (st e3)))"
    "within_limits (pool_view p ps) (in_runs (view (st e3)))"
    "s_config (st e3) = nxt" "s_pools (st e3) = s_pools s" "s_revision (st e3) = s_revision s + 1"
proof -
  obtain t where c: "well_formed_config nxt" "st e1 = committed_state E nxt t s"
    using commit_returns [OF steps(1)] s by auto
  have wf1: "wf_state (st e1)" unfolding c(2) using wf c(1) by (intro wf_committed)
  have ps1: "bm_get (s_pools (st e1)) name = Some ps" and p1: "find_pool name (s_config (st e1)) = Some p"
    using ps p c(2) by simp_all
  have mark: "mark_retiring name (st e1) = Ok (st e3)"
    using mark_returns [OF steps(2)] save_returns [OF steps(3)] by auto
  have runs: "in_runs (view (st e1)) = in_runs (view s)" by (simp add: c(2) fun_eq_iff)
  note m = mark_view [OF wf1 ps1 p1 mark]
  show "thinned {ps_id ps} (in_runs (view s)) (in_runs (view (st e3)))" using m(1) unfolding runs .
  show "within_limits (pool_view p ps) (in_runs (view (st e3)))" by (rule m(2))
  show "s_config (st e3) = nxt" "s_pools (st e3) = s_pools s" "s_revision (st e3) = s_revision s + 1"
    using m(3-5) c(2) by simp_all
qed

lemma existing_view:
  assumes "existing_pool s name = Ok ()"
  shows "\<exists>p ps. find_pool name (s_config s) = Some p \<and> bm_get (s_pools s) name = Some ps \<and> \<not> ps_deleting ps
    \<and> pools_view s name = Some (pool_view p ps)"
  using assms by (auto simp: existing_pool_def pools_view_def)

lemma edited_view:
  assumes "s_config s' = edited_config name f s" "\<And>p. pl_name (f p) = pl_name p"
    "find_pool name (s_config s) = Some p"
    "bm_get (s_pools s') name = Some ps'" "\<And>n. n \<noteq> name \<Longrightarrow> bm_get (s_pools s') n = bm_get (s_pools s) n"
  shows "pools_view s' = (pools_view s)(name \<mapsto> pool_view (f p) ps')"
  using assms find_edited [OF assms(2), of _ name s]
  by (auto simp: fun_eq_iff pools_view_def split: option.split)

lemma refines_scale:
  assumes wf: "wf_state (st e)" and h: "handle_request E (Scale name k) e = (Ok v, e')"
  shows "intends ft (Scale name k) (view (st e)) (view (st e'))"
proof -
  let ?f = "\<lambda>p. p\<lparr>pl_replicas := k\<rparr>"
  let ?nxt = "edited_config name ?f (st e)"
  obtain e1 e2 where ex: "existing_pool (st e) name = Ok ()"
    and steps: "commit_config E ?nxt e = (Ok (), e1)" "mark_retiring_p name e1 = (Ok (), e2)"
      "save E e2 = (Ok (), e')"
    using h by (auto simp: handle_request_def handle_scale_def returns Let_def)
  obtain p ps where p: "find_pool name (s_config (st e)) = Some p" "bm_get (s_pools (st e)) name = Some ps"
    "\<not> ps_deleting ps" "pools_view (st e) name = Some (pool_view p ps)"
    using existing_view [OF ex] by auto
  have names: "set (bm_keys (s_pools (st e))) = set (pool_names ?nxt)"
    using wf edited_config_names [of ?f name "st e"] by (simp add: wf_state_def)
  have "find_pool name ?nxt = Some (?f p)" using find_edited [of ?f name name "st e"] p(1) by simp
  note m = commit_mark_view [OF wf_stateD(5,3) [OF wf] _ names steps refl p(2) this]
  have auth: "bm_invar (cfg_auth ?nxt)"
    using wf_stateD(2) [OF wf] by (simp add: edited_config_def with_pools_def)
  note m = m [OF auth]
  have "pools_view (st e') = (pools_view (st e))(name \<mapsto> pool_view (?f p) ps)"
    using m(3,4) p by (intro edited_view) simp_all
  then have "view (st e') = (view (st e))\<lparr>in_revision := in_revision (view (st e)) + 1,
      in_pools := (in_pools (view (st e)))(name \<mapsto> pool_view (?f p) ps), in_runs := in_runs (view (st e'))\<rparr>"
    using m(3,5) by (intro intent_eqI) (simp_all add: edited_config_def with_pools_def)
  moreover have "intends ft (Scale name k) (view (st e)) ((view (st e))\<lparr>in_revision := in_revision (view (st e)) + 1,
      in_pools := (in_pools (view (st e)))(name \<mapsto> pool_view (?f p) ps), in_runs := in_runs (view (st e'))\<rparr>)"
    by (rule intends.scaled [where q = "pool_view p ps"]) (use m(1,2) p in \<open>simp_all add: pool_view_def\<close>)
  ultimately show ?thesis by simp
qed

lemma refines_upgrade:
  assumes wf: "wf_state (st e)" and h: "handle_request E (Upgrade name img) e = (Ok v, e')"
  shows "intends ft (Upgrade name img) (view (st e)) (view (st e'))"
proof -
  let ?f = "\<lambda>p. p\<lparr>pl_image := img\<rparr>"
  let ?nxt = "edited_config name ?f (st e)" and ?s = "update_pool name bump_generation (st e)"
  obtain e1 e2 where ex: "existing_pool (st e) name = Ok ()" and valid: "validate ?nxt = Ok ()"
    and steps: "commit_config E ?nxt (e\<lparr>st := ?s\<rparr>) = (Ok (), e1)" "mark_retiring_p name e1 = (Ok (), e2)"
      "save E e2 = (Ok (), e')"
    using h by (auto simp: handle_request_def handle_upgrade_def returns Let_def set_st_with_def)
  obtain p ps where p: "find_pool name (s_config (st e)) = Some p" "bm_get (s_pools (st e)) name = Some ps"
    "\<not> ps_deleting ps" "pools_view (st e) name = Some (pool_view p ps)"
    using existing_view [OF ex] by auto
  have wf1: "wf_state ?s" using wf by (rule wf_update_pool) (simp add: bump_generation_def)
  have names: "set (bm_keys (s_pools ?s)) = set (pool_names ?nxt)"
    using wf edited_config_names [of ?f name "st e"] by (simp add: wf_state_def update_pool_def)
  have find: "find_pool name ?nxt = Some (?f p)" using find_edited [of ?f name name "st e"] p(1) by simp
  have auth: "bm_invar (cfg_auth ?nxt)"
    using wf_stateD(2) [OF wf] by (simp add: edited_config_def with_pools_def)
  have ps1: "bm_get (s_pools ?s) name = Some (bump_generation ps)" using p(2) by simp
  have img: "validate_image img = Ok ()"
    using valid find_pool_Some [OF find] by (auto simp: validate_Ok well_formed_config_def well_formed_pool_def)
  note m = commit_mark_view [OF wf_stateD(5,3) [OF wf1] auth names steps _ ps1 find, simplified]
  have runs: "in_runs (view ?s) = in_runs (view (st e))" by (simp add: fun_eq_iff)
  have "pools_view (st e') = (pools_view (st e))(name \<mapsto> pool_view (?f p) (bump_generation ps))"
    using m(3,4) p by (intro edited_view) (simp_all add: update_pool_def)
  then have "view (st e') = (view (st e))\<lparr>in_revision := in_revision (view (st e)) + 1,
      in_pools := (in_pools (view (st e)))(name \<mapsto> pool_view (?f p) (bump_generation ps)),
      in_runs := in_runs (view (st e'))\<rparr>"
    using m(3,5) by (intro intent_eqI) (simp_all add: edited_config_def with_pools_def)
  moreover have "intends ft (Upgrade name img) (view (st e)) ((view (st e))\<lparr>in_revision := in_revision (view (st e)) + 1,
      in_pools := (in_pools (view (st e)))(name \<mapsto> pool_view (?f p) (bump_generation ps)),
      in_runs := in_runs (view (st e'))\<rparr>)"
    by (rule intends.upgraded [where q = "pool_view p ps"])
      (use m(1,2) p img runs in \<open>simp_all add: pool_view_def bump_generation_def\<close>)
  ultimately show ?thesis by simp
qed

section \<open>Applying a file\<close>

text \<open>What becomes of the entry of a pool of the file.\<close>

definition takes :: "state \<Rightarrow> pool \<Rightarrow> pool_state option \<Rightarrow> pool_state option \<Rightarrow> bool" where
  "takes s p x y \<longleftrightarrow> (case find_pool (pl_name p) (s_config s) of
     None \<Rightarrow> \<exists>u. y = Some (default_pool_state u)
   | Some old \<Rightarrow> \<exists>ps. x = Some ps \<and> \<not> ps_deleting ps
       \<and> y = Some (if new_generation old p then bump_generation ps else ps)
       \<and> (api_scope old \<noteq> api_scope p \<or> pl_auth old \<noteq> pl_auth p \<longrightarrow>
            \<not> ps_running ps \<and> pool_runs (ps_id ps) s = []))"

lemma apply_pool_returns:
  assumes "apply_pool E s pools p e = (Ok pools', e')"
  shows "m \<noteq> pl_name p \<Longrightarrow> bm_get pools' m = bm_get pools m" "st e' = st e"
    "takes s p (bm_get pools (pl_name p)) (bm_get pools' (pl_name p))"
  using assms unfolding apply_pool_def takes_def
  by (cases "find_pool (pl_name p) (s_config s)"; auto simp: returns split: if_splits)+

lemma apply_pools_returns:
  assumes "fold_p (apply_pool E s) pools ps e = (Ok pools', e')" "distinct (map pl_name ps)"
  shows "(\<forall>m. m \<notin> pl_name ` set ps \<longrightarrow> bm_get pools' m = bm_get pools m) \<and> st e' = st e
    \<and> (\<forall>p \<in> set ps. takes s p (bm_get pools (pl_name p)) (bm_get pools' (pl_name p)))"
  using assms
proof (induction ps arbitrary: pools e)
  case (Cons p ps)
  obtain pools1 e1 where one: "apply_pool E s pools p e = (Ok pools1, e1)"
    and rest: "fold_p (apply_pool E s) pools1 ps e1 = (Ok pools', e')"
    using Cons.prems(1) by (auto simp: returns)
  note first = apply_pool_returns [OF one]
  have fresh: "pl_name p \<notin> pl_name ` set ps" using Cons.prems(2) by auto
  note IH = Cons.IH [OF rest]
  have "bm_get pools1 (pl_name q) = bm_get pools (pl_name q)" if "q \<in> set ps" for q
  proof (rule first(1))
    show "pl_name q \<noteq> pl_name p" using fresh that by (metis image_eqI)
  qed
  then have "\<forall>q \<in> set ps. takes s q (bm_get pools (pl_name q)) (bm_get pools' (pl_name q))"
    using IH Cons.prems(2) by auto
  moreover have "bm_get pools' (pl_name p) = bm_get pools1 (pl_name p)" using IH Cons.prems(2) fresh by auto
  ultimately show ?case using IH first fresh Cons.prems(2) by auto
qed (simp add: returns)

text \<open>Retiring in every pool of a list.\<close>

lemma thinned_refl: "thinned I R R"
  by (simp add: thinned_def)

lemma thinned_trans:
  assumes "thinned I R R'" "thinned J R' R''"
  shows "thinned (I \<union> J) R R''"
  unfolding thinned_def
proof
  fix k
  show "R'' k = R k \<or> (\<exists>r. R k = Some r \<and> ri_pool r \<in> I \<union> J \<and> R'' k = Some (r\<lparr>ri_retiring := True\<rparr>))"
    using assms [unfolded thinned_def, THEN spec, of k] by (cases "R k"; cases "R' k") auto
qed

lemma thinned_mono: "thinned I R R' \<Longrightarrow> I \<subseteq> J \<Longrightarrow> thinned J R R'"
  unfolding thinned_def by (metis subsetD)

lemma within_limits_thinned:
  assumes "within_limits q R" "thinned I R R'" "finite (staying q R)"
  shows "within_limits q R'"
proof -
  have sub: "staying q R' \<subseteq> staying q R"
  proof
    fix k assume "k \<in> staying q R'"
    then show "k \<in> staying q R"
      using assms(2) [unfolded thinned_def, THEN spec, of k] by (auto simp: staying_def)
  qed
  then have "card (staying q R') \<le> card (staying q R)" by (rule card_mono [OF assms(3)])
  moreover have "R' k = R k" if "k \<in> staying q R'" for k
    using that assms(2) [unfolded thinned_def, THEN spec, of k] by (auto simp: staying_def)
  ultimately show ?thesis using assms(1) sub by (auto simp: within_limits_def)
qed

lemma finite_staying: "finite (staying q (in_runs (view s)))"
proof (rule finite_subset)
  show "staying q (in_runs (view s)) \<subseteq> set (bm_keys (s_runs s))"
    by (auto simp: staying_def set_bm_keys)
qed simp

lemma mark_all_view:
  assumes "wf_state (st e)" "fold_p (\<lambda>_ name. mark_retiring_p name) u names e = (Ok v, e')"
  shows "s_config (st e') = s_config (st e) \<and> s_pools (st e') = s_pools (st e) \<and> s_revision (st e') = s_revision (st e)
    \<and> wf_state (st e')
    \<and> thinned (\<Union>n \<in> set names. {ps_id ps |ps. bm_get (s_pools (st e)) n = Some ps})
        (in_runs (view (st e))) (in_runs (view (st e')))
    \<and> (\<forall>n \<in> set names. \<forall>q. pools_view (st e) n = Some q \<longrightarrow> within_limits q (in_runs (view (st e'))))"
  using assms
proof (induction names arbitrary: e u)
  case (Cons n ns)
  obtain u1 e1 where one: "mark_retiring_p n e = (Ok u1, e1)"
    and rest: "fold_p (\<lambda>_ name. mark_retiring_p name) u1 ns e1 = (Ok v, e')"
    using Cons.prems(2) by (auto simp: returns)
  have mark: "mark_retiring n (st e) = Ok (st e1)" using mark_returns [OF one] by simp
  then obtain ps p where ps: "bm_get (s_pools (st e)) n = Some ps" "find_pool n (s_config (st e)) = Some p"
    by (auto simp: mark_retiring_def split: option.splits)
  note m = mark_view [OF Cons.prems(1) ps mark]
  note IH = Cons.IH [OF m(6) rest]
  have th: "thinned (\<Union>n \<in> set ns. {ps_id ps |ps. bm_get (s_pools (st e)) n = Some ps})
        (in_runs (view (st e1))) (in_runs (view (st e')))" using IH unfolding m(4) by (elim conjE)
  have "within_limits (pool_view p ps) (in_runs (view (st e')))"
    by (rule within_limits_thinned [OF m(2) th finite_staying])
  moreover have "pools_view (st e) n = Some (pool_view p ps)" using ps by (simp add: pools_view_def)
  moreover have "pools_view (st e1) = pools_view (st e)" using m(3,4) by (auto simp: fun_eq_iff intro: pools_view_same)
  ultimately show ?case
    using IH m(3-5) thinned_mono [OF thinned_trans [OF m(1) th]] ps(1) by (auto simp del: view_sel(5))
qed (simp add: returns thinned_refl)

text \<open>The state after the commit.\<close>

lemma apply_committed:
  assumes wf: "wf_state (st e)" and parse: "parse_config (from_toml E) txt = Ok nxt"
    and all: "list_all (\<lambda>p. list_ex (\<lambda>n. pl_name n = pl_name p) (cfg_pools nxt)) (cfg_pools (s_config (st e)))"
    and fold: "fold_p (apply_pool E (st e)) (s_pools (st e)) (cfg_pools nxt) e = (Ok pools, e1)"
    and commit: "commit_config E nxt (e1\<lparr>st := (st e1)\<lparr>s_pools := pools\<rparr>\<rparr>) = (Ok u, e2)"
  shows "wf_state (st e2)" "s_config (st e2) = nxt" "s_pools (st e2) = pools"
    "s_revision (st e2) = s_revision (st e) + 1" "s_runs (st e2) = s_runs (st e)"
    "\<forall>p \<in> set (cfg_pools nxt). takes (st e) p (bm_get (s_pools (st e)) (pl_name p)) (bm_get pools (pl_name p))"
proof -
  have nxt: "well_formed_config nxt" "bm_invar (cfg_auth nxt)"
    using parse parse_config_ordered [OF parse] by (auto simp: parse_config_def validate_Ok)
  have d: "distinct (map pl_name (cfg_pools nxt))" using nxt(1) by (simp add: well_formed_config_def)
  note built = apply_pools_returns [OF fold d]
  have ext0: "extends (s_pools (st e)) (s_pools (st e))"
    using wf_stateD(3) [OF wf] by (simp add: extends_def)
  have ext: "extends (s_pools (st e)) pools"
    and keys: "set (bm_keys pools) = set (bm_keys (s_pools (st e))) \<union> pl_name ` set (cfg_pools nxt)"
    using apply_pools_step [OF wf ext0, where E = E and ps = "cfg_pools nxt" and e = e] fold by simp_all
  have "set (bm_keys (s_pools (st e))) \<subseteq> pl_name ` set (cfg_pools nxt)"
    using all unfolding wf_stateD(4) [OF wf] pool_names_def
    by (auto simp: list_all_iff list_ex_iff image_iff) metis
  with keys have names: "set (bm_keys pools) = set (pool_names nxt)" by (auto simp: pool_names_def)
  obtain t where e2: "st e2 = committed_state E nxt t ((st e)\<lparr>s_pools := pools\<rparr>)"
    using commit_returns [OF commit] built by auto
  show "wf_state (st e2)"
    unfolding e2 by (rule wf_committed [OF wf_runs_extends [OF wf ext]])
      (use ext names nxt in \<open>simp_all add: extends_def\<close>)
  show "s_config (st e2) = nxt" "s_pools (st e2) = pools"
    "s_revision (st e2) = s_revision (st e) + 1" "s_runs (st e2) = s_runs (st e)"
    by (simp_all add: e2)
  show "\<forall>p \<in> set (cfg_pools nxt). takes (st e) p (bm_get (s_pools (st e)) (pl_name p)) (bm_get pools (pl_name p))"
    using built by simp
qed

lemma takes_old:
  assumes "takes s p (bm_get (s_pools s) (pl_name p)) y" "pools_view s (pl_name p) = Some q"
  shows "\<exists>ps. y = Some ps \<and> edited (view s) q (pool_view p ps)"
proof -
  obtain old ps where old: "find_pool (pl_name p) (s_config s) = Some old" "bm_get (s_pools s) (pl_name p) = Some ps"
    "q = pool_view old ps" using pools_viewD [OF assms(2)] by auto
  have "pool_runs i s = [] \<Longrightarrow> bm_get (s_runs s) k = Some r \<Longrightarrow> run_pool_id r \<noteq> i" for i k r
    using bm_get_values [of "s_runs s" k r] by (auto simp: pool_runs_def filter_empty_conv)
  with assms(1) old show ?thesis
    by (auto simp: takes_def edited_def pool_view_def bump_generation_def split: if_splits intro!: exI [of _ p])
qed

lemma refines_apply:
  assumes wf: "wf_state (st e)" and h: "handle_request E (Apply txt revision) e = (Ok v, e')"
  shows "intends (from_toml E) (Apply txt revision) (view (st e)) (view (st e'))"
proof -
  obtain nxt pools e1 e2 e3 where rev: "s_revision (st e) = revision"
    and parse: "parse_config (from_toml E) txt = Ok nxt"
    and all: "list_all (\<lambda>p. list_ex (\<lambda>n. pl_name n = pl_name p) (cfg_pools nxt)) (cfg_pools (s_config (st e)))"
    and fold: "fold_p (apply_pool E (st e)) (s_pools (st e)) (cfg_pools nxt) e = (Ok pools, e1)"
    and commit: "commit_config E nxt (e1\<lparr>st := (st e1)\<lparr>s_pools := pools\<rparr>\<rparr>) = (Ok (), e2)"
    and marks: "fold_p (\<lambda>_ name. mark_retiring_p name) () (bm_keys pools) e2 = (Ok (), e3)"
    and save: "save E e3 = (Ok (), e')"
    using h by (auto simp: handle_request_def handle_apply_def read_config_def returns set_st_with_def)
  note c = apply_committed [OF wf parse all fold commit]
  have st: "st e' = st e3" using save_returns [OF save] by simp
  note m = mark_all_view [OF c(1) marks]
  have conf: "s_config (st e') = nxt" "s_pools (st e') = pools" "s_revision (st e') = revision + 1"
    using m c st rev by simp_all
  have wf': "wf_state (st e')" using m st by simp
  have same: "pools_view (st e2) = pools_view (st e')"
    using c conf by (auto simp: fun_eq_iff intro: pools_view_same)
  have entry: "\<exists>p ps. p \<in> set (cfg_pools nxt) \<and> pl_name p = n \<and> bm_get pools n = Some ps \<and> q = pool_view p ps"
    if "pools_view (st e') n = Some q" for n q
    using pools_viewD [OF that] conf find_pool_Some [of n nxt] by auto
  show ?thesis
  proof (rule intends.applied [OF parse])
    show "\<forall>n. map_option pi_settings (in_pools (view (st e')) n) = find_pool n nxt"
    proof
      fix n
      show "map_option pi_settings (in_pools (view (st e')) n) = find_pool n nxt"
      proof (cases "find_pool n nxt")
        case None
        with conf show ?thesis by (simp add: pools_view_def)
      next
        case (Some p)
        then have "n \<in> set (pool_names (s_config (st e')))" using find_pool_None [of n nxt] conf by fastforce
        with Some conf wf_pool_state [OF wf', of n] show ?thesis by (auto simp: pools_view_def)
      qed
    qed
    show "\<forall>n q. in_pools (view (st e)) n = Some q \<longrightarrow>
        (\<exists>q'. in_pools (view (st e')) n = Some q' \<and> edited (view (st e)) q q')"
    proof (intro allI impI)
      fix n q assume q: "in_pools (view (st e)) n = Some q"
      then obtain old where "find_pool n (s_config (st e)) = Some old" using pools_viewD [of "st e" n q] by auto
      then have "\<exists>p \<in> set (cfg_pools nxt). pl_name p = n"
        using all find_pool_Some [of n "s_config (st e)" old] by (auto simp: list_all_iff list_ex_iff)
      then obtain p where p: "find_pool n nxt = Some p"
        using find_pool_None [of n nxt] by (auto simp: pool_names_def)
      then have "takes (st e) p (bm_get (s_pools (st e)) n) (bm_get pools n)"
        using c(6) find_pool_Some [OF p] by auto
      then obtain ps where "bm_get pools n = Some ps" "edited (view (st e)) q (pool_view p ps)"
        using takes_old [of "st e" p _ q] q find_pool_Some [OF p] by auto
      then show "\<exists>q'. in_pools (view (st e')) n = Some q' \<and> edited (view (st e)) q q'"
        using p conf by (simp add: pools_view_def)
    qed
    show "\<forall>n q'. in_pools (view (st e)) n = None \<longrightarrow> in_pools (view (st e')) n = Some q' \<longrightarrow>
        \<not> pi_running q' \<and> \<not> pi_deleting q' \<and> pi_generation q' = 1"
    proof (intro allI impI)
      fix n q' assume none: "in_pools (view (st e)) n = None" and q': "in_pools (view (st e')) n = Some q'"
      have "find_pool n (s_config (st e)) = None"
        using none pools_view_None [OF wf, of n] wf_stateD(4) [OF wf]
        by (auto simp: find_pool_None set_bm_keys)
      moreover obtain p ps where p: "p \<in> set (cfg_pools nxt)" "pl_name p = n" "bm_get pools n = Some ps" "q' = pool_view p ps"
        using entry [of n q'] q' by auto
      moreover have "takes (st e) p (bm_get (s_pools (st e)) (pl_name p)) (bm_get pools (pl_name p))"
        using c(6) p(1) by blast
      ultimately show "\<not> pi_running q' \<and> \<not> pi_deleting q' \<and> pi_generation q' = 1"
        by (auto simp: takes_def default_pool_state_def)
    qed
    have ids: "ps_id ps \<in> pi_id ` ran (pools_view (st e'))" if "bm_get pools n = Some ps" for n ps
    proof -
      have "bm_get (s_pools (st e')) n = Some ps" using that conf(2) by simp
      then obtain p where "pools_view (st e') n = Some (pool_view p ps)"
        using pools_view_Some [OF wf'] by blast
      then have "pool_view p ps \<in> ran (pools_view (st e'))" by (rule ranI)
      then show ?thesis by (metis image_eqI pool_view_sel(2))
    qed
    have "in_runs (view (st e2)) = in_runs (view (st e))" using c(5) by (simp add: fun_eq_iff)
    with m st have "thinned (\<Union>n \<in> set (bm_keys pools). {ps_id ps |ps. bm_get (s_pools (st e2)) n = Some ps})
        (in_runs (view (st e))) (in_runs (view (st e')))" by metis
    then show "thinned (pi_id ` ran (in_pools (view (st e')))) (in_runs (view (st e))) (in_runs (view (st e')))"
      by (rule thinned_mono) (use ids c(3) in auto)
    show "\<forall>q \<in> ran (in_pools (view (st e'))). within_limits q (in_runs (view (st e')))"
    proof
      fix q assume "q \<in> ran (in_pools (view (st e')))"
      then obtain n where n: "pools_view (st e') n = Some q" by (auto simp: ran_def)
      then have "n \<in> set (bm_keys pools)" using entry [OF n] by (auto simp: set_bm_keys)
      with n show "within_limits q (in_runs (view (st e')))" using m same st by metis
    qed
  qed (use rev conf in simp_all)
qed

section \<open>Refinement\<close>

lemma refines_request:
  assumes "wf_state (st e)" "handle_request E r e = (Ok v, e')"
  shows "intends (from_toml E) r (view (st e)) (view (st e'))"
proof (cases r)
  case (Status p)
  with assms show ?thesis using refines_status by blast
next
  case (Add p)
  with assms show ?thesis using refines_add by blast
next
  case (Start p all)
  with assms show ?thesis using refines_start by blast
next
  case (Stop p all force)
  with assms show ?thesis using refines_stop by blast
next
  case (Scale name k)
  with assms show ?thesis using refines_scale by blast
next
  case (Upgrade name img)
  with assms show ?thesis using refines_upgrade by blast
next
  case (Remove name force)
  with assms show ?thesis using refines_remove by blast
next
  case (Auth profile cred app)
  with assms show ?thesis using refines_auth by blast
next
  case (Apply src revision)
  with assms show ?thesis using refines_apply by blast
qed (use assms in \<open>auto simp: handle_request_def returns\<close>)

text \<open>The view of a state is durable.\<close>

lemma get_mapped: "bm_get (map (\<lambda>(n, x). (n, f x)) m) k = map_option f (bm_get m k)"
  by (induction m) auto

lemma view_of_durable [simp]: "pool_view p (durable_pool ps) = pool_view p ps" "run_view (durable_run r) = run_view r"
  by (simp_all add: pool_view_def durable_pool_def run_view_def durable_run_def)

lemma view_durable: "view (durable s) = view s"
  by (rule intent_eqI)
    (simp_all add: durable_def fun_eq_iff pools_view_def get_mapped option.map_comp comp_def split: option.split)

text \<open>
  C10: the handlers refine the specification of what operators see. An accepted request takes this
  view of the manager along a step that the specification allows for the request: which pools
  there are with which settings, which of them run or are being deleted, their generations, the
  profiles, the revision, and which runs retire; the stored state has the same view as memory.
\<close>

theorem requests_refine:
  assumes "wf_engine e" "reads_ok E" "handle_local E r e = (Ok v, e')"
  shows "intends (from_toml E) r (view (st e)) (view (st e'))
     \<and> (\<exists>s. row e' = Some s \<and> view s = view (st e'))"
proof
  have "wf_engine e'" using handle_local_step [OF assms(1,2), of r] assms(3) by (simp add: handled_def)
  then show "\<exists>s. row e' = Some s \<and> view s = view (st e')"
    unfolding wf_engine_def by (metis view_durable)
  have wf: "wf_state (st e)" using assms(1) by (simp add: wf_engine_def)
  show "intends (from_toml E) r (view (st e)) (view (st e'))"
  proof (cases "mutating r")
    case True
    then obtain e1 where "handle_request E r e = (Ok v, e1)" "e' = bump_epoch e1"
      using handle_request_returns [OF assms(3)] by blast
    then show ?thesis using refines_request [OF wf] by simp
  next
    case False
    obtain e1 where "handle_inner E r e = (Ok v, e1)" "e' = e1"
      using handle_local_returns [OF assms(3)] False by auto
    then show ?thesis using False refines_request [OF wf]
      by (cases r) (auto simp: handle_inner_def returns)
  qed
qed

theorem requests_refine_witness:
  "\<exists>v e'. handle_local quiet_env (Scale ''web'' 1) (sample_engine ()) = (Ok v, e')
     \<and> intends (from_toml quiet_env) (Scale ''web'' 1) (view sample_state) (view (st e'))
     \<and> (\<exists>q. in_pools (view (st e')) ''web'' = Some q \<and> pl_replicas (pi_settings q) = 1 \<and> capacity q = 1)"
proof -
  obtain v e' where h: "handle_local quiet_env (Scale ''web'' 1) (sample_engine ()) = (Ok v, e')"
    by (simp add: handle_evals prog_evals state_evals map_evals commit_evals retire_evals)
  have "st (sample_engine ()) = sample_state" by (simp add: sample_engine_def engine_of_def)
  then have i: "intends (from_toml quiet_env) (Scale ''web'' 1) (view sample_state) (view (st e'))"
    using requests_refine [OF sample_engine_wf sample_reads(3) h] by simp
  have q: "pools_view sample_state ''web'' = Some (pool_view sample_pool sample_pool_state)"
    by (simp add: pools_view_def sample_state_def sample_config_def sample_pool_def find_pool_def)
  from i have "\<exists>k. in_pools (view (st e')) ''web'' = Some k \<and> pl_replicas (pi_settings k) = 1 \<and> capacity k = 1"
  proof cases
    case (scaled q0 q' R)
    then show ?thesis using q by (auto simp: capacity_def sample_pool_state_def default_pool_state_def)
  qed simp
  with h i show ?thesis by blast
qed

end
