(* ===== verification/Reconcile_Contract.thy ===== *)
theory Reconcile_Contract
  imports Requests
begin

text \<open>
  What a reconciliation does to the world: the calls it makes, in the light of the log that every
  external operation is entered in, the interference it detects, and the backoff it keeps.
\<close>

section \<open>The log of calls\<close>

text \<open>The calls that a program adds to the log satisfy \<open>ok\<close>.\<close>

definition adds :: "(call \<Rightarrow> bool) \<Rightarrow> 'w engine \<Rightarrow> 'w engine \<Rightarrow> bool" where
  "adds ok e0 e \<longleftrightarrow> (\<exists>cs. issued e = issued e0 @ cs \<and> list_all ok cs)"

interpretation logged: counting E "adds ok e0" "adds ok e0" ok
  for E :: "'w env" and ok :: "call \<Rightarrow> bool" and e0 :: "'w engine"
  by unfold_locales (auto simp: adds_def bump_epoch_def)

lemma adds_refl [simp]: "adds ok e e"
  by (simp add: adds_def)

definition calls_of :: "('w, 'a) act \<Rightarrow> 'w engine \<Rightarrow> call list" where
  "calls_of m e = drop (length (issued e)) (issued (snd (m e)))"

lemma keeps_calls: "(\<And>e0. keeps (adds ok e0) (adds ok e0) m) \<Longrightarrow> list_all ok (calls_of m e)"
proof -
  assume "\<And>e0. keeps (adds ok e0) (adds ok e0) m"
  then have "keeps (adds ok e) (adds ok e) m" .
  then have "case m e of (Ok _, t) \<Rightarrow> adds ok e t | (Err _, t) \<Rightarrow> adds ok e t | (Panic _, t) \<Rightarrow> adds ok e t"
    by (simp add: keeps_def)
  then have "adds ok e (snd (m e))" by (cases "m e" rule: outcome_cases) auto
  then show ?thesis by (auto simp: adds_def calls_of_def)
qed

section \<open>What a tick may call\<close>

definition expected :: "call \<Rightarrow> bool" where
  "expected c = (case c of
      Docker_Call args \<Rightarrow> args \<noteq> []
        \<and> hd args \<in> {''info'', ''ps'', ''inspect'', ''image'', ''logs'', ''run'', ''create'', ''start'', ''rm''}
    | Docker_Cp args \<Rightarrow> True
    | Http_Call m url \<Rightarrow> prefix ''https://api.github.com'' url)"

lemma tick_calls:
  assumes "allows_observing ok" "\<And>rid force. ok (Docker_Call (remove_args rid force))"
    "\<And>rid. ok (Docker_Call [''start'', rid])"
    "\<And>mgr r args. create_args E mgr r = Ok args \<Longrightarrow> ok (Docker_Call args)"
  shows "keeps (adds ok e0) (adds ok e0) (tick E)"
  unfolding tick_def Let_def
  by (intro keeps_intros logged.turn_calls assms) (auto simp: adds_def)

text \<open>
  Whatever happens during a tick, it runs no docker command but
  info, ps, inspect, image, logs, run, create, start, rm and cp, and speaks HTTP with api.github.com
  only.
\<close>

theorem tick_calls_expected: "list_all expected (calls_of (tick E) e)"
proof (rule keeps_calls)
  show "keeps (adds expected e0) (adds expected e0) (tick E)" for e0
    by (intro tick_calls)
      (auto simp: allows_observing_def observing_def expected_def GITHUB_API_def remove_args_def
        create_args_def base_args_def Let_def split: call.splits)
qed

definition provisions :: "call \<Rightarrow> bool" where
  "provisions c \<longleftrightarrow> (\<exists>args. c = Docker_Call (''create'' # args) \<or> c = Docker_Call (''start'' # args))"

lemma observing_not_provisions: "observing c \<Longrightarrow> \<not> provisions c"
  by (auto simp: observing_def provisions_def)

text \<open>
  C19: while the retry deadline of a pool lies ahead, a turn neither creates nor starts a
  container, whatever requests arrive meanwhile.
\<close>

theorem backoff_blocks_provisioning:
  assumes "now < retry_at"
  shows "list_all (\<lambda>c. \<not> provisions c) (calls_of (turn E name retry_at now) e)"
proof (rule keeps_calls)
  show "keeps (adds (\<lambda>c. \<not> provisions c) e0) (adds (\<lambda>c. \<not> provisions c) e0) (turn E name retry_at now)" for e0
    using assms
    by (intro logged.turn_calls)
      (auto simp: allows_observing_def observing_not_provisions replenishment_allowed_def,
       auto simp: provisions_def remove_args_def)
qed

lemmas turn_evals = prog_evals state_evals map_evals docker_evals github_evals reconcile_evals text_evals

theorem backoff_blocks_provisioning_witness:
  "calls_of (turn quiet_env ''web'' 2000 1000) (engine_of fresh_state ()) \<noteq> []
     \<and> list_all (\<lambda>c. \<not> provisions c)
        (calls_of (turn quiet_env ''web'' 2000 1000) (engine_of fresh_state ()))"
proof -
  have "calls_of (turn quiet_env ''web'' 2000 1000) (engine_of fresh_state ()) \<noteq> []"
    by (simp add: calls_of_def turn_evals)
  with backoff_blocks_provisioning [of 1000 2000 quiet_env "''web''" "engine_of fresh_state ()"]
  show ?thesis by simp
qed

text \<open>
  A pool whose observation failed is left alone until its deadline: the tick moves on
  to the next pool and touches nothing else.
\<close>

theorem observation_backoff_waits:
  assumes "bm_keys (s_pools (st e)) = names" "names \<noteq> []"
    "bm_get (s_pools (st e)) (names ! (unat (cursor e) mod length names)) = Some ps"
    "fst (clock E (world e)) < ps_retry_at ps" "ps_retry_scope ps = Observation"
  shows "tick E e = (Ok (), e\<lparr>cursor := cursor e + 1, world := snd (clock E (world e))\<rparr>)"
  using assms
  by (simp add: tick_def Let_def bind_p_def seq_p_def reads_def modify_def ask_def give_def ret_def
      case_prod_beta)

definition waiting_state :: state where
  "waiting_state = update_pool ''web'' (\<lambda>p. p\<lparr>ps_retry_at := 2000\<rparr>) fresh_state"

theorem observation_backoff_waits_witness:
  "tick quiet_env (engine_of waiting_state ()) = (Ok (), (engine_of waiting_state ())\<lparr>cursor := 1\<rparr>)"
  by (subst observation_backoff_waits [of _ "[''web'']" "sample_pool_state\<lparr>ps_retry_at := 2000\<rparr>"])
    (simp_all add: waiting_state_def turn_evals)

text \<open>A removal with force has three arguments, one without force two.\<close>

definition forced_removal :: "call \<Rightarrow> bool" where
  "forced_removal c \<longleftrightarrow> (\<exists>x y. c = Docker_Call [''rm'', x, y])"

text \<open>
  C21: the loop over the runs of a pool never removes a container by force; only runs marked
  for forced termination are treated so, before the loop.
\<close>

theorem settling_never_forces:
  "list_all (\<lambda>c. \<not> forced_removal c) (calls_of (reconcile_runs E cx unknown) e)"
proof (rule keeps_calls)
  let ?ok = "\<lambda>c. \<not> forced_removal c"
  show "keeps (adds ?ok e0) (adds ?ok e0) (reconcile_runs E cx unknown)" for e0
    by (intro logged.reconcile_runs_calls)
      (auto simp: allows_observing_def observing_def remove_args_def create_args_def base_args_def
        forced_removal_def Let_def)
qed

section \<open>Diagnostics before removal\<close>

definition removes :: "call \<Rightarrow> bool" where
  "removes c \<longleftrightarrow> (\<exists>args. c = Docker_Call (''rm'' # args))"

lemma observing_not_removes: "observing c \<Longrightarrow> \<not> removes c"
  by (auto simp: observing_def removes_def)

lemma external_returns: "external m e = (Ok x, e') \<Longrightarrow> m e = (Ok x, e')"
  by (cases "m e" rule: outcome_cases) (auto simp: external_def check_epoch_def returns split: if_splits)

definition logs_unavailable :: "'w env \<Rightarrow> string \<Rightarrow> bool" where
  "logs_unavailable E rid \<longleftrightarrow>
     (\<forall>w raw err. fst (docker E [''logs'', ''--tail'', ''1000'', rid] w) \<noteq> Docker_Exit True raw err)"

lemma logs_never:
  assumes "logs_unavailable E rid"
  shows "docker_logs E rid e \<noteq> (Ok x, e')"
proof
  assume "docker_logs E rid e = (Ok x, e')"
  then obtain r e1 where run: "docker_run E [''logs'', ''--tail'', ''1000'', rid] e = (Ok r, e1)"
    and rest: "(case r of
        Docker_Timeout \<Rightarrow> throw (Msg ''Docker logs timed out'')
      | Docker_Spawn_Error err \<Rightarrow> throw (Msg err)
      | Docker_Exit success raw err \<Rightarrow>
          seq_p (ensure_p success ''cannot read Docker logs'')
            (ret (utf8_lossy (take max_log_bytes (raw @ err))))) e1 = (Ok x, e')"
    by (auto simp: docker_logs_def bind_returns)
  from run obtain w where "r = fst (docker E [''logs'', ''--tail'', ''1000'', rid] w)"
    by (auto simp: docker_run_def await_def returns)
  with assms have "r \<noteq> Docker_Exit True raw err" for raw err
    by (auto simp: logs_unavailable_def)
  with rest show False
    by (cases r) (auto simp: returns)
qed

lemma archive_never:
  "\<not> run_log_saved r \<Longrightarrow> logs_unavailable E (run_id r) \<Longrightarrow> archive E r c e \<noteq> (Ok x, e')"
  using logs_never [of E "run_id r"] by (auto simp: archive_def returns dest!: external_returns)

lemma keeps_bind_never:
  assumes "keeps I W m" "\<And>e x e'. m e \<noteq> (Ok x, e')"
  shows "keeps I W (bind_p m f)"
  unfolding keeps_def
proof (intro allI impI)
  fix s assume "I s"
  with assms show "case bind_p m f s of (Ok _, t) \<Rightarrow> I t | (Err _, t) \<Rightarrow> I t | (Panic _, t) \<Rightarrow> W t"
    by (cases "m s" rule: outcome_cases) (auto simp: bind_p_def keeps_def)
qed

text \<open>
  C20: a container whose logs have not been saved and cannot be read is not removed, neither
  when its run is over nor when it is terminated by force.
\<close>

theorem diagnostics_before_removal:
  assumes "\<not> run_log_saved r" "logs_unavailable E (run_id r)"
  shows "list_all (\<lambda>c. \<not> removes c) (calls_of (cleanup_container E rid r container) e)
    \<and> list_all (\<lambda>c. \<not> removes c) (calls_of (force_run E containers r) e)"
proof (intro conjI keeps_calls)
  let ?ok = "\<lambda>c. \<not> removes c"
  have never: "archive E r' c' e1 \<noteq> (Ok x, e2)"
    if "run_log_saved r' = run_log_saved r" "run_id r' = run_id r" for r' c' x and e1 e2 :: "'a engine"
    using archive_never [of r' E] assms that by simp
  have obs: "allows_observing ?ok" by (simp add: allows_observing_def observing_not_removes)
  show "keeps (adds ?ok e0) (adds ?ok e0) (cleanup_container E rid r container)" for e0
    unfolding cleanup_container_def Let_def
    by (intro keeps_bind keeps_seq logged.keeps_ask keeps_if keeps_ret logged.reboot_calls obs
        logged.any_set_with logged.any_save keeps_attempt keeps_bind_never logged.archive_calls never)
      (simp_all add: with_phase_def)
  show "keeps (adds ?ok e0) (adds ?ok e0) (force_run E containers r)" for e0
    unfolding force_run_def Let_def
    by (intro keeps_bind keeps_seq keeps_reads keeps_option keeps_ret logged.any_set_with logged.any_save
        keeps_bind_never logged.archive_calls obs never)
      (simp_all add: with_phase_def)
qed

definition mute_env :: "unit env" where
  "mute_env = quiet_env\<lparr>docker := \<lambda>_. Pair Docker_Timeout\<rparr>"

theorem diagnostics_before_removal_witness:
  "list_all (\<lambda>c. \<not> removes c)
     (calls_of (cleanup_container mute_env ''a'' (sample_run ''a'' 10) JNull) (sample_engine ()))"
proof -
  have "logs_unavailable mute_env (run_id (sample_run ''a'' 10))" "\<not> run_log_saved (sample_run ''a'' 10)"
    by (simp_all add: logs_unavailable_def mute_env_def sample_run_def)
  with diagnostics_before_removal [of "sample_run ''a'' 10" mute_env "''a''" JNull "sample_engine ()" "[]"]
  show ?thesis by simp
qed

section \<open>The expiry of logs\<close>

text \<open>
  The expiry keeps every log file that is within the retention time or whose name begins
  with the identifier of a run that is still recorded.
\<close>

theorem expiry_keeps_live_logs:
  assumes "ns \<le> unat age * 10 ^ 9
     \<or> (\<exists>k \<in> set (bm_keys (s_runs (st e))). prefix k (utf8_lossy name))"
  shows "expire_entry E age (Log_File name (Inr ns)) e = (Ok (), e)"
  using assms
  by (auto simp: expire_entry_def bind_p_def give_def from_sum_def reads_def when_p_def ret_def
      list_ex_iff starts_with_prefix)

theorem expiry_keeps_live_logs_witness:
  "expire_entry quiet_env 604800 (Log_File ''a.log'' (Inr (10 ^ 18))) (sample_engine ())
     = (Ok (), sample_engine ())"
proof -
  have "utf8_lossy ''a.log'' = ''a.log''" by code_simp
  then show ?thesis
    by (intro expiry_keeps_live_logs disjI2 bexI [of _ "''a''"]) (simp_all add: state_evals bm_keys_def)
qed

section \<open>Interference\<close>

text \<open>
  C18: when a change of the state is made while an external operation of a reconciliation is
  in flight, the operation ends in an interruption; any other outcome means that the durable state
  and the stored one are those from before the operation.
\<close>

theorem interference_detected:
  assumes "calm_future E m" "reads_ok E" "wf_engine e" "reconcile_epoch e = Some (epoch e)"
    "external m e = (r, e')" "mutations e' < mutations e + 2 ^ 64"
  shows "(mutations e' \<noteq> mutations e \<longrightarrow> r = Err ReconcileInterrupted)
    \<and> (r \<noteq> Err ReconcileInterrupted \<longrightarrow> durable (st e') = durable (st e) \<and> row e' = row e)
    \<and> wf_engine e'"
proof -
  have "post (\<lambda>_ e'. calm e e' \<and> (mutations e' = mutations e \<or> wrapped e e') \<and> \<not> interrupted e)
    (\<lambda>er e'. calm e e' \<and> (er \<noteq> ReconcileInterrupted \<longrightarrow>
       (mutations e' = mutations e \<or> wrapped e e') \<and> \<not> interrupted e)) (external m e)"
    using external_step [OF assms(1-3)] assms(4) by simp
  then show ?thesis
    using assms(5,6) by (cases "external m e" rule: outcome_cases) (auto simp: calm_def wrapped_def)
qed

definition busy_engine :: "queue engine" where
  "busy_engine = (sample_engine [[Command (Stop None True False)]])\<lparr>reconcile_epoch := Some 0\<rparr>"

theorem interference_detected_witness:
  "fst (external (docker_list sample_env ''0123456789ab'') busy_engine) = Err ReconcileInterrupted"
proof -
  have m: "mutations (snd (external (docker_list sample_env ''0123456789ab'') busy_engine)) = 1"
    by (simp add: busy_engine_def sample_env_def env_of_def prog_evals state_evals map_evals docker_evals
        reconcile_evals handle_evals events_def run_event_def text_evals bump_epoch_def
        retire_force_def stop_pool_def mode_text_def)
  have "calm_future sample_env (docker_list sample_env ''0123456789ab'')" "reads_ok sample_env"
    "wf_engine busy_engine" "reconcile_epoch busy_engine = Some (epoch busy_engine)" "mutations busy_engine = 0"
    using sample_wf by (simp_all add: calm_ops busy_engine_def wf_engine_def sample_engine_def engine_of_def)
  with interference_detected [of sample_env "docker_list sample_env ''0123456789ab''" busy_engine] m
  show ?thesis by (cases "external (docker_list sample_env ''0123456789ab'') busy_engine") auto
qed

section \<open>The backoff of a pool\<close>

lemma note_failure_backoff:
  assumes "\<not> (now < ps_retry_at p \<and> ps_retry_scope p = scope)"
  shows "unat (ps_failures (note_failure now b err scope p)) = min (unat (ps_failures p) + 1) (2 ^ 32 - 1)"
    "unat (ps_retry_at (note_failure now b err scope p)) = min (unat now
       + min 600 (5 * 2 ^ min (unat (ps_failures p) + 1) 7 + unat b mod 7)) (2 ^ 64 - 1)"
    "ps_error (note_failure now b err scope p) = Some err"
proof -
  have "unat b mod 7 < 7" by simp
  then have j: "min (unat (ucast (b mod 7) :: u64)) 6 = unat b mod 7"
    by (simp add: unat_mod unsigned_ucast_eq take_bit_nat_eq_self)
  have m: "min (min n 4294967294) 6 = min n 6" for n :: nat by simp
  show "unat (ps_failures (note_failure now b err scope p)) = min (unat (ps_failures p) + 1) (2 ^ 32 - 1)"
    "unat (ps_retry_at (note_failure now b err scope p)) = min (unat now
       + min 600 (5 * 2 ^ min (unat (ps_failures p) + 1) 7 + unat b mod 7)) (2 ^ 64 - 1)"
    "ps_error (note_failure now b err scope p) = Some err"
    using assms by (auto simp: note_failure_def Let_def unat_saturating_add unat_retry_delay j m)
qed

text \<open>
  C22: a failure of a pool without a pending deadline of its scope is counted (up to the
  largest 32-bit number), its text is kept, and the deadline is set after
  \<open>min (5 * 2 ^ min failures 7 + jitter) 600\<close> seconds (never wrapping); nothing else changes.
\<close>

theorem failure_recorded:
  assumes "bm_get (s_pools (st e)) name = Some p"
    "\<not> (fst (clock E (world e)) < ps_retry_at p \<and> ps_retry_scope p = scope)"
  shows "\<exists>q e' jitter. record_failure E name err scope e = (Ok (), e')
     \<and> st e' = (st e)\<lparr>s_pools := s_pools (st e')\<rparr>
     \<and> bm_get (s_pools (st e')) = (bm_get (s_pools (st e)))(name \<mapsto> q)
     \<and> q = p\<lparr>ps_failures := ps_failures q, ps_retry_at := ps_retry_at q, ps_retry_scope := scope,
         ps_error := Some err\<rparr>
     \<and> unat (ps_failures q) = min (unat (ps_failures p) + 1) (2 ^ 32 - 1) \<and> jitter \<le> 6
     \<and> unat (ps_retry_at q) = min (unat (fst (clock E (world e)))
         + min 600 (5 * 2 ^ min (unat (ps_failures p) + 1) 7 + jitter)) (2 ^ 64 - 1)"
proof -
  define now where "now = fst (clock E (world e))"
  define b where "b = fst (random_byte E (snd (clock E (world e))))"
  define q where "q = note_failure now b err scope p"
  have late: "\<not> (now < ps_retry_at p \<and> ps_retry_scope p = scope)" using assms(2) by (simp add: now_def)
  obtain e' where run: "record_failure E name err scope e = (Ok (), e')"
    and st: "st e' = update_pool name (note_failure now b err scope) (st e)"
    using assms late by (auto simp: record_failure_def bind_p_def ask_def reads_def give_def ret_def
        Let_def case_prod_beta set_st_with_def modify_def b_def now_def)
  have "st e' = (st e)\<lparr>s_pools := s_pools (st e')\<rparr>"
    "bm_get (s_pools (st e')) = (bm_get (s_pools (st e)))(name \<mapsto> q)"
    unfolding st update_pool_def using assms(1) by (auto simp: q_def)
  moreover have "q = p\<lparr>ps_failures := ps_failures q, ps_retry_at := ps_retry_at q,
      ps_retry_scope := scope, ps_error := Some err\<rparr>"
    unfolding q_def note_failure_def Let_def if_not_P [OF late] by simp
  moreover have "unat b mod 7 \<le> 6" using mod_less_divisor [of 7 "unat b"] by linarith
  ultimately show ?thesis
    using run note_failure_backoff(1,2) [OF late, of b err]
    by (intro exI [of _ q] exI [of _ e'] exI [of _ "unat b mod 7"])
      (simp only: now_def q_def simp_thms)
qed

theorem failure_recorded_witness:
  "\<exists>q e'. record_failure quiet_env ''web'' ''boom'' Provisioning (engine_of fresh_state ()) = (Ok (), e')
     \<and> bm_get (s_pools (st e')) ''web'' = Some q \<and> ps_error q = Some ''boom'' \<and> unat (ps_failures q) = 1
     \<and> 1010 \<le> unat (ps_retry_at q) \<and> unat (ps_retry_at q) \<le> 1016"
proof -
  have "bm_get (s_pools (st (engine_of fresh_state ()))) ''web'' = Some sample_pool_state"
    "ps_retry_at sample_pool_state = 0" "ps_failures sample_pool_state = 0"
    by (simp_all add: state_evals)
  from failure_recorded [OF this(1), of quiet_env Provisioning "''boom''"] this(2,3)
  obtain q e' jitter where
    r: "record_failure quiet_env ''web'' ''boom'' Provisioning (engine_of fresh_state ()) = (Ok (), e')"
      "bm_get (s_pools (st e')) = (bm_get (s_pools (st (engine_of fresh_state ()))))(''web'' \<mapsto> q)"
      "unat (ps_failures q) = 1" "jitter \<le> 6" "unat (ps_retry_at q) = 1010 + jitter"
    and q: "q = sample_pool_state\<lparr>ps_failures := ps_failures q, ps_retry_at := ps_retry_at q,
        ps_retry_scope := Provisioning, ps_error := Some ''boom''\<rparr>"
    by auto
  have "ps_error q = Some ''boom''" by (subst q) simp
  with r show ?thesis by auto
qed

end
