(* ===== verification/Container_Contract.thy ===== *)
theory Container_Contract
  imports Sample
begin

text \<open>
  What the container of a run is given: its labels, its privileges and limits, how it is recognised
  later, and the paths mounted into it.
\<close>

section \<open>The labels a runner registers with\<close>

text \<open>
  The labels given to the runner, split at commas as the runner splits them, are the
  configured labels and the reserved label \<open>pool:<name>\<close>, which no configured label can imitate.
\<close>

theorem runner_labels_split:
  assumes "well_formed_pool auths p"
  shows "split_at (CHR '','') (runner_labels p) = pl_labels p @ [''pool:'' @ pl_name p]
     \<and> (\<forall>l \<in> set (pl_labels p). \<not> prefix ''pool:'' l)"
proof -
  have "CHR '','' \<notin> set l \<and> \<not> prefix ''pool:'' l" if "l \<in> set (pl_labels p)" for l
    using assms that by (auto simp: well_formed_pool_def valid_label_def starts_with_prefix)
  moreover have "CHR '','' \<notin> set (pl_name p)"
    using assms by (auto simp: well_formed_pool_def valid_name_def list_all_iff
        is_ascii_alphanumeric_def is_ascii_digit_def is_ascii_alphabetic_def byte_def)
  ultimately show ?thesis
    unfolding runner_labels_def by (subst split_at_join_with) auto
qed

theorem runner_labels_split_witness:
  "split_at (CHR '','') (runner_labels sample_pool) = [''linux'', ''pool:web'']"
proof -
  have "well_formed_pool (cfg_auth sample_config) sample_pool"
    using sample_config_valid by (simp add: well_formed_config_def sample_config_def)
  from runner_labels_split [OF this] show ?thesis by (simp add: sample_pool_def)
qed

section \<open>The arguments of a creation\<close>

text \<open>
  The options in the arguments of \<open>docker create\<close>, each with its value (the two flags have none), and
  the image after them.
\<close>

fun create_options :: "string list \<Rightarrow> ((string \<times> string) list \<times> string) option" where
  "create_options [] = None"
| "create_options [img] = (if starts_with ''-'' img then None else Some ([], img))"
| "create_options (a # v # rest) =
     (if a = ''--init'' \<or> a = ''--restart=no'' then
        map_option (\<lambda>(os, img). ((a, []) # os, img)) (create_options (v # rest))
      else if starts_with ''--'' a then
        map_option (\<lambda>(os, img). ((a, v) # os, img)) (create_options rest)
      else None)"

text \<open>The list of options with a value, as arguments.\<close>

fun option_args :: "(string \<times> string) list \<Rightarrow> string list" where
  "option_args [] = []"
| "option_args ((a, v) # os) = a # v # option_args os"

lemma option_args_append [simp]: "option_args (xs @ ys) = option_args xs @ option_args ys"
  by (induction xs rule: option_args.induct) auto

lemma flag_options: "flag f kvs = option_args (map (\<lambda>(k, v). (f, k @ ''='' @ v)) kvs)"
  by (induction kvs) (auto simp: flag_def)

lemma create_options_valued:
  assumes "\<forall>(a, v) \<in> set os. starts_with ''--'' a \<and> a \<noteq> ''--init'' \<and> a \<noteq> ''--restart=no''"
  shows "create_options (option_args os @ [img]) =
    (if starts_with ''-'' img then None else Some (os, img))"
  using assms by (induction os rule: option_args.induct) (auto simp: starts_with_def split: if_splits)

definition run_options :: "'w env \<Rightarrow> string \<Rightarrow> run \<Rightarrow> (string \<times> string) list" where
  "run_options E mgr r =
     (let p = run_pool r; runtime = join (run_dir (home E) (run_id r)) ''runtime'' in
      [(''--name'', run_id r), (''--restart=no'', []), (''--init'', []), (''--log-opt'', ''max-size=10m''),
       (''--log-opt'', ''max-file=3'')]
      @ (if pl_allow_privilege_escalation p then []
         else [(''--security-opt'', ''no-new-privileges:true'')])
      @ (case pl_cpus p of Some c \<Rightarrow> [(''--cpus'', f64_text E c)] | None \<Rightarrow> [])
      @ (case pl_memory p of Some m \<Rightarrow> [(''--memory'', m)] | None \<Rightarrow> [])
      @ [(''--label'', ''io.runnerctl.manager='' @ mgr), (''--label'', ''io.runnerctl.pool='' @ run_pool_id r),
         (''--label'', ''io.runnerctl.run='' @ run_id r),
         (''--env'', ''GITHUB_ORG='' @ pl_organization p), (''--env'', ''RUNNER_NAME='' @ run_id r),
         (''--env'', ''RUNNER_LABELS='' @ runner_labels p), (''--env'', ''RUNNER_GROUP='' @ pl_runner_group p),
         (''--env'', ''GITHUB_URL='' @ pool_url p)]
      @ (case pl_repository p of Some _ \<Rightarrow> [(''--env'', ''RUNNER_SCOPE=repo'')] | None \<Rightarrow> [])
      @ [(''--volume'', utf8_lossy (run_dir (home E) (run_id r)) @ '':/run/runnerctl:Z'')]
      @ (if pl_docker_socket p then
           [(''--network'', ''host''), (''--volume'', utf8_lossy runtime @ '':'' @ utf8_lossy runtime @ '':Z''),
            (''--env'', ''RUNNER_ROOT='' @ utf8_lossy runtime),
            (''--env'', ''RUNNER_UID='' @ text_of (fst (host_ids E))),
            (''--volume'', ''/var/run/docker.sock:/var/run/docker.sock'')]
         else []))"

lemma create_args_options:
  assumes "create_args E mgr r = Ok args" "validate_image (pl_image (run_pool r)) = Ok ()"
  shows "hd args = ''create'' \<and> create_options (tl args) = Some (run_options E mgr r, pl_image (run_pool r))"
proof -
  let ?p = "run_pool r"
  have img: "\<not> starts_with ''-'' (pl_image ?p)" using assms(2) by (simp add: validate_image_def)
  define os where "os = drop 3 (run_options E mgr r)"
  have valued: "\<forall>(a, v) \<in> set os. starts_with ''--'' a \<and> a \<noteq> ''--init'' \<and> a \<noteq> ''--restart=no''"
    unfolding os_def run_options_def Let_def
    by (auto simp: starts_with_def split: option.splits if_splits)
  have run: "run_options E mgr r = (''--name'', run_id r) # (''--restart=no'', []) # (''--init'', []) # os"
    unfolding os_def run_options_def Let_def by simp
  have args: "args = ''create'' # ''--name'' # run_id r # ''--restart=no'' # ''--init'' # option_args os @ [pl_image ?p]"
    using assms(1) unfolding os_def run_options_def Let_def create_args_def
    by (auto simp: base_args_def socket_args_def daemon_path_def flag_options Let_def split: option.splits if_splits)
  obtain a as where rest: "option_args os @ [pl_image ?p] = a # as" by (cases "option_args os @ [pl_image ?p]") auto
  show ?thesis
    using create_options_valued [OF valued, of "pl_image ?p"] img
    unfolding args run rest by (simp add: starts_with_def)
qed

lemma sample_created: "\<exists>args. create_args quiet_env ''m1'' (sample_run ''a'' 10) = Ok args"
  by (simp add: create_args_def sample_run_def sample_pool_def daemon_path_def quiet_env_def env_of_def
      base_args_def Let_def)

lemma sample_image: "validate_image (pl_image (run_pool (sample_run ''a'' 10))) = Ok ()"
  by (simp add: sample_run_def sample_pool_def validate_image_def text_evals)

lemma not_socket_volume [simp]:
  "x @ '':/run/runnerctl:Z'' \<noteq> ''/var/run/docker.sock:/var/run/docker.sock''"
  "''/var/run/docker.sock:/var/run/docker.sock'' \<noteq> x @ '':/run/runnerctl:Z''"
  by (auto dest: arg_cong [of _ _ last])



section \<open>Ownership\<close>

text \<open>
  Docker's documented behaviour: the labels that \<open>docker inspect\<close> shows of a container are those
  it was created with.
\<close>

definition labels_match :: "json \<Rightarrow> (string \<times> string) list \<Rightarrow> bool" where
  "labels_match c os \<longleftrightarrow> (\<forall>k v. CHR ''='' \<notin> set k \<longrightarrow>
     container_label c k = Some v \<longleftrightarrow> (''--label'', k @ ''='' @ v) \<in> set os)"


definition sample_container :: json where
  "sample_container = JObj [(''Config'', JObj [(''Labels'', JObj [(''io.runnerctl.manager'', JStr ''m1''),
     (''io.runnerctl.pool'', JStr ''p1''), (''io.runnerctl.run'', JStr ''a'')])])]"


section \<open>Paths on Windows\<close>

lemma lowercase_letter:
  assumes "is_ascii_alphabetic c"
  shows "is_ascii_alphabetic (to_ascii_lowercase c)"
    "to_ascii_lowercase (to_ascii_lowercase c) = to_ascii_lowercase c"
    "to_ascii_lowercase c \<noteq> CHR 0x5C"
proof -
  have b: "byte (to_ascii_lowercase c) = (if 65 \<le> byte c \<and> byte c \<le> 90 then byte c + 32 else byte c)"
    by (simp add: to_ascii_lowercase_def byte_def)
  show "is_ascii_alphabetic (to_ascii_lowercase c)"
    using assms by (auto simp: is_ascii_alphabetic_def b)
  show "to_ascii_lowercase (to_ascii_lowercase c) = to_ascii_lowercase c"
    unfolding to_ascii_lowercase_def [of "to_ascii_lowercase c"] b by auto
  have "byte (CHR 0x5C) = 92" by (simp add: byte_def)
  then show "to_ascii_lowercase c \<noteq> CHR 0x5C"
    using assms b by (auto simp: is_ascii_alphabetic_def)
qed

text \<open>
  A Windows path handed to Docker Desktop is its path inside the virtual machine: the
  drive letter in lower case below the mount of the host, and the rest with every backslash turned.
\<close>

theorem windows_path_mapped:
  assumes "daemon_path_windows p = Ok q"
  shows "\<exists>c tail. suffix (c # CHR '':'' # CHR 0x5C # tail) p \<and> is_ascii_alphabetic c
     \<and> q = ''/run/desktop/mnt/host/'' @ [to_ascii_lowercase c] @ ''/''
         @ map (\<lambda>x. if x = CHR 0x5C then CHR ''/'' else x) tail
     \<and> CHR 0x5C \<notin> set q"
proof -
  define t where "t = (case strip_prefix (bytes [92, 92, 63, 92]) p of Some r \<Rightarrow> r | None \<Rightarrow> p)"
  have suf: "suffix t p" by (auto simp: t_def strip_prefix_Some suffix_def split: option.splits)
  define drive where "drive = takeWhile (\<lambda>c. c \<noteq> CHR '':'') t"
  obtain x d rest where dw: "dropWhile (\<lambda>c. c \<noteq> CHR '':'') t = x # d # rest"
    and ok: "d = CHR 0x5C \<and> length drive = 1 \<and> list_all is_ascii_alphabetic drive"
    and q: "q = ''/run/desktop/mnt/host/'' @ map to_ascii_lowercase drive @ ''/''
         @ map (\<lambda>c. if c = CHR 0x5C then CHR ''/'' else c) rest"
    using assms
    by (auto simp: daemon_path_windows_def Let_def t_def [symmetric] drive_def split: if_splits list.splits)
  have x: "x = CHR '':''" using dw hd_dropWhile [of "\<lambda>c. c \<noteq> CHR '':''" t] by auto
  obtain c where c: "drive = [c]" "is_ascii_alphabetic c" using ok by (cases drive) auto
  have "t = drive @ x # d # rest" unfolding drive_def dw [symmetric] by simp
  then have "suffix (c # CHR '':'' # CHR 0x5C # rest) p" using suf x ok c by simp
  moreover have "CHR 0x5C \<notin> set q" using lowercase_letter(3) [OF c(2)] unfolding q c(1) by auto
  ultimately show ?thesis using q c by auto
qed

theorem windows_path_mapped_witness:
  "\<exists>q. daemon_path_windows (''C:'' @ [CHR 0x5C] @ ''home'' @ [CHR 0x5C] @ ''a b'') = Ok q
     \<and> q = ''/run/desktop/mnt/host/c/home/a b'' \<and> CHR 0x5C \<notin> set q"
proof -
  have e: "daemon_path_windows (''C:'' @ [CHR 0x5C] @ ''home'' @ [CHR 0x5C] @ ''a b'')
      = Ok ''/run/desktop/mnt/host/c/home/a b''"
    by code_simp
  with windows_path_mapped [OF e] show ?thesis by blast
qed

section \<open>Logs\<close>

text \<open>
  The logs of a runner that the program returns are valid UTF-8 of at most 3 MiB,
  whatever bytes the container wrote.
\<close>

theorem logs_are_text:
  assumes "docker_logs E rid e = (Ok text, e')"
  shows "valid_utf8 text \<and> length text \<le> 3 * 2 ^ 20"
proof -
  obtain r e1 where "(case r of
        Docker_Timeout \<Rightarrow> throw (Msg ''Docker logs timed out'')
      | Docker_Spawn_Error err \<Rightarrow> throw (Msg err)
      | Docker_Exit success raw err \<Rightarrow>
          seq_p (ensure_p success ''cannot read Docker logs'')
            (ret (utf8_lossy (take max_log_bytes (raw @ err))))) e1 = (Ok text, e')"
    using assms by (auto simp: docker_logs_def bind_returns)
  then obtain raw where "text = utf8_lossy (take max_log_bytes raw)"
    by (cases r) (auto simp: returns simp del: take_append)
  moreover have "length (take max_log_bytes raw) \<le> 2 ^ 20" by (simp add: max_log_bytes_def)
  ultimately show ?thesis
    using utf8_lossy_is_valid length_utf8_lossy [of "take max_log_bytes raw"] by simp
qed

definition noisy_env :: "unit env" where
  "noisy_env = quiet_env\<lparr>docker := \<lambda>_. Pair (Docker_Exit True (bytes [255, 104, 105]) [])\<rparr>"

theorem logs_are_text_witness:
  "\<exists>e'. docker_logs noisy_env ''a'' (sample_engine ()) = (Ok (bytes [239, 191, 189, 104, 105]), e')
     \<and> valid_utf8 (bytes [239, 191, 189, 104, 105])"
proof -
  have noisy: "utf8_lossy (bytes [255, 104, 105]) = bytes [239, 191, 189, 104, 105]"
    by code_simp
  have "utf8_lossy (take max_log_bytes (bytes [255, 104, 105])) = bytes [239, 191, 189, 104, 105]"
    using noisy by (simp add: max_log_bytes_def bytes_def)
  then obtain e' where r: "docker_logs noisy_env ''a'' (sample_engine ()) = (Ok (bytes [239, 191, 189, 104, 105]), e')"
    by (simp add: docker_logs_def docker_run_def await_def prog_evals noisy_env_def quiet_env_def env_of_def
        events_def)
  with logs_are_text [OF r] show ?thesis by blast
qed

end
