(* ===== verification/Github_Contract.thy ===== *)
theory Github_Contract
  imports Sample
begin

text \<open>
  What the GitHub client promises: the backoff that all requests of a credential share, the
  generation of the cache, the lists of runners, and private secrets.
\<close>

section \<open>Samples\<close>

definition http_answer :: "nat \<Rightarrow> string option \<Rightarrow> http_response" where
  "http_answer status retry = \<lparr>hr_status = status, hr_ratelimit_remaining = None, hr_retry_after = retry,
     hr_ratelimit_reset = None, hr_json = None\<rparr>"

lemma retry_30: "header_u64 (Some ''30'') = Some 30"
  by (simp add: header_u64_def parse_u64_def parse_unsigned_def digits_value_def text_evals)

definition cached :: "(cache \<Rightarrow> cache) \<Rightarrow> unit engine" where
  "cached f = (engine_of fresh_state ())\<lparr>github := f (empty_cache 0)\<rparr>"

lemma cached_sel [simp]: "github (cached f) = f (empty_cache 0)" "world (cached f) = ()"
  by (simp_all add: cached_def)

section \<open>The shared backoff and the cache\<close>

text \<open>
  While a credential is blocked, a request under it is refused at once with the recorded
  reason and deadline: nothing is sent and nothing changes.
\<close>

theorem blocked_request_refused:
  assumes "ca_blocked (github e) (auth_key E profile a) = Some (until, m)"
    "fst (clock E (world e)) < until"
  shows "gh_request E profile a method path e
     = (Err (Msg (m @ ''; retry after '' @ text_of until)), e\<lparr>world := snd (clock E (world e))\<rparr>)"
  using assms
  by (simp add: gh_request_def Let_def not_blocked_def bind_p_def seq_p_def reads_def ask_def throw_def
      case_prod_beta)

theorem blocked_request_refused_witness:
  "fst (gh_request quiet_env ''main'' sample_auth GET ''/x''
      (cached (put_block (auth_key quiet_env ''main'' sample_auth) 2000 ''GitHub rate limit'')))
     = Err (Msg (''GitHub rate limit; retry after '' @ text_of (2000 :: u64)))"
  by (subst blocked_request_refused) (auto simp: put_block_def)

lemmas cache_evals =
  response_error_def Let_def bind_p_def seq_p_def ask_def ret_def reads_def modify_def
  update_cache_def guarded_def record_refusal_def drop_token_def put_block_def case_prod_beta

text \<open>
  C31: an answer 401, 403 or 429, an exhausted rate limit or a \<open>Retry-After\<close> blocks the
  credential for at least a second from now: for as long as \<open>Retry-After\<close> says, or five minutes where
  permission is missing; a 401 also drops the cached App token, and nothing else changes.
\<close>

theorem refusal_recorded:
  assumes "hr_status r \<in> {401, 403, 429} \<or> hr_ratelimit_remaining r = Some ''0''
     \<or> header_u64 (hr_retry_after r) \<noteq> None"
  shows "\<exists>n w m e'. response_error E r key (ca_generation (github e)) ctx e = (Ok (Msg m), e')
     \<and> 1 \<le> w \<and> (\<exists>w1. n = fst (clock E w1))
     \<and> (\<forall>d. header_u64 (hr_retry_after r) = Some d \<longrightarrow> w = max d 1)
     \<and> (\<not> rate_limited r \<longrightarrow> w = 300)
     \<and> ca_blocked (github e') = (ca_blocked (github e))(key \<mapsto> (saturating_add n w, m))
     \<and> ca_tokens (github e') = (if hr_status r = 401 then (ca_tokens (github e))(key := None)
          else ca_tokens (github e))
     \<and> ca_lists (github e') = ca_lists (github e) \<and> issued e' = issued e \<and> st e' = st e"
proof -
  have refused: "\<exists>w m. refusal E r ctx n1 n2 = (Some w, m) \<and> 1 \<le> w
      \<and> (\<forall>d. header_u64 (hr_retry_after r) = Some d \<longrightarrow> w = max d 1) \<and> (\<not> rate_limited r \<longrightarrow> w = 300)"
    for n1 n2
    using assms by (auto simp: refusal_def rate_limited_def le_max_iff_disj)
  show ?thesis
  proof (cases "needs_clock r")
    case True
    define w1 where "w1 = snd (clock E (world e))"
    obtain w m where "refusal E r ctx (fst (clock E (world e))) (fst (clock E w1)) = (Some w, m)" "1 \<le> w"
      "\<forall>d. header_u64 (hr_retry_after r) = Some d \<longrightarrow> w = max d 1" "\<not> rate_limited r \<longrightarrow> w = 300"
      using refused by blast
    with True show ?thesis by (auto simp: cache_evals w1_def [symmetric])
  next
    case False
    obtain w m where "refusal E r ctx 0 0 = (Some w, m)" "1 \<le> w"
      "\<forall>d. header_u64 (hr_retry_after r) = Some d \<longrightarrow> w = max d 1" "\<not> rate_limited r \<longrightarrow> w = 300"
      using refused by blast
    with False show ?thesis by (auto simp: cache_evals)
  qed
qed

theorem refusal_recorded_witness:
  "\<exists>m e'. response_error quiet_env (http_answer 429 (Some ''30'')) ''k'' 0 ''GitHub'' (cached id) = (Ok (Msg m), e')
     \<and> ca_blocked (github e') ''k'' = Some (1030, m)"
proof -
  obtain n w m e' where
    "response_error quiet_env (http_answer 429 (Some ''30'')) ''k'' 0 ''GitHub'' (cached id) = (Ok (Msg m), e')"
    "\<exists>w1. n = fst (clock quiet_env w1)" "w = max 30 1"
    "ca_blocked (github e') = (ca_blocked (github (cached id)))(''k'' \<mapsto> (saturating_add n w, m))"
    using refusal_recorded [of "http_answer 429 (Some ''30'')" quiet_env "''k''" "cached id" "''GitHub''"]
    by (auto simp: http_answer_def retry_30 empty_cache_def)
  then show ?thesis by (auto simp: saturating_add_def)
qed

text \<open>
  Any other failure of GitHub is reported to its caller alone: the shared cache and
  the backoff of the credential stay as they are.
\<close>

theorem other_refusal_not_shared:
  assumes "hr_status r \<notin> {401, 403, 429}" "hr_ratelimit_remaining r \<noteq> Some ''0''"
    "header_u64 (hr_retry_after r) = None"
  shows "\<exists>m e'. response_error E r key g ctx e = (Ok (Msg m), e') \<and> github e' = github e"
  using assms by (auto simp: cache_evals needs_clock_def refusal_def rate_limited_def)

theorem other_refusal_not_shared_witness:
  "\<exists>m e'. response_error quiet_env (http_answer 500 None) ''k'' 0 ''GitHub'' (cached id) = (Ok (Msg m), e')
     \<and> github e' = empty_cache 0"
  using other_refusal_not_shared [of "http_answer 500 None" quiet_env "''k''" 0 "''GitHub''" "cached id"]
  by (simp add: http_answer_def header_u64_def)

text \<open>
  An answer to a request that was sent before the cache was cleared changes nothing in
  the cache.
\<close>

theorem stale_generation_ignored:
  assumes "ca_generation (github e) \<noteq> g"
  shows "\<exists>m e'. response_error E r key g ctx e = (Ok (Msg m), e') \<and> github e' = github e"
  using assms
  by (cases "refusal E r ctx (if needs_clock r then fst (clock E (world e)) else 0)
      (if needs_clock r then fst (clock E (snd (clock E (world e)))) else 0)")
    (auto simp: cache_evals split: option.splits)

theorem stale_generation_ignored_witness:
  "\<exists>m e'. response_error quiet_env (http_answer 401 None) ''k'' 1 ''GitHub'' (cached id) = (Ok (Msg m), e')
     \<and> github e' = empty_cache 0"
  using stale_generation_ignored [of "cached id" 1 quiet_env "http_answer 401 None" "''k''" "''GitHub''"]
  by (simp add: empty_cache_def)

text \<open>
  A runner list younger than its time to live is returned without a request to GitHub.
\<close>

theorem cached_list_reused:
  assumes "ca_lists (github e) (auth_key E profile a, scope) = Some (t, rs)"
    "0 < ttl" "unat (fst (clock E (world e))) < unat t + unat ttl"
  shows "gh_list E profile a scope ttl e = (Ok rs, e\<lparr>world := snd (clock E (world e))\<rparr>)"
proof -
  have "saturating_sub (fst (clock E (world e))) t < ttl"
  using assms(2,3) unfolding word_less_nat_alt unat_saturating_sub by auto
  then show ?thesis using assms(1)
    by (simp add: gh_list_def bind_p_def reads_def ask_def ret_def Let_def case_prod_beta)
qed

theorem cached_list_reused_witness:
  "fst (gh_list quiet_env ''main'' sample_auth ''/orgs/acme'' 30
      (cached (put_list (auth_key quiet_env ''main'' sample_auth, ''/orgs/acme'') 990 []))) = Ok []"
  by (subst cached_list_reused) (auto simp: put_list_def)

section \<open>Pages\<close>

lemma list_pages_calls:
  assumes "list_pages E profile a scope g left page acc e = (Ok rs, e')"
  shows "\<exists>k bs. k < left \<and> length bs = Suc k \<and> rs = acc @ concat bs
     \<and> (\<forall>i < k. 100 \<le> length (bs ! i)) \<and> length (bs ! k) < 100
     \<and> (\<forall>i \<le> k. \<exists>e1 e2 data. gh_request E profile a GET (runners_path scope (page + i)) e1 = (Ok data, e2)
          \<and> runners_of E data = Ok (bs ! i))"
  using assms
proof (induction left arbitrary: page acc e)
  case (Suc left)
  let ?found = "\<lambda>b. bind_p (reads github) (\<lambda>c. if ca_generation c = g
      then bind_p (ask (clock E)) (\<lambda>now.
        seq_p (update_cache (put_list (auth_key E profile a, scope) now (acc @ b))) (ret (acc @ b)))
      else ret (acc @ b))"
  obtain data batch e1 where
    req: "gh_request E profile a GET (runners_path scope page) e = (Ok data, e1)"
      "runners_of E data = Ok batch"
    and rest: "(if length batch < 100 then ?found batch
      else list_pages E profile a scope g left (page + 1) (acc @ batch)) e1 = (Ok rs, e')"
    using Suc.prems unfolding list_pages.simps bind_returns [of "gh_request _ _ _ _ _"]
      bind_returns [of "give _"] basic_returns by blast
  have step: "length batch < 100 \<and> rs = acc @ batch \<or>
       100 \<le> length batch \<and> list_pages E profile a scope g left (page + 1) (acc @ batch) e1 = (Ok rs, e')"
  proof (cases "length batch < 100")
    case True
    with rest have "?found batch e1 = (Ok rs, e')" by simp
    then have "rs = acc @ batch" by (auto simp: returns split: if_splits)
    with True show ?thesis by simp
  next
    case False
    with rest show ?thesis by simp
  qed
  from step show ?case
  proof
    assume "length batch < 100 \<and> rs = acc @ batch"
    with req show ?thesis by (intro exI [of _ 0] exI [of _ "[batch]"]) auto
  next
    assume more: "100 \<le> length batch \<and> list_pages E profile a scope g left (page + 1) (acc @ batch) e1 = (Ok rs, e')"
    then obtain k bs where ih: "k < left" "length bs = Suc k" "rs = (acc @ batch) @ concat bs"
      "\<forall>i < k. 100 \<le> length (bs ! i)" "length (bs ! k) < 100"
      "\<forall>i \<le> k. \<exists>e1 e2 data. gh_request E profile a GET (runners_path scope (page + 1 + i)) e1 = (Ok data, e2)
          \<and> runners_of E data = Ok (bs ! i)"
      using Suc.IH [of "page + 1" "acc @ batch" e1] by blast
    have "\<exists>e1 e2 data. gh_request E profile a GET (runners_path scope (page + i)) e1 = (Ok data, e2)
          \<and> runners_of E data = Ok ((batch # bs) ! i)" if "i \<le> Suc k" for i
      using req ih(6) that by (cases i) auto
    moreover have "\<forall>i < Suc k. 100 \<le> length ((batch # bs) ! i)"
      using more ih(4) by (auto simp: less_Suc_eq_0_disj)
    ultimately show ?thesis using ih
      by (intro exI [of _ "Suc k"] exI [of _ "batch # bs"]) auto
  qed
qed (simp add: returns)

text \<open>
  C30: a runner list that is fetched is the concatenation of the pages 1, 2, ... in their order,
  each the answer to its own request, up to and including the first page with fewer than 100 runners,
  and of at most 10000 pages.
\<close>

theorem list_complete:
  assumes "gh_list E profile a scope ttl e = (Ok rs, e')"
    "ca_lists (github e) (auth_key E profile a, scope) = None \<or> ttl = 0"
  shows "\<exists>k bs. k < 10000 \<and> length bs = Suc k \<and> rs = concat bs
     \<and> (\<forall>i < k. 100 \<le> length (bs ! i)) \<and> length (bs ! k) < 100
     \<and> (\<forall>i \<le> k. \<exists>e1 e2 data. gh_request E profile a GET (runners_path scope (1 + i)) e1 = (Ok data, e2)
          \<and> runners_of E data = Ok (bs ! i))"
proof -
  obtain e0 where "list_pages E profile a scope (ca_generation (github e)) MAX_PAGES 1 [] e0 = (Ok rs, e')"
    using assms by (auto simp: gh_list_def returns Let_def split: option.splits if_splits)
  from list_pages_calls [OF this] show ?thesis by (simp add: MAX_PAGES_def)
qed

theorem list_complete_witness:
  "\<exists>e'. gh_list quiet_env ''main'' sample_auth ''/orgs/acme'' 30 (cached id) = (Ok [], e')
     \<and> (\<exists>k bs. k < 10000 \<and> length bs = Suc k \<and> concat bs = ([] :: remote_runner list))"
proof -
  obtain e' where r: "gh_list quiet_env ''main'' sample_auth ''/orgs/acme'' 30 (cached id) = (Ok [], e')"
    by (simp add: prog_evals state_evals github_evals cached_def await_def text_evals)
  have "ca_lists (github (cached id)) (auth_key quiet_env ''main'' sample_auth, ''/orgs/acme'') = None"
    by (simp add: empty_cache_def)
  with list_complete [OF r] r show ?thesis by metis
qed

section \<open>Secrets\<close>

text \<open>
  A secret read from a file comes from a regular file without any permission for group
  or others, is trimmed, not empty and within the size limit.
\<close>

theorem secret_file_private:
  assumes "secret E (''file:'' @ p) n e = (Ok v, e')"
  shows "\<exists>f raw. fst (fs_open E p (world e)) = Some f \<and> fi_regular f \<and> fi_mode f mod 64 = 0
     \<and> fi_text f (n + 1) = Inr raw \<and> v = trim raw \<and> v \<noteq> [] \<and> length v \<le> n"
  using assms
  by (fastforce simp: secret_def secret_source_def open_private_def returns Let_def strip_prefix_Some
      split: option.splits)

definition private_env :: "unit env" where
  "private_env = quiet_env\<lparr>fs_open := \<lambda>_. Pair (Some \<lparr>fi_regular = True, fi_mode = 384,
     fi_text = \<lambda>_. Inr (''token'' @ [CHR 0x0A])\<rparr>)\<rparr>"

theorem secret_file_private_witness:
  "\<exists>e'. secret private_env ''file:/p'' 16384 (cached id) = (Ok ''token'', e')
     \<and> (\<exists>f. fst (fs_open private_env ''/p'' ()) = Some f \<and> fi_mode f mod 64 = 0)"
proof -
  have "trim (''token'' @ [CHR 0x0A]) = ''token''" by code_simp
  then obtain e' where r: "secret private_env (''file:'' @ ''/p'') 16384 (cached id) = (Ok ''token'', e')"
    by (auto simp: secret_def secret_source_def open_private_def private_env_def prog_evals)
  with secret_file_private [OF r] show ?thesis by auto
qed

section \<open>Redirects\<close>

text \<open>
  The URLs that a client requests for one: each answer may name another location, which is
  requested if the policy says so of it and the URLs before it.
\<close>

function requested :: "('u \<Rightarrow> 'o) \<Rightarrow> 'o \<Rightarrow> ('u \<Rightarrow> 'u option) \<Rightarrow> 'u list \<Rightarrow> 'u \<Rightarrow> 'u list" where
  "requested origin_of origin location previous url = url # (case location url of
       None \<Rightarrow> []
     | Some target \<Rightarrow>
         if follow_redirect origin_of origin (previous @ [url]) target
         then requested origin_of origin location (previous @ [url]) target else [])"
  by pat_completeness auto
termination
  by (relation "measure (\<lambda>(_, _, _, previous, _). 5 - length previous)") (auto simp: follow_redirect_def)

declare requested.simps [simp del]

text \<open>
  C32: whatever redirects GitHub answers with, a request and its token never leave the origin, and
  at most five URLs are requested.
\<close>

theorem redirects_stay:
  assumes "origin_of url = origin" "length previous \<le> 4"
  shows "list_all (\<lambda>u. origin_of u = origin) (requested origin_of origin location previous url)
     \<and> length (requested origin_of origin location previous url) \<le> 5 - length previous"
  using assms
proof (induction origin_of origin location previous url rule: requested.induct)
  case (1 origin_of origin location previous url)
  show ?case
  proof (cases "location url")
    case None
    with 1 show ?thesis by (simp add: requested.simps [of _ _ _ previous])
  next
    case (Some target)
    then show ?thesis
      using 1 by (cases "follow_redirect origin_of origin (previous @ [url]) target")
        (auto simp: requested.simps [of _ _ _ previous] follow_redirect_def)
  qed
qed

theorem redirects_stay_witness:
  "list_all (\<lambda>u. fst u = (0::nat)) (requested fst 0 (\<lambda>u. Some (0, Suc (snd u))) [] (0, 0::nat))
     \<and> length (requested fst (0::nat) (\<lambda>u. Some (0, Suc (snd u))) [] (0, 0::nat)) \<le> 5"
  using redirects_stay [of fst "(0, 0::nat)" "0::nat" "[]" "\<lambda>u. Some (0, Suc (snd u))"] by simp

end
