(* ===== verification/Image.thy ===== *)
theory Image
  imports Sample
begin

text \<open>
  Versions of the runner image (src/image.rs): the check against the latest upstream release, and
  the pull of an image. Dates are parsed and printed by the environment, in nanoseconds since the
  epoch.
\<close>

section \<open>Versions\<close>

text \<open>The version of the bundled runner, in runner/version.json.\<close>

definition runner_version :: string where
  "runner_version = ''2.338.0''"

text \<open>\<open>trim_start_matches('v')\<close>.\<close>

definition trim_v :: "string \<Rightarrow> string" where
  "trim_v s = dropWhile (\<lambda>c. c = CHR ''v'') s"

definition version :: "string \<Rightarrow> u64 list option" where
  "version s = (case parse_all parse_u64 (split_at (CHR ''.'') (trim_v s)) of
      Some v \<Rightarrow> if length v = 3 then Some v else None
    | None \<Rightarrow> None)"

section \<open>The version check\<close>

definition release_lifetime :: int where
  "release_lifetime = 30 * 86400 * 10 ^ 9"

definition outdated :: "'w env \<Rightarrow> runner_release \<Rightarrow> (string \<times> json) list \<Rightarrow> ('w, json) act" where
  "outdated E latest check =
     (let c1 = bm_insert ''warning'' (JStr ''Rebuild or pull an updated runner image, then use runnerctl upgrade. Earlier releases may have an earlier deadline.'')
          (bm_insert ''update_available'' (JBool True) check) in
      case parse_rfc3339 E (rel_published_at latest) of
        None \<Rightarrow> ret (JObj c1)
      | Some published \<Rightarrow>
          let deadline = published + release_lifetime in
          bind_p (give (or_panic (format_rfc3339 E deadline)
             ''a Display implementation returned an error unexpectedly'')) (\<lambda>text.
          let c2 = bm_insert ''deadline_basis'' (JStr ''latest upstream release; this is an upper bound'')
               (bm_insert ''deadline'' (JStr text) c1) in
          bind_p (ask (nanos E)) (\<lambda>now.
          ret (JObj (if deadline \<le> now
            then bm_insert ''error'' (JStr ''Runner is past the upstream update deadline and may no longer receive jobs'')
               (bm_insert ''ok'' (JBool False) c2)
            else c2)))))"

definition version_check :: "'w env \<Rightarrow> string \<Rightarrow> string option \<Rightarrow> runner_release option \<Rightarrow> ('w, json) act" where
  "version_check E img installed latest =
     (let check = bm_of_list [(''check'', JStr (''runner-version:'' @ img)), (''ok'', JBool True),
          (''installed'', jopt JStr installed)] in
      case Option.bind installed version of
        None \<Rightarrow> ret (JObj (bm_insert ''warning''
          (JStr ''Custom image must set io.runnerctl.runner.version to enable update checks'') check))
      | Some current \<Rightarrow> (case latest of
            None \<Rightarrow> ret (JObj (bm_insert ''warning''
              (JStr ''Upstream version unavailable; check runner update requirements manually'') check))
          | Some l \<Rightarrow>
              let c1 = bm_insert ''latest'' (JStr (trim_v (rel_tag_name l))) check in
              case version (rel_tag_name l) of
                None \<Rightarrow> ret (JObj c1)
              | Some new \<Rightarrow> if current < new then outdated E l c1 else ret (JObj c1)))"

section \<open>Pulling an image\<close>

definition pull :: "'w env \<Rightarrow> string option \<Rightarrow> ('w, json) act" where
  "pull E requested =
     (let img = (case requested of Some i \<Rightarrow> i | None \<Rightarrow> default_image) in
      bind_p (give (validate_image img)) (\<lambda>_.
      seq_p (docker_pull E img)
      (bind_p (docker_image_version E img) (\<lambda>v.
       ret (jobj [(''pulled'', JStr img), (''runner_version'', jopt JStr v),
         (''bundled_runner_version'', JStr runner_version)])))))"

section \<open>Properties\<close>

lemma decimal_plain: "d \<notin> set (decimal n)" if "\<not> is_ascii_digit d"
  using decimal_digits [of n] that by (auto simp: list_all_iff)

lemma parse_dotted: "parse_all parse_u64 (map text_of vs) = Some vs" for vs :: "u64 list"
  by (induction vs) (simp_all add: parse_u64_text_of)

lemma trim_v_replicate: "trim_v (replicate n (CHR ''v'') @ s) = trim_v s"
  by (induction n) (simp_all add: trim_v_def)

text \<open>
  A version written as three dotted numbers, after any number of \<open>v\<close>, reads back as
  these numbers.
\<close>

theorem version_dotted:
  "version (replicate n (CHR ''v'') @ join_with ''.'' (map text_of [a, b, c])) = Some [a, b, c]"
proof -
  have dot: "CHR ''.'' \<notin> set (text_of w)" "CHR ''v'' \<notin> set (text_of w)" for w :: u64
    unfolding text_of_def by (intro decimal_plain; simp add: is_ascii_digit_def byte_def)+
  obtain x xs where x: "text_of a = x # xs" using decimal_digits [of "unat a"]
    by (cases "text_of a") (simp_all add: text_of_def)
  with dot(2) [of a] have "x \<noteq> CHR ''v''" by auto
  then have "trim_v (replicate n (CHR ''v'') @ join_with ''.'' (map text_of [a, b, c]))
      = join_with ''.'' (map text_of [a, b, c])"
    using x by (simp add: trim_v_replicate) (simp add: trim_v_def)
  moreover have "split_at (CHR ''.'') (join_with ''.'' (map text_of [a, b, c])) = map text_of [a, b, c]"
    using dot(1) by (intro split_at_join_with) auto
  ultimately show ?thesis using parse_dotted [of "[a, b, c]"] by (simp add: version_def)
qed

lemma outdated_verdict:
  assumes "outdated E l check e = (Ok j, e')"
  shows "json_get j ''ok'' =
    (case parse_rfc3339 E (rel_published_at l) of
       Some t \<Rightarrow> if t + release_lifetime \<le> fst (nanos E (world e)) then JBool False
         else json_get (JObj check) ''ok''
     | None \<Rightarrow> json_get (JObj check) ''ok'')"
  using assms by (auto simp: outdated_def returns Let_def json_get_def split: option.splits)

text \<open>
  The check of a runner image fails exactly when both versions are known, the installed
  one is older, and thirty days have passed since the latest release.
\<close>

theorem version_check_verdict:
  assumes "version_check E img installed latest e = (Ok check, e')"
  shows "json_get check ''ok'' = JBool False \<longleftrightarrow>
    (\<exists>v l current new t. installed = Some v \<and> latest = Some l \<and> version v = Some current
       \<and> version (rel_tag_name l) = Some new \<and> current < new
       \<and> parse_rfc3339 E (rel_published_at l) = Some t
       \<and> t + 30 * 86400 * 10 ^ 9 \<le> fst (nanos E (world e)))"
proof (cases "Option.bind installed version")
  case None
  with assms show ?thesis
    by (auto simp: version_check_def returns Let_def json_get_def bm_of_list_def)
next
  case (Some current)
  then obtain v where v: "installed = Some v" "version v = Some current" by (cases installed) auto
  show ?thesis
  proof (cases latest)
    case None
    with assms v show ?thesis
      by (auto simp: version_check_def returns Let_def json_get_def bm_of_list_def)
  next
    case (Some l)
    show ?thesis
    proof (cases "\<exists>new. version (rel_tag_name l) = Some new \<and> current < new")
      case False
      with assms v Some show ?thesis
        by (auto simp: version_check_def returns Let_def json_get_def bm_of_list_def split: option.splits)
    next
      case True
      then obtain new where new: "version (rel_tag_name l) = Some new" "current < new" by blast
      obtain kvs where "outdated E l kvs e = (Ok check, e')" "json_get (JObj kvs) ''ok'' = JBool True"
        using assms v Some new
        by (simp add: version_check_def Let_def) (simp add: json_get_def bm_of_list_def)
      then show ?thesis
        using outdated_verdict [of E l kvs e check e'] v Some new
        by (auto simp: release_lifetime_def split: option.splits if_splits)
    qed
  qed
qed

theorem version_check_verdict_witness:
  "\<exists>check e'. version_check (quiet_env\<lparr>parse_rfc3339 := \<lambda>_. Some 0, nanos := Pair (4 * 10 ^ 15)\<rparr>) ''i''
       (Some ''v2.337.0'') (Some \<lparr>rel_tag_name = ''2.338.0'', rel_published_at = ''date''\<rparr>)
       (sample_engine ()) = (Ok check, e')
     \<and> json_get check ''ok'' = JBool False"
proof -
  let ?E = "quiet_env\<lparr>parse_rfc3339 := \<lambda>_. Some 0, nanos := Pair (4 * 10 ^ 15)\<rparr>"
  have v: "version ''v2.337.0'' = Some [2, 337, 0]" "version ''2.338.0'' = Some [2, 338, 0]"
    by (simp_all add: version_def trim_v_def parse_u64_def parse_unsigned_def digits_value_def text_evals)
  obtain check e' where r: "version_check ?E ''i''
       (Some ''v2.337.0'') (Some \<lparr>rel_tag_name = ''2.338.0'', rel_published_at = ''date''\<rparr>)
       (sample_engine ()) = (Ok check, e')"
    by (simp add: version_check_def v outdated_def quiet_env_def env_of_def prog_evals)
  with version_check_verdict [OF r] v show ?thesis by simp
qed

end
