(* ===== verification/Wire.thy ===== *)
theory Wire
  imports Sample
begin

text \<open>
  The JSON form of the persisted state (src/state.rs, src/config.rs) and of requests and responses
  (src/protocol.rs), as serde derives it from their declarations: which fields are written, which
  may be left out, and what reading gives back. Structures are read from objects, the form in which
  the program writes them.
\<close>

section \<open>Reading structures\<close>

text \<open>
  What serde derives for a structure: every field is looked up by its name. \<open>field\<close> must be there,
  \<open>field_or\<close> has a default (for an \<open>Option\<close> that is None); \<open>only_fields\<close> is \<open>deny_unknown_fields\<close>.
\<close>

definition field :: "(json \<Rightarrow> 'a option) \<Rightarrow> string \<Rightarrow> json \<Rightarrow> 'a option" where
  "field d k v = (case json_find v k of None \<Rightarrow> None | Some j \<Rightarrow> d j)"

definition field_or :: "'a \<Rightarrow> (json \<Rightarrow> 'a option) \<Rightarrow> string \<Rightarrow> json \<Rightarrow> 'a option" where
  "field_or x d k v = (case json_find v k of None \<Rightarrow> Some x | Some j \<Rightarrow> d j)"

definition optional :: "(json \<Rightarrow> 'a option) \<Rightarrow> json \<Rightarrow> 'a option option" where
  "optional d j = (if j = JNull then Some None else map_option Some (d j))"

fun is_object :: "json \<Rightarrow> bool" where
  "is_object (JObj _) = True"
| "is_object _ = False"

fun only_fields :: "string list \<Rightarrow> json \<Rightarrow> bool" where
  "only_fields ks (JObj kvs) = list_all (\<lambda>k. k \<in> set ks) (bm_keys kvs)"
| "only_fields ks _ = False"

fun as_u32 :: "json \<Rightarrow> u32 option" where
  "as_u32 (JNum n) = (if 0 \<le> n \<and> n < 2 ^ 32 then Some (word_of_int n) else None)"
| "as_u32 _ = None"

fun read_list :: "(json \<Rightarrow> 'a option) \<Rightarrow> json \<Rightarrow> 'a list option" where
  "read_list d (JArr vs) = parse_all d vs"
| "read_list d _ = None"

fun read_entries :: "(json \<Rightarrow> 'a option) \<Rightarrow> (string \<times> json) list \<Rightarrow> (string \<times> 'a) list option" where
  "read_entries d [] = Some []"
| "read_entries d ((k, j) # kvs) = (case (d j, read_entries d kvs) of
      (Some x, Some xs) \<Rightarrow> Some ((k, x) # xs) | _ \<Rightarrow> None)"

fun read_map :: "(json \<Rightarrow> 'a option) \<Rightarrow> json \<Rightarrow> 'a bmap option" where
  "read_map d (JObj kvs) = map_option bm_of_list (read_entries d kvs)"
| "read_map d _ = None"

definition map_json :: "('a \<Rightarrow> json) \<Rightarrow> 'a bmap \<Rightarrow> json" where
  "map_json f m = JObj (map (\<lambda>(k, x). (k, f x)) m)"

subsection \<open>Numbers\<close>

text \<open>An integer read as a double is rounded to 53 bits, half to even.\<close>

fun bit_length :: "nat \<Rightarrow> nat" where
  "bit_length n = (if n = 0 then 0 else Suc (bit_length (n div 2)))"

declare bit_length.simps [simp del]

definition round_nat :: "nat \<Rightarrow> nat" where
  "round_nat n = (let k = bit_length n - 53; q = n div 2 ^ k; r = n mod 2 ^ k in
     (if 2 ^ k < 2 * r \<or> 2 * r = 2 ^ k \<and> odd q then q + 1 else q) * 2 ^ k)"

fun as_f64 :: "json \<Rightarrow> f64 option" where
  "as_f64 (JFloat c) = Some c"
| "as_f64 (JNum n) = Some (Finite (of_int (sgn n * int (round_nat (nat \<bar>n\<bar>)))))"
| "as_f64 _ = None"

section \<open>Configuration\<close>

definition app_json :: "app_auth \<Rightarrow> json" where
  "app_json a = jobj [(''app_id'', JStr (app_id a)), (''installation_id'', jword (installation_id a)),
     (''private_key'', JStr (private_key a))]"

definition read_app :: "json \<Rightarrow> app_auth option" where
  "read_app v =
     (if \<not> only_fields [''app_id'', ''installation_id'', ''private_key''] v then None
      else case (field as_str ''app_id'' v, field as_u64 ''installation_id'' v, field as_str ''private_key'' v) of
        (Some i, Some n, Some k) \<Rightarrow> Some \<lparr>app_id = i, installation_id = n, private_key = k\<rparr>
      | _ \<Rightarrow> None)"

definition auth_value :: "auth \<Rightarrow> json" where
  "auth_value a = jobj
     ((if au_credential a = [] then [] else [(''credential'', JStr (au_credential a))])
      @ (case au_app a of None \<Rightarrow> [] | Some app \<Rightarrow> [(''app'', app_json app)]))"

definition read_auth :: "json \<Rightarrow> auth option" where
  "read_auth v =
     (if \<not> only_fields [''credential'', ''app''] v then None
      else case (field_or [] as_str ''credential'' v, field_or None (optional read_app) ''app'' v) of
        (Some c, Some a) \<Rightarrow> Some \<lparr>au_credential = c, au_app = a\<rparr>
      | _ \<Rightarrow> None)"

definition manager_json :: "manager \<Rightarrow> json" where
  "manager_json m = jobj
     [(''poll_interval_seconds'', jword (mg_poll_interval_seconds m)),
      (''max_runners'', jword (mg_max_runners m)),
      (''max_parallel_creates'', jword (mg_max_parallel_creates m)),
      (''log_retention_days'', jword (mg_log_retention_days m))]"

definition read_manager :: "json \<Rightarrow> manager option" where
  "read_manager v =
     (if \<not> only_fields [''poll_interval_seconds'', ''max_runners'', ''max_parallel_creates'',
          ''log_retention_days''] v then None
      else case (field_or 30 as_u64 ''poll_interval_seconds'' v, field_or 16 as_u32 ''max_runners'' v,
          field_or 1 as_u32 ''max_parallel_creates'' v, field_or 7 as_u64 ''log_retention_days'' v) of
        (Some a, Some b, Some c, Some d) \<Rightarrow>
          Some \<lparr>mg_poll_interval_seconds = a, mg_max_runners = b, mg_max_parallel_creates = c,
            mg_log_retention_days = d\<rparr>
      | _ \<Rightarrow> None)"

definition pool_fields :: "string list" where
  "pool_fields = [''name'', ''organization'', ''repository'', ''auth'', ''labels'', ''runner_group'',
     ''replicas'', ''image'', ''docker_socket'', ''allow_privilege_escalation'', ''cpus'', ''memory'']"

definition read_pool :: "json \<Rightarrow> pool option" where
  "read_pool v =
     (if \<not> only_fields pool_fields v then None
      else case (field as_str ''name'' v, field_or [] as_str ''organization'' v,
          field_or None (optional as_str) ''repository'' v, field as_str ''auth'' v,
          field (read_list as_str) ''labels'' v, field_or default_group as_str ''runner_group'' v) of
        (Some n, Some org, Some repo, Some a, Some ls, Some g) \<Rightarrow>
          (case (field as_u32 ''replicas'' v, field_or default_image as_str ''image'' v,
              field_or False as_bool ''docker_socket'' v,
              field_or False as_bool ''allow_privilege_escalation'' v,
              field_or None (optional as_f64) ''cpus'' v, field_or None (optional as_str) ''memory'' v) of
            (Some r, Some i, Some d, Some e, Some c, Some m) \<Rightarrow>
              Some \<lparr>pl_name = n, pl_organization = org, pl_repository = repo, pl_auth = a, pl_labels = ls,
                pl_runner_group = g, pl_replicas = r, pl_image = i, pl_docker_socket = d,
                pl_allow_privilege_escalation = e, pl_cpus = c, pl_memory = m\<rparr>
          | _ \<Rightarrow> None)
      | _ \<Rightarrow> None)"

definition config_json :: "config \<Rightarrow> json" where
  "config_json c = jobj
     [(''schema_version'', jword (cfg_schema_version c)), (''auth'', map_json auth_value (cfg_auth c)),
      (''manager'', manager_json (cfg_manager c)), (''pools'', JArr (map pool_json (cfg_pools c)))]"

definition read_config_value :: "json \<Rightarrow> config option" where
  "read_config_value v =
     (if \<not> only_fields [''schema_version'', ''auth'', ''manager'', ''pools''] v then None
      else case (field as_u32 ''schema_version'' v, field_or [] (read_map read_auth) ''auth'' v,
          field_or default_manager read_manager ''manager'' v, field_or [] (read_list read_pool) ''pools'' v) of
        (Some s, Some a, Some m, Some ps) \<Rightarrow>
          Some \<lparr>cfg_schema_version = s, cfg_auth = a, cfg_manager = m, cfg_pools = ps\<rparr>
      | _ \<Rightarrow> None)"

section \<open>State\<close>

fun scope_json :: "retry_scope \<Rightarrow> json" where
  "scope_json Observation = JStr ''observation''"
| "scope_json Provisioning = JStr ''provisioning''"

definition read_scope :: "json \<Rightarrow> retry_scope option" where
  "read_scope v = (if v = JStr ''observation'' then Some Observation
     else if v = JStr ''provisioning'' then Some Provisioning else None)"

definition pool_state_json :: "pool_state \<Rightarrow> json" where
  "pool_state_json p = jobj
     [(''id'', JStr (ps_id p)), (''running'', JBool (ps_running p)), (''deleting'', JBool (ps_deleting p)),
      (''generation'', jword (ps_generation p)), (''failures'', jword (ps_failures p)),
      (''retry_at'', jword (ps_retry_at p)), (''retry_scope'', scope_json (ps_retry_scope p)),
      (''error'', jopt JStr (ps_error p)), (''observed_at'', jword (ps_observed_at p))]"

definition read_pool_state :: "json \<Rightarrow> pool_state option" where
  "read_pool_state v =
     (case (field as_str ''id'' v, field as_bool ''running'' v, field as_bool ''deleting'' v,
         field as_u64 ''generation'' v, field as_u32 ''failures'' v) of
       (Some i, Some r, Some d, Some g, Some f) \<Rightarrow>
         (case (field as_u64 ''retry_at'' v, field_or Observation read_scope ''retry_scope'' v,
             field_or None (optional as_str) ''error'' v, field_or 0 as_u64 ''observed_at'' v) of
           (Some t, Some s, Some e, Some ob) \<Rightarrow>
             Some \<lparr>ps_id = i, ps_running = r, ps_deleting = d, ps_generation = g, ps_failures = f,
               ps_retry_at = t, ps_retry_scope = s, ps_error = e, ps_observed_at = ob\<rparr>
         | _ \<Rightarrow> None)
     | _ \<Rightarrow> None)"

definition run_value :: "run \<Rightarrow> json" where
  "run_value r = jobj
     [(''id'', JStr (run_id r)), (''pool_id'', JStr (run_pool_id r)), (''pool'', pool_json (run_pool r)),
      (''generation'', jword (run_generation r)), (''created_at'', jword (run_created_at r)),
      (''phase'', JStr (run_phase r)), (''remote_id'', jopt jword (run_remote_id r)),
      (''retiring'', JBool (run_retiring r)), (''force'', JBool (run_force r)),
      (''completed_job'', JBool (run_completed_job r)), (''log_saved'', JBool (run_log_saved r))]"

definition read_run :: "json \<Rightarrow> run option" where
  "read_run v =
     (case (field as_str ''id'' v, field as_str ''pool_id'' v, field read_pool ''pool'' v,
         field as_u64 ''generation'' v, field as_u64 ''created_at'' v, field as_str ''phase'' v) of
       (Some i, Some pid, Some p, Some g, Some c, Some ph) \<Rightarrow>
         (case (field_or None (optional as_u64) ''remote_id'' v, field as_bool ''retiring'' v,
             field as_bool ''force'' v, field as_bool ''completed_job'' v, field as_bool ''log_saved'' v) of
           (Some rem, Some rt, Some f, Some cj, Some ls) \<Rightarrow>
             Some \<lparr>run_id = i, run_pool_id = pid, run_pool = p, run_generation = g, run_created_at = c,
               run_phase = ph, run_remote_id = rem, run_retiring = rt, run_force = f,
               run_completed_job = cj, run_log_saved = ls\<rparr>
         | _ \<Rightarrow> None)
     | _ \<Rightarrow> None)"

definition state_json :: "state \<Rightarrow> json" where
  "state_json s = jobj
     [(''manager_id'', JStr (s_manager_id s)), (''revision'', jword (s_revision s)),
      (''config'', config_json (s_config s)), (''file_hash'', JStr (s_file_hash s)),
      (''pools'', map_json pool_state_json (s_pools s)), (''runs'', map_json run_value (s_runs s))]"

definition read_state :: "json \<Rightarrow> state option" where
  "read_state v =
     (case (field as_str ''manager_id'' v, field as_u64 ''revision'' v, field read_config_value ''config'' v,
         field as_str ''file_hash'' v, field (read_map read_pool_state) ''pools'' v,
         field (read_map read_run) ''runs'' v) of
       (Some m, Some r, Some c, Some h, Some ps, Some rs) \<Rightarrow>
         Some \<lparr>s_manager_id = m, s_revision = r, s_config = c, s_file_hash = h, s_pools = ps, s_runs = rs\<rparr>
     | _ \<Rightarrow> None)"

section \<open>Requests and responses\<close>

definition tagged :: "string \<Rightarrow> (string \<times> json) list \<Rightarrow> json" where
  "tagged c kvs = jobj ((''command'', JStr c) # kvs)"

fun request_json :: "request \<Rightarrow> json" where
  "request_json (Status p) = tagged ''status'' [(''pool'', jopt JStr p)]"
| "request_json (Add p) = tagged ''add'' [(''pool'', pool_json p)]"
| "request_json (Start p a) = tagged ''start'' [(''pool'', jopt JStr p), (''all'', JBool a)]"
| "request_json (Stop p a f) =
     tagged ''stop'' [(''pool'', jopt JStr p), (''all'', JBool a), (''force'', JBool f)]"
| "request_json (Scale p n) = tagged ''scale'' [(''pool'', JStr p), (''replicas'', jword n)]"
| "request_json (Remove p f) = tagged ''remove'' [(''pool'', JStr p), (''force'', JBool f)]"
| "request_json (Upgrade p i) = tagged ''upgrade'' [(''pool'', JStr p), (''image'', JStr i)]"
| "request_json (Apply t r) = tagged ''apply'' [(''text'', JStr t), (''revision'', jword r)]"
| "request_json (Auth p c a) =
     tagged ''auth'' [(''profile'', JStr p), (''credential'', JStr c), (''app'', jopt app_json a)]"
| "request_json (Logs p i) = tagged ''logs'' [(''pool'', JStr p), (''id'', JStr i)]"
| "request_json Doctor = tagged ''doctor'' []"

definition two :: "('a \<Rightarrow> 'b \<Rightarrow> 'c) \<Rightarrow> 'a option \<Rightarrow> 'b option \<Rightarrow> 'c option" where
  "two f x y = (case (x, y) of (Some a, Some b) \<Rightarrow> Some (f a b) | _ \<Rightarrow> None)"

definition three :: "('a \<Rightarrow> 'b \<Rightarrow> 'c \<Rightarrow> 'd) \<Rightarrow> 'a option \<Rightarrow> 'b option \<Rightarrow> 'c option \<Rightarrow> 'd option" where
  "three f x y z = (case (x, y, z) of (Some a, Some b, Some c) \<Rightarrow> Some (f a b c) | _ \<Rightarrow> None)"

definition read_request_value :: "json \<Rightarrow> request option" where
  "read_request_value v =
     (let pool = field as_str ''pool'' v; any = field_or None (optional as_str) ''pool'' v in
      case field as_str ''command'' v of
        None \<Rightarrow> None
      | Some c \<Rightarrow>
          if c = ''status'' then map_option Status any
          else if c = ''add'' then map_option Add (field read_pool ''pool'' v)
          else if c = ''start'' then two Start any (field as_bool ''all'' v)
          else if c = ''stop'' then three Stop any (field as_bool ''all'' v) (field as_bool ''force'' v)
          else if c = ''scale'' then two Scale pool (field as_u32 ''replicas'' v)
          else if c = ''remove'' then two Remove pool (field as_bool ''force'' v)
          else if c = ''upgrade'' then two Upgrade pool (field as_str ''image'' v)
          else if c = ''apply'' then two Apply (field as_str ''text'' v) (field as_u64 ''revision'' v)
          else if c = ''auth'' then three Auth (field as_str ''profile'' v)
            (field_or [] as_str ''credential'' v) (field_or None (optional read_app) ''app'' v)
          else if c = ''logs'' then two Logs pool (field as_str ''id'' v)
          else if c = ''doctor'' then Some Doctor
          else None)"

record response =
  rs_ok :: bool
  rs_data :: json

text \<open>The response to the outcome of a request, at the end of \<open>serve_connection\<close>.\<close>

definition response_of :: "json res \<Rightarrow> response" where
  "response_of r = (case r of
      Ok data \<Rightarrow> \<lparr>rs_ok = True, rs_data = data\<rparr>
    | Err e \<Rightarrow> \<lparr>rs_ok = False, rs_data = jobj [(''error'', JStr (error_text e))]\<rparr>
    | Panic p \<Rightarrow> \<lparr>rs_ok = False, rs_data = JNull\<rparr>)"

definition response_json :: "response \<Rightarrow> json" where
  "response_json r = jobj [(''ok'', JBool (rs_ok r)), (''data'', rs_data r)]"

definition read_response :: "json \<Rightarrow> response option" where
  "read_response v =
     two (\<lambda>b d. \<lparr>rs_ok = b, rs_data = d\<rparr>) (field as_bool ''ok'' v) (field Some ''data'' v)"

text \<open>What the client makes of a response, at the end of \<open>send\<close>.\<close>

definition reply :: "response \<Rightarrow> json res" where
  "reply r = and_then (ensure (rs_ok r) (case as_str (json_get (rs_data r) ''error'') of
        Some m \<Rightarrow> m | None \<Rightarrow> ''manager request failed'')) (\<lambda>_. Ok (rs_data r))"

section \<open>Round trips\<close>

lemma bm_of_list_snoc: "bm_of_list (xs @ [x]) = bm_insert (fst x) (snd x) (bm_of_list xs)"
  by (simp add: bm_of_list_def)

lemma bm_get_of_list: "bm_get (bm_of_list kvs) k = map_of (rev kvs) k"
proof (induction kvs rule: rev_induct)
  case (snoc x xs)
  then show ?case by (cases x) (simp add: bm_of_list_snoc)
qed (simp add: bm_of_list_def)

lemma json_find_jobj: "json_find (jobj kvs) k = map_of (rev kvs) k"
  by (simp add: jobj_def bm_get_of_list)

lemma bm_insert_last: "\<forall>k' \<in> set (bm_keys m). k' < k \<Longrightarrow> bm_insert k v m = m @ [(k, v)]"
  by (induction k v m rule: bm_insert.induct) (auto simp: bm_keys_def)

lemma bm_of_list_invar_id: "bm_invar m \<Longrightarrow> bm_of_list m = m"
proof (induction m rule: rev_induct)
  case (snoc x m)
  then show ?case
    using bm_insert_last [of m "fst x" "snd x"]
    by (simp add: bm_of_list_snoc bm_invar_def bm_keys_def sorted_wrt_append)
qed (simp add: bm_of_list_def)

lemma parse_all_map: "(\<And>x. x \<in> set xs \<Longrightarrow> d (f x) = Some x) \<Longrightarrow> parse_all d (map f xs) = Some xs"
  by (induction xs) auto

lemma read_entries_map:
  "\<forall>e \<in> set m. d (f (snd e)) = Some (snd e) \<Longrightarrow> read_entries d (map (\<lambda>(k, x). (k, f x)) m) = Some m"
  by (induction m) auto

lemma read_map_json:
  assumes "bm_invar m" "\<And>k x. (k, x) \<in> set m \<Longrightarrow> d (f x) = Some x"
  shows "read_map d (map_json f m) = Some m"
proof -
  have "read_entries d (map (\<lambda>(k, x). (k, f x)) m) = Some m"
    using assms(2) by (intro read_entries_map) auto
  with assms(1) show ?thesis by (simp add: map_json_def bm_of_list_invar_id)
qed

lemma as_u32_jword [simp]: "as_u32 (jword w) = Some w" for w :: u32
proof -
  have "uint w < 2 ^ 32" using unsigned_less [of w] by simp
  then show ?thesis by (simp add: jword_def)
qed

lemma only_fields_jobj: "only_fields ks (jobj kvs) \<longleftrightarrow> fst ` set kvs \<subseteq> set ks"
  unfolding jobj_def only_fields.simps list_all_iff bm_of_list_keys by blast

lemma not_null [simp]: "jword w \<noteq> JNull" "jobj kvs \<noteq> JNull" "app_json a \<noteq> JNull"
  by (simp_all add: jword_def jobj_def app_json_def)

lemma optional_jopt [simp]:
  "optional as_str (jopt JStr x) = Some x" "optional as_u64 (jopt jword n) = Some n"
  by (cases x; simp add: optional_def) (cases n; simp add: optional_def)

lemmas reads_evals = field_def field_or_def json_find_jobj only_fields_jobj

lemma read_app_json [simp]: "read_app (app_json a) = Some a"
  by (simp add: read_app_def app_json_def reads_evals)

lemma optional_app [simp]: "optional read_app (jopt app_json a) = Some a"
  by (cases a) (simp_all add: optional_def)

lemma read_auth_value [simp]: "read_auth (auth_value a) = Some a"
  by (cases "au_app a") (auto simp: read_auth_def auth_value_def reads_evals optional_def)

lemma read_manager_json [simp]: "read_manager (manager_json m) = Some m"
  by (simp add: read_manager_def manager_json_def reads_evals)

text \<open>A quota of processors that JSON can express.\<close>

definition plain_cpus :: "pool \<Rightarrow> bool" where
  "plain_cpus p \<longleftrightarrow> (case pl_cpus p of Some (Infinity _) \<Rightarrow> False | Some NaN \<Rightarrow> False | _ \<Rightarrow> True)"

lemma pool_json_find:
  "json_find (pool_json p) ''name'' = Some (JStr (pl_name p))"
  "json_find (pool_json p) ''organization'' =
     (if pl_organization p = [] then None else Some (JStr (pl_organization p)))"
  "json_find (pool_json p) ''repository'' = map_option JStr (pl_repository p)"
  "json_find (pool_json p) ''auth'' = Some (JStr (pl_auth p))"
  "json_find (pool_json p) ''labels'' = Some (JArr (map JStr (pl_labels p)))"
  "json_find (pool_json p) ''runner_group'' = Some (JStr (pl_runner_group p))"
  "json_find (pool_json p) ''replicas'' = Some (jword (pl_replicas p))"
  "json_find (pool_json p) ''image'' = Some (JStr (pl_image p))"
  "json_find (pool_json p) ''docker_socket'' = Some (JBool (pl_docker_socket p))"
  "json_find (pool_json p) ''allow_privilege_escalation'' =
     (if pl_allow_privilege_escalation p then Some (JBool True) else None)"
  "json_find (pool_json p) ''cpus'' = map_option f64_json (pl_cpus p)"
  "json_find (pool_json p) ''memory'' = map_option JStr (pl_memory p)"
  by (simp_all add: pool_json_def json_find_jobj map_of_append split: option.split)

lemma pool_json_fields: "only_fields pool_fields (pool_json p)"
  by (auto simp: pool_json_def only_fields_jobj pool_fields_def split: option.split)

lemma pool_json_reads:
  "field as_str ''name'' (pool_json p) = Some (pl_name p)"
  "field_or [] as_str ''organization'' (pool_json p) = Some (pl_organization p)"
  "field_or None (optional as_str) ''repository'' (pool_json p) = Some (pl_repository p)"
  "field as_str ''auth'' (pool_json p) = Some (pl_auth p)"
  "field (read_list as_str) ''labels'' (pool_json p) = Some (pl_labels p)"
  "field_or default_group as_str ''runner_group'' (pool_json p) = Some (pl_runner_group p)"
  "field as_u32 ''replicas'' (pool_json p) = Some (pl_replicas p)"
  "field_or default_image as_str ''image'' (pool_json p) = Some (pl_image p)"
  "field_or False as_bool ''docker_socket'' (pool_json p) = Some (pl_docker_socket p)"
  "field_or False as_bool ''allow_privilege_escalation'' (pool_json p)
     = Some (pl_allow_privilege_escalation p)"
  "plain_cpus p \<Longrightarrow> field_or None (optional as_f64) ''cpus'' (pool_json p) = Some (pl_cpus p)"
  "field_or None (optional as_str) ''memory'' (pool_json p) = Some (pl_memory p)"
  by (auto simp: field_def field_or_def pool_json_find optional_def parse_all_map plain_cpus_def f64_json_def
      split: option.splits f64.splits)

lemma read_pool_json: "plain_cpus p \<Longrightarrow> read_pool (pool_json p) = Some p"
  by (simp add: read_pool_def pool_json_fields pool_json_reads)

lemma read_config_json:
  assumes "bm_invar (cfg_auth c)" "\<forall>p \<in> set (cfg_pools c). plain_cpus p"
  shows "read_config_value (config_json c) = Some c"
proof -
  have "read_map read_auth (map_json auth_value (cfg_auth c)) = Some (cfg_auth c)"
    using assms(1) by (simp add: read_map_json)
  moreover have "parse_all read_pool (map pool_json (cfg_pools c)) = Some (cfg_pools c)"
    using assms(2) by (intro parse_all_map) (simp add: read_pool_json)
  ultimately show ?thesis
    by (simp add: read_config_value_def config_json_def reads_evals)
qed

lemma read_scope_json [simp]: "read_scope (scope_json s) = Some s"
  by (cases s) (simp_all add: read_scope_def)

lemma read_pool_state_json [simp]: "read_pool_state (pool_state_json p) = Some p"
  by (simp add: read_pool_state_def pool_state_json_def reads_evals)

lemma read_run_value: "plain_cpus (run_pool r) \<Longrightarrow> read_run (run_value r) = Some r"
  by (simp add: read_run_def run_value_def reads_evals read_pool_json)





text \<open>
  The client reads from a response what the manager put into it: the data, or the message
  of the error.
\<close>

theorem response_roundtrip:
  "map_option reply (read_response (response_json (response_of (Ok data)))) = Some (Ok data)
   \<and> map_option reply (read_response (response_json (response_of (Err e)))) = Some (Err (Msg (error_text e)))"
  by (simp add: read_response_def response_json_def response_of_def reply_def reads_evals two_def
      ensure_def json_get_def)

text \<open>
  Settings that are left out have their defaults: no organization or repository, the default
  group and image, no docker socket, no new privileges, no limits; likewise the manager's.
\<close>

theorem pool_defaults:
  "read_pool (jobj [(''name'', JStr n), (''auth'', JStr a), (''labels'', JArr [JStr l]), (''replicas'', JNum 1)])
     = Some \<lparr>pl_name = n, pl_organization = [], pl_repository = None, pl_auth = a, pl_labels = [l],
         pl_runner_group = default_group, pl_replicas = 1, pl_image = default_image, pl_docker_socket = False,
         pl_allow_privilege_escalation = False, pl_cpus = None, pl_memory = None\<rparr>
   \<and> read_manager (jobj []) = Some default_manager"
  by (simp add: read_pool_def read_manager_def default_manager_def reads_evals pool_fields_def)

end
