(* ===== verification/Serving.thy ===== *)
theory Serving
  imports Requests Image Wire
begin

text \<open>
  The manager as a process (src/manager.rs, and \<open>dispatch\<close> of src/main.rs): opening the engine from the
  disk, answering queries and requests on connections, the loop, and the commands that work on the
  disk when no manager runs. The branches of \<open>select!\<close> become ready in any order: a schedule lists
  them. A diagnosis runs beside the engine; what it reads of the state is a snapshot.
\<close>

section \<open>Opening\<close>

text \<open>\<open>Paths::socket\<close> and \<open>Paths::prepare\<close>, on Unix.\<close>

definition socket_path :: "string \<Rightarrow> string" where
  "socket_path h = join h ''manager.sock''"

definition prepare :: "'w env \<Rightarrow> ('w, unit) act" where
  "prepare E =
     seq_p (perform (secure_dir E (home E)))
     (seq_p (perform (secure_dir E (join (home E) ''credentials'')))
     (seq_p (perform (secure_dir E (join (home E) ''runs'')))
     (perform (secure_dir E (join (home E) ''logs'')))))"

text \<open>The lock is held until the process ends.\<close>

definition lock :: "'w env \<Rightarrow> ('w, unit) act" where
  "lock E =
     bind_p (ask (try_lock E (join (home E) ''manager.lock''))) (\<lambda>r.
     bind_p (give (from_sum r)) (\<lambda>locked.
     ensure_p locked ''manager is already running or another command holds the lock''))"

definition store_open :: "'w env \<Rightarrow> ('w, unit) act" where
  "store_open E = perform (sql_open E)"

definition draw_uuids :: "'w env \<Rightarrow> 'a list \<Rightarrow> ('w, string list) act" where
  "draw_uuids E xs = fold_p (\<lambda>us _. bind_p (ask (uuid E)) (\<lambda>u. ret (us @ [u]))) [] xs"

text \<open>The first state, from config.toml.\<close>

definition first_state :: "'w env \<Rightarrow> ('w, state) act" where
  "first_state E =
     bind_p (reads config_file) (\<lambda>f.
     bind_p (give (case f of Inl _ \<Rightarrow> Err (Msg ''run runnerctl init first'') | Inr text \<Rightarrow> Ok text)) (\<lambda>text.
     bind_p (give (parse_config (from_toml E) text)) (\<lambda>c.
     bind_p (draw_uuids E (cfg_pools c)) (\<lambda>us.
     bind_p (ask (uuid E)) (\<lambda>u.
     let s = new_state c (sha256 E text) us u in
     seq_p (store_save E s) (ret s))))))"

definition fresh_engine :: "state \<Rightarrow> 'w engine \<Rightarrow> 'w engine" where
  "fresh_engine s e = e\<lparr>st := s, github := empty_cache 0, cursor := 0, boot_time := None,
     serving := False, snapshots := None, epoch := 0, reconcile_epoch := None, mutations := 0\<rparr>"

text \<open>
  \<open>Engine::open\<close>: whatever the memory component of \<open>e\<close> holds, it is replaced; what counts of \<open>e\<close>
  are the stored row and the file.
\<close>

definition open_engine :: "'w env \<Rightarrow> ('w, unit) act" where
  "open_engine E =
     seq_p (store_open E)
     (bind_p (store_load E) (\<lambda>l.
      bind_p (case l of Some s \<Rightarrow> ret s | None \<Rightarrow> first_state E) (\<lambda>s.
      seq_p (perform (client_build E)) (modify (fresh_engine s)))))"

section \<open>Queries\<close>

definition runner_logs :: "'w env \<Rightarrow> state \<Rightarrow> string \<Rightarrow> string \<Rightarrow> ('w, json) act" where
  "runner_logs E s p rid =
     bind_p (give (or_error (bm_get (s_pools s) p) ''unknown pool'')) (\<lambda>ps.
     bind_p (give (or_error (bm_get (s_runs s) rid)
        ''runner not active; archived logs are in the logs directory'')) (\<lambda>r.
     seq_p (ensure_p (run_pool_id r = ps_id ps) ''runner does not belong to pool'')
     (bind_p (docker_list E (s_manager_id s)) (\<lambda>containers.
     seq_p (ensure_p (list_ex (\<lambda>c. owned c (s_manager_id s) r) containers) ''owned container not found'')
     (bind_p (docker_logs E rid) (\<lambda>text. ret (jobj [(''logs'', JStr text)])))))))"

definition err_json :: "'a res \<Rightarrow> json" where
  "err_json r = (case r of Err e \<Rightarrow> JStr (error_text e) | _ \<Rightarrow> JNull)"

definition outcome_check :: "string \<Rightarrow> 'a res \<Rightarrow> json" where
  "outcome_check name r =
     jobj [(''check'', JStr name), (''ok'', JBool (is_Ok r)), (''error'', err_json r)]"

text \<open>The loop's accumulator: the checks, and the images already inspected.\<close>

type_synonym diagnosis = "json list \<times> string option res bmap"

definition check_image :: "'w env \<Rightarrow> runner_release option \<Rightarrow> string \<Rightarrow> diagnosis \<Rightarrow> ('w, diagnosis) act" where
  "check_image E latest img acc =
     (if bm_contains_key (snd acc) img then ret acc
      else
        bind_p (attempt (docker_image_version E img)) (\<lambda>v.
        bind_p (case v of
            Ok installed \<Rightarrow> bind_p (version_check E img installed latest) (\<lambda>c. ret (fst acc @ [c]))
          | _ \<Rightarrow> ret (fst acc)) (\<lambda>checks.
        ret (checks, bm_insert img v (snd acc)))))"

definition pool_check :: "pool \<Rightarrow> pool_state \<Rightarrow> pool_health \<Rightarrow> json" where
  "pool_check p ps h = jobj
     [(''check'', JStr (''pool:'' @ pl_name p)), (''ok'', JBool (ph_ok h)),
      (''intent'', JStr (intent_text ps)), (''replicas'', jword (pl_replicas p)),
      (''available'', jnat (ph_available h)), (''unknown'', jnat (ph_unknown h)),
      (''error'', jopt JStr (ps_error ps)), (''retry_at'', jword (ps_retry_at ps)),
      (''observed_at'', jword (ps_observed_at ps)), (''reasons'', JArr (map JStr (ph_reasons h)))]"

definition diagnose_pool :: "'w env \<Rightarrow> state \<Rightarrow> runner_release option \<Rightarrow> diagnosis \<Rightarrow> pool
    \<Rightarrow> ('w, diagnosis) act" where
  "diagnose_pool E s latest acc p =
     bind_p (give (or_panic (bm_get (cfg_auth (s_config s)) (pl_auth p)) ''no entry found for key'')) (\<lambda>a.
     bind_p (attempt (gh_list E (pl_auth p) a (api_scope p) 0)) (\<lambda>gh.
     bind_p (check_image E latest (pl_image p)
        (fst acc @ [outcome_check (''github:'' @ pl_name p) gh], snd acc)) (\<lambda>(checks, images).
     bind_p (give (or_panic (bm_get images (pl_image p)) ''no entry found for key'')) (\<lambda>img.
     bind_p (give (or_panic (bm_get (s_pools s) (pl_name p)) ''no entry found for key'')) (\<lambda>ps.
     bind_p (ask (clock E)) (\<lambda>now.
     ret (checks @ [jobj [(''check'', JStr (''image:'' @ pl_name p)), (''image'', JStr (pl_image p)),
              (''ok'', JBool (is_Ok img)), (''error'', err_json img)],
            pool_check p ps (pool_health p ps (pool_runs (ps_id ps) s) now)], images)))))))"

definition docker_check :: "string res \<Rightarrow> json" where
  "docker_check r = jobj [(''check'', JStr ''docker''), (''ok'', JBool (is_Ok r)),
     (''runtime'', case r of Ok t \<Rightarrow> JStr t | _ \<Rightarrow> JNull), (''error'', err_json r)]"

definition config_check :: "config \<Rightarrow> json" where
  "config_check c = jobj [(''check'', JStr ''config''), (''ok'', JBool True),
     (''warnings'', JArr (map JStr (warnings c)))]"

definition healthy :: "json list \<Rightarrow> bool" where
  "healthy checks \<longleftrightarrow> list_all (\<lambda>c. json_get c ''ok'' = JBool True) checks"

definition diagnose :: "'w env \<Rightarrow> state \<Rightarrow> ('w, json) act" where
  "diagnose E s =
     bind_p (attempt (docker_info E)) (\<lambda>info.
     bind_p (if cfg_pools (s_config s) = [] then ret None
        else bind_p (attempt (latest_runner_release E)) (\<lambda>r.
          ret (case r of Ok l \<Rightarrow> Some l | _ \<Rightarrow> None))) (\<lambda>latest.
     bind_p (fold_p (diagnose_pool E s latest) ([config_check (s_config s), docker_check info], [])
        (cfg_pools (s_config s))) (\<lambda>(checks, images).
     bind_p (case find (\<lambda>(i, v). is_Ok v) images of
          None \<Rightarrow> ret checks
        | Some (img, _) \<Rightarrow> bind_p (attempt (docker_shares E (join (home E) ''runs'') img)) (\<lambda>r.
            ret (checks @ [outcome_check ''docker:bind'' r]))) (\<lambda>checks'.
     ret (jobj [(''healthy'', JBool (healthy checks')), (''revision'', jword (s_revision s)),
       (''checks'', JArr checks')])))))"

section \<open>Answering\<close>

text \<open>
  What \<open>Engine::handle\<close> and \<open>serve_connection\<close> have in common: queries are answered from a state
  (\<open>self.state\<close>, or the last snapshot) beside the engine, the image of an upgrade is inspected
  before the request goes to the engine.
\<close>

definition answer :: "'w env \<Rightarrow> state \<Rightarrow> request \<Rightarrow> ('w, json) act" where
  "answer E s r = (case r of
       Doctor \<Rightarrow> diagnose E s
     | Logs p rid \<Rightarrow> runner_logs E s p rid
     | Upgrade p img \<Rightarrow>
         bind_p (give (validate_image img)) (\<lambda>_. seq_p (docker_image E img) (handle_local E r))
     | _ \<Rightarrow> handle_local E r)"

definition handle :: "'w env \<Rightarrow> request \<Rightarrow> ('w, json) act" where
  "handle E r = bind_p (reads st) (\<lambda>s. answer E s r)"

definition max_request :: nat where
  "max_request = 1024 * 1024"

text \<open>
  What arrives on a connection within five seconds. \<open>read_line\<close> takes everything up to the first
  line feed, or all there is, of at most one byte more than the limit.
\<close>

datatype incoming = Read_Timeout | Read_Failed string | Received string

definition line_of :: "string \<Rightarrow> string" where
  "line_of s = takeWhile (\<lambda>c. c \<noteq> CHR 0x0A) s @ (if CHR 0x0A \<in> set s then [CHR 0x0A] else [])"

definition read_request :: "'w env \<Rightarrow> incoming \<Rightarrow> request res" where
  "read_request E i = (case i of
       Read_Timeout \<Rightarrow> Err (Msg ''request timeout'')
     | Read_Failed err \<Rightarrow> Err (Msg err)
     | Received s \<Rightarrow>
         let line = line_of (take (max_request + 1) s) in
         if \<not> valid_utf8 line then Err (Msg ''stream did not contain valid UTF-8'')
         else
           and_then (ensure (length line \<le> max_request \<and> ends_with [CHR 0x0A] line)
             ''request too large or incomplete'') (\<lambda>_.
           and_then (from_sum (parse_json E line)) (\<lambda>v. case read_request_value v of
               Some r \<Rightarrow> Ok r | None \<Rightarrow> Err (Msg (shape_error E v)))))"

text \<open>The last state published to the connections.\<close>

definition snapshot :: "'w engine \<Rightarrow> state" where
  "snapshot e = (case snapshots e of Some s \<Rightarrow> s | None \<Rightarrow> st e)"

definition serve_connection :: "'w env \<Rightarrow> incoming \<Rightarrow> ('w, response) act" where
  "serve_connection E i =
     bind_p (attempt (bind_p (give (read_request E i)) (\<lambda>r.
       bind_p (reads snapshot) (\<lambda>s. answer E s r)))) (\<lambda>result.
     ret (response_of result))"

section \<open>The manager's loop\<close>

text \<open>
  \<open>Listener::bind\<close> on Unix: a socket left over is removed, the new one is private.
\<close>

definition listen :: "'w env \<Rightarrow> ('w, unit) act" where
  "listen E = (let path = socket_path (home E) in
     bind_p (ask (fs_exists E path)) (\<lambda>stale.
     seq_p (when_p stale (perform (fs_remove_file E path)))
     (bind_p (ask (socket_bind E path)) (\<lambda>bound.
      seq_p (ensure_p bound (''cannot listen at '' @ utf8_lossy path @ ''; use a shorter --home path''))
      (perform (fs_chmod E path 384))))))"

text \<open>
  The branches of \<open>select!\<close>, in the order in which they become ready; a list of them is a schedule.
\<close>

datatype wakeup = Arrived request | Due | Signalled | Closed

fun serve_loop :: "'w env \<Rightarrow> wakeup list \<Rightarrow> ('w, unit) act" where
  "serve_loop E [] = ret ()"
| "serve_loop E (Signalled # ws) = ret ()"
| "serve_loop E (Closed # ws) = throw (Msg ''request listener stopped'')"
| "serve_loop E (Arrived r # ws) = seq_p (attempt (handle_local E r)) (serve_loop E ws)"
| "serve_loop E (Due # ws) = seq_p (tick E) (serve_loop E ws)"

definition attach :: "'w engine \<Rightarrow> 'w engine" where
  "attach e = e\<lparr>serving := True, snapshots := Some (st e)\<rparr>"

definition serve :: "'w env \<Rightarrow> wakeup list \<Rightarrow> ('w, unit) act" where
  "serve E ws =
     seq_p (prepare E)
     (seq_p (lock E)
     (seq_p (open_engine E)
     (seq_p (listen E)
     (seq_p (modify attach)
     (seq_p (perform (signals E))
     (bind_p (attempt (serve_loop E ws)) (\<lambda>result.
      seq_p (perform (fs_remove_file E (socket_path (home E)))) (give result))))))))"

section \<open>Commands without a manager\<close>

text \<open>\<open>dispatch\<close> of src/main.rs when no manager can be connected to.\<close>

definition dispatch_local :: "'w env \<Rightarrow> request \<Rightarrow> ('w, json) act" where
  "dispatch_local E r =
     seq_p (lock E)
     (seq_p (open_engine E)
     (bind_p (handle E r) (\<lambda>response.
      give (json_set ''manager_running'' (JBool False) response))))"

section \<open>Receiving requests\<close>

lemma line_of_first: "CHR 0x0A \<notin> set t \<Longrightarrow> line_of (t @ CHR 0x0A # rest) = t @ [CHR 0x0A]"
  by (induction t) (auto simp: line_of_def)

lemma line_of_prefix: "prefix (line_of s) s"
proof (cases "CHR 0x0A \<in> set s")
  case True
  then obtain a b where "s = a @ CHR 0x0A # b" "CHR 0x0A \<notin> set a" by (meson split_list_first)
  then show ?thesis by (simp add: line_of_first)
next
  case False
  then have "takeWhile (\<lambda>c. c \<noteq> CHR 0x0A) s = s"
    unfolding takeWhile_eq_all_conv by auto
  with False show ?thesis by (simp add: line_of_def del: takeWhile_eq_all_conv)
qed

lemma received_line:
  assumes "CHR 0x0A \<notin> set t" "length t < 2 ^ 20" "valid_utf8 (t @ [CHR 0x0A])"
    "parse_json E (t @ [CHR 0x0A]) = Inr (request_json r)" "\<And>p. r = Add p \<Longrightarrow> plain_cpus p"
  shows "read_request E (Received (t @ CHR 0x0A # rest)) = Ok r"
proof -
  have "take (max_request + 1) (t @ CHR 0x0A # rest) = t @ CHR 0x0A # take (max_request - length t) rest"
    using assms(2) by (simp add: max_request_def take_Cons' Suc_diff_le)
  then have "line_of (take (max_request + 1) (t @ CHR 0x0A # rest)) = t @ [CHR 0x0A]"
    using line_of_first [OF assms(1)] by simp
  moreover have "ends_with [CHR 0x0A] (t @ [CHR 0x0A])" by (simp add: ends_with_suffix)
  moreover have "read_request_value (request_json r) = Some r"
    using assms(5) by (cases r) (simp_all add: read_request_value_def tagged_def reads_evals two_def
      three_def read_pool_json)
  ultimately show ?thesis
    using assms(2-4) by (simp add: read_request_def Let_def ensure_def max_request_def)
qed

text \<open>
  A request sent as one line of UTF-8 of less than a MiB is received as the client meant
  it, whatever follows the line (JSON text is the environment's).
\<close>

theorem request_received:
  assumes "CHR 0x0A \<notin> set t" "length t < 2 ^ 20" "valid_utf8 (t @ [CHR 0x0A])"
    "parse_json E (t @ [CHR 0x0A]) = Inr (request_json r)" "\<And>p. r = Add p \<Longrightarrow> plain_cpus p"
  shows "read_request E (Received (t @ CHR 0x0A # rest)) = Ok r"
  by (rule received_line [OF assms])

definition doctor_env :: "unit env" where
  "doctor_env = quiet_env\<lparr>parse_json := \<lambda>_. Inr (request_json Doctor)\<rparr>"

theorem request_received_witness:
  "read_request doctor_env (Received (''doctor'' @ CHR 0x0A # ''more'')) = Ok Doctor"
proof (rule request_received)
  show "valid_utf8 (''doctor'' @ [CHR 0x0A])" by code_simp
qed (simp_all add: doctor_env_def)

text \<open>
  A request is accepted only from a complete line of UTF-8 of less than a MiB.
\<close>

theorem request_complete:
  assumes "read_request E (Received s) = Ok r"
  shows "\<exists>line. prefix (line @ [CHR 0x0A]) s \<and> length line < 2 ^ 20 \<and> CHR 0x0A \<notin> set line \<and> valid_utf8 (line @ [CHR 0x0A])"
proof -
  let ?l = "line_of (take (max_request + 1) s)"
  have l: "valid_utf8 ?l" "length ?l \<le> max_request" "suffix [CHR 0x0A] ?l"
    using assms by (auto simp: read_request_def Let_def ends_with_suffix split: if_splits)
  have "prefix ?l s" using line_of_prefix [of "take (max_request + 1) s"] take_is_prefix prefix_order.trans by blast
  moreover have "\<exists>line. ?l = line @ [CHR 0x0A] \<and> CHR 0x0A \<notin> set line"
  proof -
    have "CHR 0x0A \<in> set (take (max_request + 1) s)"
      using l(3) by (auto simp: line_of_def suffix_def dest: set_takeWhileD split: if_splits)
         (metis in_set_conv_decomp set_takeWhileD)
    then show ?thesis by (auto simp: line_of_def dest: set_takeWhileD)
  qed
  ultimately show ?thesis using l by (auto simp: max_request_def)
qed

theorem request_complete_witness:
  "\<exists>line. prefix (line @ [CHR 0x0A]) (''doctor'' @ CHR 0x0A # ''more'') \<and> length line < 2 ^ 20"
proof -
  have "read_request doctor_env (Received (''doctor'' @ CHR 0x0A # ''more'')) = Ok Doctor"
  proof -
    have "line_of (''doctor'' @ CHR 0x0A # ''more'') = ''doctor'' @ [CHR 0x0A]" "valid_utf8 (''doctor'' @ [CHR 0x0A])"
      by code_simp+
    then show ?thesis
      by (simp add: read_request_def max_request_def Let_def ends_with_suffix suffix_def doctor_env_def
          read_request_value_def tagged_def reads_evals)
  qed
  from request_complete [OF this] show ?thesis by blast
qed

end
