(* ===== verification/Answer_Types.thy ===== *)
theory Answer_Types
  imports Serving
begin

text \<open>
  The types of the JSON values that the manager answers with, as the client of the protocol
  (\<open>print_data\<close> of src/main.rs, or a script reading \<open>--json\<close>) relies on them, and the proof that every
  operation of src/manager.rs answers with a value of its request's type.

  A record has no other fields than those listed; one that may be null may also be absent, since
  reading it then gives \<open>Null\<close> as well.
\<close>

section \<open>Types of values\<close>

datatype jtype =
    TBool
  | TNat
  | TWord nat
  | TReal
  | TText
  | TOne "string list"
  | TList jtype
  | TMaybe jtype
  | TEither jtype jtype
  | TRec "(string \<times> jtype) list"

function has_type :: "jtype \<Rightarrow> json \<Rightarrow> bool" and has_fields :: "(string \<times> jtype) list \<Rightarrow> json \<Rightarrow> bool" where
  "has_type TBool j = (as_bool j \<noteq> None)"
| "has_type TNat j = (case j of JNum n \<Rightarrow> 0 \<le> n | _ \<Rightarrow> False)"
| "has_type (TWord w) j = (case j of JNum n \<Rightarrow> 0 \<le> n \<and> n < 2 ^ w | _ \<Rightarrow> False)"
| "has_type TReal j = (case j of JFloat _ \<Rightarrow> True | _ \<Rightarrow> False)"
| "has_type TText j = (as_str j \<noteq> None)"
| "has_type (TOne ts) j = (case as_str j of None \<Rightarrow> False | Some t \<Rightarrow> t \<in> set ts)"
| "has_type (TList t) j = (case as_array j of None \<Rightarrow> False | Some vs \<Rightarrow> list_all (has_type t) vs)"
| "has_type (TMaybe t) j = (j = JNull \<or> has_type t j)"
| "has_type (TEither t u) j = (has_type t j \<or> has_type u j)"
| "has_type (TRec fs) j = (only_fields (map fst fs) j \<and> has_fields fs j)"
| "has_fields [] j = True"
| "has_fields ((k, t) # fs) j = (has_type t (json_get j k) \<and> has_fields fs j)"
  by pat_completeness auto
termination
  by (relation "measure (\<lambda>x. case x of Inl (t, j) \<Rightarrow> size t
      | Inr (fs, j) \<Rightarrow> size_list (size_prod (\<lambda>_. 0) size) fs)") auto

section \<open>The types of the answers\<close>

definition run_type :: jtype where
  "run_type = TRec [(''id'', TText), (''phase'', TText), (''retiring'', TBool), (''generation'', TWord 64),
     (''drain_reason'', TMaybe (TOne [''waiting_for_next_job'', ''job_in_progress'',
        ''awaiting_observation_or_cleanup'']))]"

definition pool_type :: jtype where
  "pool_type = TRec [(''name'', TText), (''organization'', TMaybe TText), (''repository'', TMaybe TText),
     (''auth'', TText), (''labels'', TList TText), (''runner_group'', TText), (''replicas'', TWord 32),
     (''image'', TText), (''docker_socket'', TBool), (''allow_privilege_escalation'', TMaybe TBool),
     (''cpus'', TMaybe TReal), (''memory'', TMaybe TText)]"

definition intent_type :: jtype where
  "intent_type = TOne [''deleting'', ''running'', ''stopped'']"

definition mode_type :: jtype where
  "mode_type = TOne [''force'', ''drain'']"

definition pool_status_type :: jtype where
  "pool_status_type = TRec
     [(''name'', TText), (''organization'', TText), (''repository'', TMaybe TText), (''target'', TText),
      (''replicas'', TWord 32), (''intent'', intent_type), (''active'', TNat), (''starting'', TNat),
      (''idle'', TNat), (''busy'', TNat), (''unknown'', TNat), (''draining'', TNat),
      (''generation'', TWord 64), (''error'', TMaybe TText), (''retry_at'', TWord 64),
      (''observed_at'', TWord 64), (''config'', pool_type), (''runners'', TList run_type)]"

definition status_type :: jtype where
  "status_type = TRec [(''revision'', TWord 64), (''pools'', TList pool_status_type)]"

definition version_type :: jtype where
  "version_type = TRec [(''check'', TText), (''ok'', TBool), (''installed'', TMaybe TText),
        (''latest'', TMaybe TText), (''warning'', TMaybe TText), (''update_available'', TMaybe TBool),
        (''deadline'', TMaybe TText), (''deadline_basis'', TMaybe TText), (''error'', TMaybe TText)]"

definition check_type :: jtype where
  "check_type =
     TEither (TRec [(''check'', TText), (''ok'', TBool), (''warnings'', TList TText)])
     (TEither (TRec [(''check'', TText), (''ok'', TBool), (''runtime'', TMaybe TText), (''error'', TMaybe TText)])
     (TEither (TRec [(''check'', TText), (''image'', TText), (''ok'', TBool), (''error'', TMaybe TText)])
     (TEither version_type
     (TRec [(''check'', TText), (''ok'', TBool), (''intent'', intent_type), (''replicas'', TWord 32),
        (''available'', TNat), (''unknown'', TNat), (''error'', TMaybe TText), (''retry_at'', TWord 64),
        (''observed_at'', TWord 64), (''reasons'', TList TText)]))))"

definition answer_type :: "request \<Rightarrow> jtype" where
  "answer_type r = (case r of
       Status _ \<Rightarrow> status_type
     | Add _ \<Rightarrow> TRec [(''added'', TText), (''intent'', intent_type)]
     | Start _ _ \<Rightarrow> TRec [(''started'', TList TText)]
     | Stop _ _ _ \<Rightarrow> TRec [(''stopped'', TList TText), (''pending'', TBool), (''mode'', mode_type), (''message'', TText)]
     | Scale _ _ \<Rightarrow> TRec [(''pool'', TText), (''replicas'', TWord 32), (''message'', TText)]
     | Upgrade _ _ \<Rightarrow> TRec [(''upgrading'', TText), (''message'', TText)]
     | Remove _ _ \<Rightarrow> TRec [(''removing'', TText), (''pending'', TBool), (''mode'', mode_type), (''message'', TText)]
     | Auth _ _ _ \<Rightarrow> TRec [(''profile'', TText)]
     | Apply _ _ \<Rightarrow> TRec [(''revision'', TWord 64), (''applied'', TBool)]
     | Logs _ _ \<Rightarrow> TRec [(''logs'', TText)]
     | Doctor \<Rightarrow> TRec [(''healthy'', TBool), (''revision'', TWord 64), (''checks'', TList check_type)])"

section \<open>Typed programs\<close>

definition yields :: "('a \<Rightarrow> bool) \<Rightarrow> ('w, 'a) act \<Rightarrow> bool" where
  "yields P m \<longleftrightarrow> (\<forall>e x e'. m e = (Ok x, e') \<longrightarrow> P x)"

lemma yieldsD: "yields P m \<Longrightarrow> m e = (Ok x, e') \<Longrightarrow> P x"
  by (auto simp: yields_def)

lemma yields_bind_with: "yields P m \<Longrightarrow> (\<And>x. P x \<Longrightarrow> yields Q (f x)) \<Longrightarrow> yields Q (bind_p m f)"
  unfolding yields_def by (auto simp: bind_returns) blast

lemma yields_bind: "(\<And>x. yields Q (f x)) \<Longrightarrow> yields Q (bind_p m f)"
  by (auto simp: yields_def bind_returns)

lemma yields_seq: "yields Q n \<Longrightarrow> yields Q (seq_p m n)"
  by (auto simp: yields_def seq_returns)

lemma yields_basic: "P x \<Longrightarrow> yields P (ret x)" "yields P (throw er)"
  "(\<And>x. r = Ok x \<Longrightarrow> P x) \<Longrightarrow> yields P (give r)"
  by (auto simp: yields_def basic_returns)

lemma yields_pair: "(\<And>a b. p = (a, b) \<Longrightarrow> yields P (f a b)) \<Longrightarrow> yields P (case p of (a, b) \<Rightarrow> f a b)"
  by (cases p) simp

lemma yields_option:
  "(x = None \<Longrightarrow> yields P m) \<Longrightarrow> (\<And>y. x = Some y \<Longrightarrow> yields P (f y)) \<Longrightarrow>
   yields P (case x of None \<Rightarrow> m | Some y \<Rightarrow> f y)"
  by (cases x) auto

lemma yields_if: "(b \<Longrightarrow> yields P m) \<Longrightarrow> (\<not> b \<Longrightarrow> yields P n) \<Longrightarrow> yields P (if b then m else n)"
  by simp

lemma yields_fold:
  "(\<And>a x. P a \<Longrightarrow> yields P (f a x)) \<Longrightarrow> P a \<Longrightarrow> yields P (fold_p f a xs)"
  by (induction xs arbitrary: a) (auto intro: yields_basic yields_bind_with)

section \<open>Typed values\<close>

declare has_type.simps [simp del]

lemma typed_basic [simp]:
  "has_type TBool (JBool b)" "has_type TText (JStr s)" "has_type TNat (jnat i)"
  "has_type TReal (JFloat c)" "has_type (TMaybe t) JNull"
  "has_type (TOne ts) (JStr s) \<longleftrightarrow> s \<in> set ts"
  "has_type (TList t) (JArr vs) \<longleftrightarrow> list_all (has_type t) vs"
  "has_type (TWord 64) (jword n)" "has_type (TWord 32) (jword m)" for n :: u64 and m :: u32
  using unsigned_less [of n] unsigned_less [of m]
  by (simp_all add: has_type.simps jnat_def jword_def)

lemma typed_maybe: "has_type t j \<Longrightarrow> has_type (TMaybe t) j"
  by (simp add: has_type.simps)

lemma typed_optional [simp]:
  "has_type (TMaybe TText) (JStr s)" "has_type (TMaybe TBool) (JBool b)" "has_type (TMaybe TReal) (f64_json c)"
  "has_type (TMaybe TText) (jopt JStr x)" "has_type (TMaybe TText) (err_json r)"
  by (simp_all add: typed_maybe f64_json_def err_json_def split: f64.split res.split)
    (cases x; simp add: typed_maybe)

lemma typed_texts [simp]: "list_all (has_type TText) (map JStr xs)"
  by (simp add: list_all_iff)

lemma typed_record: "has_type (TRec fs) j \<longleftrightarrow> only_fields (map fst fs) j
    \<and> (\<forall>(k, t) \<in> set fs. has_type t (json_get j k))"
proof -
  have "has_fields gs j \<longleftrightarrow> (\<forall>(k, t) \<in> set gs. has_type t (json_get j k))" for gs
    by (induction gs) auto
  then show ?thesis by (simp add: has_type.simps)
qed

lemma typed_rec: "has_type (TRec fs) (JObj kvs) \<longleftrightarrow> set (bm_keys kvs) \<subseteq> fst ` set fs
    \<and> (\<forall>(k, t) \<in> set fs. has_type t (json_get (JObj kvs) k))"
  by (auto simp: typed_record list_all_iff)

lemma typed_intent [simp]: "has_type intent_type (JStr (intent_text ps))"
  "has_type intent_type (JStr ''stopped'')" "has_type mode_type (JStr (mode_text force))"
  by (simp_all add: intent_type_def intent_text_def mode_type_def mode_text_def)

lemma typed_jobj: "has_type (TRec fs) (jobj kvs) \<longleftrightarrow> fst ` set kvs \<subseteq> fst ` set fs
    \<and> (\<forall>(k, t) \<in> set fs. has_type t (case map_of (rev kvs) k of None \<Rightarrow> JNull | Some j \<Rightarrow> j))"
  unfolding jobj_def typed_rec bm_of_list_keys
  by (simp add: json_get_def bm_get_of_list)

lemma typed_drain [simp]: "has_type (TMaybe (TOne [''waiting_for_next_job'', ''job_in_progress'',
        ''awaiting_observation_or_cleanup''])) (drain_reason r)"
  by (auto simp: drain_reason_def intro: typed_maybe)

lemma typed_run: "has_type run_type (run_json r)"
  by (simp add: run_type_def run_json_def typed_jobj)

lemma typed_pool: "has_type pool_type (pool_json p)"
  by (simp add: pool_type_def pool_json_def typed_jobj map_of_append split: option.split)

section \<open>Typed answers\<close>

lemma typed_status: "status_response s p = Ok j \<Longrightarrow> has_type status_type j"
proof -
  have pool: "has_type pool_status_type x"
    if "pool_status s q = Ok x" for q x
    using that by (auto simp: pool_status_def Let_def typed_jobj typed_run typed_pool list_all_iff pool_status_type_def)
  have "map_res (pool_status s) qs = Ok xs \<Longrightarrow> list_all (has_type pool_status_type) xs" for qs xs
    by (induction qs arbitrary: xs) (auto intro: pool)
  then show "status_response s p = Ok j \<Longrightarrow> has_type status_type j"
    by (auto simp: status_response_def status_type_def typed_jobj)
qed

lemma typed_request: "yields (has_type (answer_type r)) (handle_request E r)"
  by (cases r; simp only: handle_request_def request.case handle_status_def handle_add_def
      handle_scale_def handle_upgrade_def handle_start_def handle_stop_def handle_remove_def
      handle_auth_def handle_apply_def Let_def answer_type_def; intro yields_bind yields_seq yields_basic;
      (rule typed_status, assumption)?; simp add: typed_jobj)

lemma typed_local: "yields (has_type (answer_type r)) (handle_local E r)"
  unfolding yields_def
proof (intro allI impI)
  fix e j e' assume "handle_local E r e = (Ok j, e')"
  then obtain e1 where "handle_inner E r e = (Ok j, e1)" using handle_local_returns by blast
  then show "has_type (answer_type r) j"
    using typed_request [of r E] by (auto simp: yields_def handle_inner_def seq_returns)
qed

lemma typed_either: "has_type t j \<Longrightarrow> has_type (TEither t u) j" "has_type u j \<Longrightarrow> has_type (TEither t u) j"
  by (simp_all add: has_type.simps)

lemma typed_checks [simp]:
  "has_type check_type (config_check c)" "has_type check_type (docker_check r)"
  "has_type check_type (outcome_check n x)" "has_type check_type (pool_check p ps h)"
  "has_type check_type (jobj [(''check'', JStr a), (''image'', JStr b), (''ok'', JBool d), (''error'', err_json v)])"
proof -
  show "has_type check_type (config_check c)"
    unfolding check_type_def by (rule typed_either) (simp add: config_check_def typed_jobj)
  show "has_type check_type (docker_check r)" "has_type check_type (outcome_check n x)"
    unfolding check_type_def by (rule typed_either(2), rule typed_either(1), simp add: docker_check_def
      outcome_check_def typed_jobj split: res.split)+
  show "has_type check_type (jobj [(''check'', JStr a), (''image'', JStr b), (''ok'', JBool d), (''error'', err_json v)])"
    unfolding check_type_def by (intro typed_either(1) typed_either(2) [of "TEither _ _"]) (simp add: typed_jobj)
  show "has_type check_type (pool_check p ps h)"
    unfolding check_type_def by (intro typed_either(2)) (simp add: pool_check_def typed_jobj)
qed

lemma typed_insert:
  assumes "has_type (TRec fs) (JObj c)" "(k, t) \<in> set fs" "has_type t j" "distinct (map fst fs)"
  shows "has_type (TRec fs) (JObj (bm_insert k j c))"
proof -
  have "u = t" if "(k, u) \<in> set fs" for u
    using that assms(2,4) by (metis Some_eq_map_of_iff option.inject)
  then have "has_type u (json_get (JObj (bm_insert k j c)) i)" if "(i, u) \<in> set fs" for i u
    using that assms(1,3) by (cases "i = k") (auto simp: typed_rec json_get_def)
  moreover have "k \<in> fst ` set fs" using assms(2) by (metis fst_conv image_eqI)
  ultimately show ?thesis
    using assms(1) by (auto simp: typed_rec set_keys_insert)
qed

lemma typed_outdated:
  "has_type version_type (JObj c) \<Longrightarrow> yields (has_type version_type) (outdated E l c)"
  unfolding outdated_def Let_def version_type_def
  by (intro yields_option yields_bind yields_basic) (auto intro!: typed_insert)

lemma typed_version: "yields (has_type version_type) (version_check E img installed latest)"
proof -
  define c where "c = bm_of_list [(''check'', JStr (''runner-version:'' @ img)), (''ok'', JBool True),
      (''installed'', jopt JStr installed)]"
  have c: "has_type version_type (JObj c)"
    by (simp add: c_def version_type_def typed_jobj flip: jobj_def)
  then have grown: "has_type version_type (JObj (bm_insert ''warning'' (JStr w) c))"
    "has_type version_type (JObj (bm_insert ''latest'' (JStr v) c))" for w v
    unfolding version_type_def by (auto intro!: typed_insert)
  show ?thesis
    unfolding version_check_def Let_def c_def [symmetric]
    by (intro yields_option yields_if yields_basic typed_outdated grown)
qed

lemma typed_alternative: "has_type version_type j \<Longrightarrow> has_type check_type j"
  unfolding check_type_def by (intro typed_either(2) typed_either(1)) assumption

lemma typed_check_image:
  assumes "list_all (has_type check_type) (fst acc)"
  shows "yields (\<lambda>a. list_all (has_type check_type) (fst a)) (check_image E latest img acc)"
proof -
  have checked: "yields (list_all (has_type check_type)) (case v of
            Ok installed \<Rightarrow> bind_p (version_check E img installed latest) (\<lambda>c. ret (fst acc @ [c]))
          | _ \<Rightarrow> ret (fst acc))" for v
    using assms by (cases v) (auto intro!: yields_basic yields_bind_with [OF typed_version] typed_alternative)
  show ?thesis
    unfolding check_image_def using assms
    by (intro yields_if yields_bind [where m = "attempt m" for m] yields_bind_with [OF checked] yields_basic) auto
qed

lemma typed_diagnose_pool:
  "list_all (has_type check_type) (fst acc) \<Longrightarrow>
   yields (\<lambda>a. list_all (has_type check_type) (fst a)) (diagnose_pool E s latest acc p)"
  unfolding diagnose_pool_def
  by (intro yields_bind yields_bind_with [OF typed_check_image] yields_pair yields_basic) auto

lemma typed_diagnose: "yields (has_type (answer_type Doctor)) (diagnose E s)"
  unfolding diagnose_def
proof (rule yields_bind, rule yields_bind)
  fix info :: "string res" and latest
  have shared: "yields (list_all (has_type check_type)) (case find (\<lambda>(i, v). is_Ok v) images of
          None \<Rightarrow> ret checks
        | Some (img, _) \<Rightarrow> bind_p (attempt (docker_shares E (join (home E) ''runs'') img)) (\<lambda>r.
            ret (checks @ [outcome_check ''docker:bind'' r])))"
    if "list_all (has_type check_type) checks" for checks and images :: "string option res bmap"
    using that by (intro yields_option yields_pair yields_bind yields_basic) auto
  show "yields (has_type (answer_type Doctor))
     (bind_p (fold_p (diagnose_pool E s latest) ([config_check (s_config s), docker_check info], [])
        (cfg_pools (s_config s))) (\<lambda>(checks, images).
     bind_p (case find (\<lambda>(i, v). is_Ok v) images of
          None \<Rightarrow> ret checks
        | Some (img, _) \<Rightarrow> bind_p (attempt (docker_shares E (join (home E) ''runs'') img)) (\<lambda>r.
            ret (checks @ [outcome_check ''docker:bind'' r]))) (\<lambda>checks'.
     ret (jobj [(''healthy'', JBool (healthy checks')), (''revision'', jword (s_revision s)),
       (''checks'', JArr checks')]))))"
    by (intro yields_bind_with [OF yields_fold [where P = "\<lambda>a. list_all (has_type check_type) (fst a)"]]
          yields_pair yields_bind_with [OF shared] yields_basic typed_diagnose_pool)
      (auto simp: answer_type_def typed_jobj)
qed

lemma typed_answer: "yields (has_type (answer_type r)) (answer E s r)"
proof (cases r)
  case (Logs p rid)
  show ?thesis
    unfolding Logs answer_def runner_logs_def request.case answer_type_def
    by (intro yields_bind yields_seq yields_basic) (simp add: typed_jobj)
next
  case Doctor
  then show ?thesis using typed_diagnose by (simp add: answer_def)
qed (simp_all add: answer_def typed_local yields_bind yields_seq)

section \<open>The protocol\<close>

text \<open>
  C7: whatever arrives on a connection, the response has a type that is known in advance. A
  response that is ok answers the request that was read with an object that has that request's
  fields and no others, each of its own type: numbers within the width of the code's integers,
  texts, lists, the fixed words of an intent or a mode, checks of five kinds. (One that may be null
  may be absent.) A response that is not ok carries one error text.
\<close>

theorem responses_typed:
  assumes "serve_connection E i e = (Ok x, e')"
  shows "if rs_ok x then \<exists>r. read_request E i = Ok r \<and> has_type (answer_type r) (rs_data x)
    else has_type (TRec [(''error'', TText)]) (rs_data x)"
proof -
  obtain result e1 where run: "(bind_p (give (read_request E i)) (\<lambda>r.
       bind_p (reads snapshot) (\<lambda>s. answer E s r))) e = (result, e1)" "x = response_of result"
    "\<And>m. result \<noteq> Panic m"
    using assms unfolding serve_connection_def
    by (cases "bind_p (give (read_request E i)) (\<lambda>r. bind_p (reads snapshot) (\<lambda>s. answer E s r)) e"
        rule: outcome_cases) (auto simp: returns bind_p_def attempt_def ret_def)
  show ?thesis
  proof (cases result)
    case (Ok j)
    with run(1) obtain r where "read_request E i = Ok r" "answer E (snapshot e) r e = (Ok j, e1)"
      by (auto simp: returns)
    with Ok run(2) show ?thesis using typed_answer [of r E "snapshot e"] by (auto simp: response_of_def yields_def)
  next
    case (Err er)
    with run(2) show ?thesis by (simp add: response_of_def typed_jobj)
  qed (use run(3) in auto)
qed

definition start_env :: "unit env" where
  "start_env = quiet_env\<lparr>parse_json := \<lambda>_. Inr (request_json (Start None True))\<rparr>"

theorem responses_typed_witness:
  "\<exists>x e'. serve_connection start_env (Received (''start'' @ [CHR 0x0A])) (sample_engine ()) = (Ok x, e')
     \<and> rs_ok x \<and> has_type (answer_type (Start None True)) (rs_data x)"
proof -
  have v: "valid_utf8 (''start'' @ [CHR 0x0A])" by code_simp
  then have read: "read_request start_env (Received (''start'' @ [CHR 0x0A])) = Ok (Start None True)"
    by (intro received_line) (simp_all add: start_env_def)
  then have "\<exists>j e'. serve_connection start_env (Received (''start'' @ [CHR 0x0A])) (sample_engine ())
      = (Ok \<lparr>rs_ok = True, rs_data = j\<rparr>, e')"
    by (simp add: serve_connection_def answer_def start_env_def handle_evals prog_evals state_evals map_evals
        clear_github_def response_of_def)
  then show ?thesis using responses_typed [of start_env _ "sample_engine ()"] read by fastforce
qed

end
