(* ===== verification/Lifecycle.thy ===== *)
theory Lifecycle
  imports Answer_Types
begin

text \<open>
  The manager over its whole life: from an installation on, through managers, commands, edits of
  the file and failures, the disk never holds a malformed state and nothing panics.
\<close>

section \<open>Opening\<close>

lemma returned_object [simp]: "is_object (jobj kvs)"
  by (simp add: jobj_def)

text \<open>What is on disk between two processes.\<close>

definition disk_ok :: "'w engine \<Rightarrow> bool" where
  "disk_ok e \<longleftrightarrow> (case row e of None \<Rightarrow> True | Some s \<Rightarrow> wf_state s)"

text \<open>A universally unique identifier in simple form: 32 hexadecimal digits.\<close>

definition uuids_ok :: "'w env \<Rightarrow> bool" where
  "uuids_ok E \<longleftrightarrow> (\<forall>w. let u = simple_uuid (fst (uuid E w)) in
     length u = 32 \<and> list_all is_ascii_alphanumeric u)"

lemma disk_ok_cong [simp]:
  "disk_ok (e\<lparr>world := w\<rparr>) = disk_ok e" "disk_ok (e\<lparr>config_file := f\<rparr>) = disk_ok e"
  "disk_ok (fresh_engine s e) = disk_ok e" "disk_ok (attach e) = disk_ok e"
  by (simp_all add: disk_ok_def fresh_engine_def attach_def)

lemma resting_disk: "resting e \<Longrightarrow> disk_ok e"
  by (auto simp: resting_def wf_engine_def disk_ok_def)

lemma recoverable_disk: "recoverable e \<Longrightarrow> disk_ok e"
  by (auto simp: recoverable_def disk_ok_def)

lemma uuid_prefix: "uuids_ok E \<Longrightarrow> is_Ok (manager_prefix (simple_uuid (fst (uuid E w))))"
proof -
  assume ok: "uuids_ok E"
  define u where "u = simple_uuid (fst (uuid E w))"
  have u: "length u = 32" "list_all is_ascii_alphanumeric u"
    using ok by (simp_all add: uuids_ok_def u_def Let_def)
  then have "is_ascii_alphanumeric (u ! 8)" by (simp add: list_all_length)
  then have "\<not> continuation (u ! 8)"
    by (auto simp: continuation_def is_ascii_alphanumeric_def is_ascii_digit_def is_ascii_alphabetic_def)
  then show ?thesis using u by (simp add: manager_prefix_def flip: u_def)
qed

lemma draw_uuids_spec:
  assumes "length acc = n"
  shows "post (\<lambda>us e'. length us = n + length xs \<and> row e' = row e \<and> config_file e' = config_file e) R
     (fold_p (\<lambda>us _. bind_p (ask (uuid E)) (\<lambda>u. ret (us @ [u]))) acc xs e)"
  using assms
proof (induction xs arbitrary: acc n e)
  case (Cons x xs)
  have "length (acc @ [fst (uuid E (world e))]) = Suc n" using Cons.prems by simp
  from Cons.IH [OF this, of "e\<lparr>world := snd (uuid E (world e))\<rparr>"] show ?case by simp
qed simp

lemma parse_config_valid: "parse_config ft text = Ok c \<Longrightarrow> well_formed_config c \<and> bm_invar (cfg_auth c)"
  by (auto simp: parse_config_def ordered_config_def validate_Ok)

lemma first_state_spec:
  assumes "row e = None" "uuids_ok E"
  shows "post (\<lambda>s e'. row e' = Some s \<and> wf_state s) (\<lambda>_ e'. row e' = None) (first_state E e)"
proof -
  have step: "post (\<lambda>s e'. row e' = Some s \<and> wf_state s) (\<lambda>_ e'. row e' = None)
      (bind_p (draw_uuids E (cfg_pools c)) (\<lambda>us. bind_p (ask (uuid E)) (\<lambda>u.
        let s = new_state c (sha256 E t) us u in seq_p (store_save E s) (ret s))) e)"
    if "well_formed_config c" "bm_invar (cfg_auth c)" for c t
    unfolding draw_uuids_def post_bind
    by (rule post_mono [OF draw_uuids_spec [of "[]" 0]])
      (use assms that in \<open>auto simp: store_save_def wf_new_state uuid_prefix Let_def split: option.split\<close>)
  show ?thesis
  proof (cases "config_file e")
    case (Inl err)
    with assms(1) show ?thesis by (simp add: first_state_def post_give)
  next
    case (Inr t)
    show ?thesis
    proof (cases "parse_config (from_toml E) t")
      case (Ok c)
      with Inr step parse_config_valid [OF Ok] show ?thesis by (simp add: first_state_def post_give)
    next
      case (Err er)
      with Inr assms(1) show ?thesis by (simp add: first_state_def post_give)
    next
      case (Panic m)
      then show ?thesis by (simp add: parse_config_def)
    qed
  qed
qed

lemma open_engine_spec:
  assumes "disk_ok e" "uuids_ok E"
  shows "post (\<lambda>_ e'. resting e' \<and> row e' = Some (st e') \<and> mutations e' = 0 \<and> \<not> serving e')
    (\<lambda>_ e'. disk_ok e') (open_engine E e)"
proof -
  have build: "post (\<lambda>_ e'. resting e' \<and> row e' = Some (st e') \<and> mutations e' = 0 \<and> \<not> serving e')
      (\<lambda>_ e'. disk_ok e') (seq_p (perform (client_build E)) (modify (fresh_engine s)) e1)"
    if "row e1 = Some s" "wf_state s" for s e1
    using that by (auto simp: fresh_engine_def resting_def wf_engine_def disk_ok_def split: option.split)
  have get: "post (\<lambda>s e'. row e' = Some s \<and> wf_state s) (\<lambda>_ e'. disk_ok e')
      ((case row e of Some s \<Rightarrow> ret s | None \<Rightarrow> first_state E) (e\<lparr>world := w\<rparr>))" for w
  proof (cases "row e")
    case None
    then have "post (\<lambda>s e'. row e' = Some s \<and> wf_state s) (\<lambda>_ e'. row e' = None) (first_state E (e\<lparr>world := w\<rparr>))"
      using first_state_spec [of "e\<lparr>world := w\<rparr>" E] assms(2) by simp
    then show ?thesis unfolding None option.case by (rule post_mono) (simp_all add: disk_ok_def)
  next
    case (Some s)
    with assms(1) show ?thesis by (simp add: disk_ok_def)
  qed
  have rest: "post (\<lambda>_ e'. resting e' \<and> row e' = Some (st e') \<and> mutations e' = 0 \<and> \<not> serving e')
    (\<lambda>_ e'. disk_ok e') (bind_p (case row e of Some s \<Rightarrow> ret s | None \<Rightarrow> first_state E) (\<lambda>s.
      seq_p (perform (client_build E)) (modify (fresh_engine s))) (e\<lparr>world := w\<rparr>))" for w
    unfolding post_bind by (rule post_mono [OF get]) (use build in auto)
  show ?thesis
    using assms(1) rest unfolding open_engine_def store_open_def store_load_def
    by (auto simp del: post_bind simp: post_bind [of _ _ "seq_p _ _"] split: option.split)
qed

section \<open>Queries keep the engine\<close>

lemma keeps_bind_value:
  assumes "keeps I W m" "\<And>x e e'. m e = (Ok x, e') \<Longrightarrow> keeps I W (f x)"
  shows "keeps I W (bind_p m f)"
  unfolding keeps_def
proof (intro allI impI)
  fix s assume "I s"
  with assms(1) have m: "case m s of (Ok _, t) \<Rightarrow> I t | (Err _, t) \<Rightarrow> I t | (Panic _, t) \<Rightarrow> W t"
    by (simp add: keeps_def)
  show "case bind_p m f s of (Ok _, t) \<Rightarrow> I t | (Err _, t) \<Rightarrow> I t | (Panic _, t) \<Rightarrow> W t"
    using m assms(2) by (cases "m s" rule: outcome_cases) (auto simp: bind_p_def keeps_def)
qed

text \<open>A date thirty days later can be printed.\<close>

definition dates_ok :: "'w env \<Rightarrow> bool" where
  "dates_ok E \<longleftrightarrow> (\<forall>s t. parse_rfc3339 E s = Some t \<longrightarrow> format_rfc3339 E (t + release_lifetime) \<noteq> None)"

context awaiting begin

lemma keeps_outdated: "dates_ok E \<Longrightarrow> keeps I W (outdated E l check)"
proof -
  assume dates: "dates_ok E"
  show ?thesis
  proof (cases "parse_rfc3339 E (rel_published_at l)")
    case None
    then show ?thesis by (simp add: outdated_def Let_def keeps_ret)
  next
    case (Some t)
    with dates obtain d where "format_rfc3339 E (t + release_lifetime) = Some d" by (auto simp: dates_ok_def)
    with Some show ?thesis
      unfolding outdated_def Let_def by (simp only: option.case or_panic.simps) (intro keeps_intros keeps_give, auto)
  qed
qed

lemma keeps_version_check: "dates_ok E \<Longrightarrow> keeps I W (version_check E img installed latest)"
  unfolding version_check_def Let_def by (intro keeps_intros keeps_outdated)

lemma keeps_check_image:
  "dates_ok E \<Longrightarrow> (\<And>i. ok (Docker_Call [''image'', ''inspect'', i])) \<Longrightarrow>
   keeps I W (check_image E latest img acc)"
  unfolding check_image_def by (intro keeps_intros keeps_version_check)

end

lemma check_image_knows:
  assumes "check_image E latest img acc e = (Ok (checks, images), e')"
  shows "\<exists>v. bm_get images img = Some v"
proof (cases "bm_contains_key (snd acc) img")
  case True
  with assms show ?thesis by (auto simp: check_image_def returns bm_contains_key_def)
next
  case False
  with assms obtain v where "images = bm_insert img v (snd acc)"
    unfolding check_image_def by (auto simp: bind_returns basic_returns simp del: attempt_returns)
  then show ?thesis by simp
qed

lemma calm_diagnose_pool:
  assumes dates: "dates_ok E" and wf: "wf_state s" and p: "p \<in> set (cfg_pools (s_config s))"
  shows "keeps (\<lambda>e. reads_ok E \<longrightarrow> calm e0 e) (\<lambda>_. \<not> reads_ok E) (diagnose_pool E s latest acc p)"
proof -
  have "well_formed_pool (cfg_auth (s_config s)) p"
    using wf p by (simp add: wf_state_def well_formed_config_def)
  then obtain a where a: "bm_get (cfg_auth (s_config s)) (pl_auth p) = Some a"
    using bm.in_keys_lookup [of "pl_auth p" "cfg_auth (s_config s)"] by (auto simp: well_formed_pool_def)
  obtain ps where ps: "bm_get (s_pools s) (pl_name p) = Some ps"
    using wf_pool_state [OF wf, of "pl_name p"] p by (auto simp: pool_names_def)
  have image: "keeps (\<lambda>e. reads_ok E \<longrightarrow> calm e0 e) (\<lambda>_. \<not> reads_ok E)
      (check_image E latest (pl_image p) acc)" for acc
    by (intro calm.keeps_check_image dates TrueI)
  show ?thesis
    unfolding diagnose_pool_def a ps or_panic.simps
  proof (rule keeps_bind_give)
    fix a'
    show "keeps (\<lambda>e. reads_ok E \<longrightarrow> calm e0 e) (\<lambda>_. \<not> reads_ok E)
      (bind_p (attempt (gh_list E (pl_auth p) a' (api_scope p) 0)) (\<lambda>gh.
       bind_p (check_image E latest (pl_image p)
          (fst acc @ [outcome_check (''github:'' @ pl_name p) gh], snd acc)) (\<lambda>(checks, images).
       bind_p (give (or_panic (bm_get images (pl_image p)) ''no entry found for key'')) (\<lambda>img.
       bind_p (give (Ok ps)) (\<lambda>ps.
       bind_p (ask (clock E)) (\<lambda>now.
       ret (checks @ [jobj [(''check'', JStr (''image:'' @ pl_name p)), (''image'', JStr (pl_image p)),
              (''ok'', JBool (is_Ok img)), (''error'', err_json img)],
            pool_check p ps (pool_health p ps (pool_runs (ps_id ps) s) now)], images)))))))"
      by (rule keeps_bind [OF keeps_attempt [OF calm.keeps_gh_list]])
        (auto dest!: check_image_knows intro!: keeps_bind_value [OF image] keeps_ret calm.keeps_ask
          keeps_bind keeps_bind_give)
  qed simp
qed

lemma calm_diagnose:
  assumes "dates_ok E" "wf_state s"
  shows "calm_future E (diagnose E s)"
  unfolding calm_future_def diagnose_def
  by (intro allI keeps_intros calm.keeps_docker_info calm.keeps_release calm.keeps_shares
      calm_diagnose_pool assms;
      simp add: case_prod_beta; (intro keeps_intros calm.keeps_shares TrueI)?;
      simp add: case_prod_beta; (intro keeps_intros calm.keeps_shares TrueI)?)

lemma calm_runner_logs: "calm_future E (runner_logs E s p rid)"
  unfolding calm_future_def runner_logs_def
  by (intro allI keeps_intros keeps_give calm.keeps_list calm.keeps_logs) auto

lemma calm_local: "calm_future E (handle_local E r)"
  unfolding calm_future_def
proof
  show "keeps (\<lambda>e. reads_ok E \<longrightarrow> calm e0 e) (\<lambda>_. \<not> reads_ok E) (handle_local E r)" for e0
  proof (cases "reads_ok E")
    case True
    then show ?thesis by (intro keeps_post) (auto intro: calm_handle elim: post_mono)
  next
    case False
    then show ?thesis by (auto simp: keeps_def split: res.split prod.split)
  qed
qed

lemma calm_upgrade:
  "calm_future E (bind_p (give (validate_image img)) (\<lambda>_. seq_p (docker_image E img) (handle_local E r)))"
  using calm_local [of E r] unfolding calm_future_def
  by (auto intro!: keeps_bind_give keeps_seq calm.keeps_image)

lemma calm_answer:
  assumes "dates_ok E" "wf_state s"
  shows "calm_future E (answer E s r)"
  using calm_local [of E r] calm_upgrade [of E _ r] calm_diagnose [OF assms] calm_runner_logs [of E s]
  by (cases r) (simp_all add: answer_def)

lemma calm_resting: "resting e \<Longrightarrow> calm e e' \<Longrightarrow> resting e'"
  by (simp add: resting_def calm_def)

lemma answer_resting:
  assumes "dates_ok E" "reads_ok E" "resting e" "wf_state s"
  shows "post (\<lambda>_. resting) (\<lambda>_. resting) (answer E s r e)"
proof -
  have "wf_engine e" using assms(3) by (simp add: resting_def)
  from calm_futureD [OF calm_answer [OF assms(1,4)] assms(2) this] show ?thesis
    by (rule post_mono) (use assms(3) calm_resting in auto)
qed

section \<open>Answers are objects\<close>

text \<open>
  An answer is an object; if it lists pools, they are those of a status, and each has its runners
  with their names and phases.
\<close>

definition printable_runner :: "json \<Rightarrow> bool" where
  "printable_runner r \<longleftrightarrow> as_str (json_get r ''id'') \<noteq> None \<and> as_str (json_get r ''phase'') \<noteq> None"

definition printable_pool :: "json \<Rightarrow> bool" where
  "printable_pool p \<longleftrightarrow> (case as_array (json_get p ''runners'') of
       None \<Rightarrow> False | Some rs \<Rightarrow> list_all printable_runner rs)"

definition printable :: "json \<Rightarrow> bool" where
  "printable j \<longleftrightarrow> is_object j \<and> (case as_array (json_get j ''pools'') of
       None \<Rightarrow> True | Some pools \<Rightarrow> list_all printable_pool pools)"

lemma printable_status: "has_type status_type j \<Longrightarrow> printable j"
proof -
  have runner: "printable_runner r" if "has_type run_type r" for r
    using that by (simp add: run_type_def typed_record printable_runner_def has_type.simps)
  have pool: "printable_pool p" if "has_type pool_status_type p" for p
    using that by (auto simp: pool_status_type_def typed_record printable_pool_def has_type.simps list_all_iff
        intro: runner split: option.splits)
  show "has_type status_type j \<Longrightarrow> printable j"
    by (cases j) (auto simp: status_type_def typed_record printable_def has_type.simps list_all_iff
        intro: pool split: option.splits)
qed

lemma printable_other: "has_type (TRec fs) j \<Longrightarrow> ''pools'' \<notin> fst ` set fs \<Longrightarrow> printable j"
proof (cases j)
  case (JObj kvs)
  assume "has_type (TRec fs) j" "''pools'' \<notin> fst ` set fs"
  then have "bm_get kvs ''pools'' = None"
    using JObj bm.not_in_keys [of "''pools''" kvs] by (auto simp: typed_rec)
  then show ?thesis by (simp add: JObj printable_def json_get_def)
qed (simp_all add: typed_record)

lemma printable_answer: "has_type (answer_type r) j \<Longrightarrow> printable j"
  by (cases r; simp only: answer_type_def request.case; (rule printable_status, assumption)?;
      erule printable_other; simp)

lemma gives_answer: "yields printable (answer E s r)"
  using typed_answer [of r E s] by (auto simp: yields_def intro: printable_answer)

section \<open>A manager's life\<close>

interpretation growing: counting E "\<lambda>e. n \<le> mutations e" "\<lambda>e. n \<le> mutations e" "\<lambda>_. True"
  for E :: "'w env" and n :: nat
  by unfold_locales (auto simp: bump_epoch_def)

lemma growing_local: "keeps (\<lambda>e. n \<le> mutations e) (\<lambda>e. n \<le> mutations e) (handle_local E r)"
  by (rule growing.any_handle) (simp add: bump_epoch_def)

lemma growing_tick: "keeps (\<lambda>e. n \<le> mutations e) (\<lambda>e. n \<le> mutations e) (tick E)"
  unfolding tick_def Let_def
  by (intro keeps_intros growing.turn_calls) auto

lemma growing_loop: "keeps (\<lambda>e. n \<le> mutations e) (\<lambda>e. n \<le> mutations e) (serve_loop E ws)"
  by (induction E ws rule: serve_loop.induct)
    (simp_all add: keeps_ret keeps_throw keeps_seq keeps_attempt growing_local growing_tick)

lemma keepsD: "keeps I W m \<Longrightarrow> I e \<Longrightarrow>
    (case m e of (Ok _, t) \<Rightarrow> I t | (Err _, t) \<Rightarrow> I t | (Panic _, t) \<Rightarrow> W t)"
  by (simp add: keeps_def)

lemma keeps_snd:
  fixes f :: "'s \<Rightarrow> nat"
  assumes "keeps (\<lambda>e'. n \<le> f e') (\<lambda>e'. n \<le> f e') m" "n = f e"
  shows "f e \<le> f (snd (m e))"
  using keepsD [OF assms(1), of e] assms(2) by (cases "m e" rule: outcome_cases) auto

lemma loop_spec:
  assumes "reads_ok E" "resting e" "mutations (snd (serve_loop E ws e)) < 2 ^ 64"
  shows "post (\<lambda>_. resting) (\<lambda>_. recoverable) (serve_loop E ws e)"
  using assms(2,3)
proof (induction ws arbitrary: e)
  case (Cons w ws)
  show ?case
  proof (cases w)
    case (Arrived r)
    have wf: "wf_engine e" and idle: "reconcile_epoch e = None" using Cons.prems(1) by (simp_all add: resting_def)
    have step: "post (\<lambda>_ e'. handled r e e') (\<lambda>_ e'. handled r e e') (handle_local E r e)"
      by (rule post_mono [OF handle_local_step [OF wf assms(1)]]) auto
    have "post (\<lambda>_ e'. post (\<lambda>_. resting) (\<lambda>_. recoverable) (serve_loop E ws e')) (\<lambda>_. recoverable)
        (attempt (handle_local E r) e)"
      using step Cons.prems(2) idle unfolding Arrived
      by (cases "handle_local E r e" rule: outcome_cases)
        (auto simp: attempt_def seq_p_def bind_p_def handled_def resting_def intro!: Cons.IH)
    then show ?thesis by (simp add: Arrived)
  next
    case Due
    note m = Cons.prems(2) [unfolded Due serve_loop.simps]
    have fewer: "mutations (snd (tick E e)) < 2 ^ 64"
    proof (cases "tick E e" rule: outcome_cases)
      case (Ok u e1)
      then have "mutations e1 \<le> mutations (snd (seq_p (tick E) (serve_loop E ws) e))"
        using keeps_snd [OF growing_loop refl, of e1 E ws] by (simp add: seq_p_def bind_p_def)
      with Ok m show ?thesis by simp
    qed (use m in \<open>simp_all add: seq_p_def bind_p_def\<close>)
    have "post (\<lambda>_ e'. resting e') (\<lambda>_ e'. recoverable e') (tick E e)"
      by (rule post_mono [OF spec_outcome [OF tick_spec [OF assms(1) Cons.prems(1)]]])
        (use fewer in \<open>simp_all add: rested_def\<close>)
    then show ?thesis
      using m unfolding Due serve_loop.simps
      by (cases "tick E e" rule: outcome_cases) (auto simp: seq_p_def bind_p_def intro!: Cons.IH)
  qed (use Cons.prems in \<open>simp_all add: resting_recoverable\<close>)
qed simp

text \<open>What is kept when only the world moves.\<close>

lemma prepare_spec: "post (\<lambda>_ e'. \<exists>w. e' = e\<lparr>world := w\<rparr>) (\<lambda>_ e'. \<exists>w. e' = e\<lparr>world := w\<rparr>) (prepare E e)"
  by (auto simp: prepare_def split: option.split)

lemma lock_spec: "post (\<lambda>_ e'. \<exists>w. e' = e\<lparr>world := w\<rparr>) (\<lambda>_ e'. \<exists>w. e' = e\<lparr>world := w\<rparr>) (lock E e)"
  by (auto simp: lock_def post_give from_sum_def split: sum.split)

lemma listen_spec: "post (\<lambda>_ e'. \<exists>w. e' = e\<lparr>world := w\<rparr>) (\<lambda>_ e'. \<exists>w. e' = e\<lparr>world := w\<rparr>) (listen E e)"
  by (auto simp: listen_def Let_def split: option.split)

lemma resting_world [simp]: "resting (e\<lparr>world := w\<rparr>) = resting e"
  by (simp add: resting_def wf_engine_def)

lemma resting_attach [simp]: "resting (attach e) = resting e"
  by (simp add: resting_def wf_engine_def attach_def)

lemma mutations_attach [simp]: "mutations (attach e) = mutations e"
  by (simp add: attach_def)

definition life_ok :: "'w env \<Rightarrow> bool" where
  "life_ok E \<longleftrightarrow> reads_ok E \<and> uuids_ok E \<and> dates_ok E"

lemmas life_evals =
  serve_def prepare_def lock_def open_engine_def store_open_def store_load_def fresh_engine_def
  listen_def attach_def dispatch_local_def handle_def answer_def handle_local_def handle_inner_def
  handle_request_def handle_status_def

lemma quiet_life: "life_ok quiet_env"
  by (auto simp: life_ok_def dates_ok_def uuids_ok_def Let_def simple_uuid_def is_ascii_alphanumeric_def
      is_ascii_digit_def is_ascii_alphabetic_def byte_def) (simp_all add: quiet_env_def env_of_def)

lemma locked_open:
  assumes "disk_ok e" "uuids_ok E"
  shows "post (\<lambda>_ e'. resting e' \<and> row e' = Some (st e') \<and> mutations e' = 0 \<and> \<not> serving e')
    (\<lambda>_. disk_ok) (seq_p (lock E) (open_engine E) e)"
  unfolding post_seq
  by (rule post_mono [OF lock_spec]) (use assms in \<open>auto intro!: open_engine_spec\<close>)

lemma seq_assoc: "seq_p (seq_p m n) k = seq_p m (seq_p n k)"
proof
  show "seq_p (seq_p m n) k s = seq_p m (seq_p n k) s" for s
    by (cases "m s" rule: outcome_cases) (simp_all add: seq_p_def bind_p_def)
qed

lemma guarded_seq:
  assumes "post P R (m e)" "mutations (snd (seq_p m n e)) < k"
    "\<And>x e1. P x e1 \<Longrightarrow> mutations (snd (n e1)) < k \<Longrightarrow> post Q R (n e1)"
  shows "post Q R (seq_p m n e)"
  using assms by (cases "m e" rule: outcome_cases) (auto simp: seq_p_def bind_p_def)

text \<open>The loop and what follows it.\<close>

definition closing :: "'w env \<Rightarrow> wakeup list \<Rightarrow> ('w, unit) act" where
  "closing E ws = bind_p (attempt (serve_loop E ws)) (\<lambda>result.
     seq_p (perform (fs_remove_file E (socket_path (home E)))) (give result))"

lemma closing_spec:
  assumes "reads_ok E" "resting e" "mutations (snd (closing E ws e)) < 2 ^ 64"
  shows "post (\<lambda>_. recoverable) (\<lambda>_. disk_ok) (closing E ws e)"
proof -
  let ?close = "\<lambda>r :: unit res. seq_p (perform (fs_remove_file E (socket_path (home E)))) (give r)"
  have "mutations (snd (?close r e2)) = mutations e2" for r e2
    by (simp add: perform_def seq_p_def bind_p_def ask_def give_def ret_def throw_def
        case_prod_beta split: option.split)
  then have "mutations (snd (serve_loop E ws e)) < 2 ^ 64"
    using assms(3) by (cases "serve_loop E ws e" rule: outcome_cases)
      (auto simp: closing_def bind_p_def attempt_def)
  from loop_spec [OF assms(1,2) this] have "post (\<lambda>_. recoverable) (\<lambda>_. recoverable) (serve_loop E ws e)"
    by (rule post_mono) (auto intro: resting_recoverable)
  then show ?thesis
    unfolding closing_def post_bind post_attempt
    by (rule post_mono) (auto simp: post_give recoverable_disk split: option.split)
qed

lemma serve_outcome:
  assumes "disk_ok e" "life_ok E" "mutations (snd (serve E ws e)) < 2 ^ 64"
  shows "post (\<lambda>_. recoverable) (\<lambda>_. disk_ok) (serve E ws e)"
proof -
  have ok: "reads_ok E" "uuids_ok E" using assms(2) by (simp_all add: life_ok_def)
  define run where "run = seq_p (perform (signals E)) (closing E ws)"
  have run: "post (\<lambda>_. recoverable) (\<lambda>_. disk_ok) (run e1)"
    if r: "resting e1" and m: "mutations (snd (run e1)) < 2 ^ 64" for e1
    unfolding run_def
  proof (rule guarded_seq [OF _ m [unfolded run_def] closing_spec [OF ok(1)]])
    show "post (\<lambda>_. resting) (\<lambda>_. disk_ok) (perform (signals E) e1)"
      using r resting_disk [of e1] by (simp add: disk_ok_def split: option.split)
  qed
  have serve: "serve E ws = seq_p (prepare E) (seq_p (seq_p (lock E) (open_engine E))
      (seq_p (listen E) (seq_p (modify attach) run)))"
    by (simp add: serve_def run_def closing_def seq_assoc)
  have listening: "post (\<lambda>_. recoverable) (\<lambda>_. disk_ok) (seq_p (listen E) (seq_p (modify attach) run) e2)"
    if e2: "resting e2" and m: "mutations (snd (seq_p (listen E) (seq_p (modify attach) run) e2)) < 2 ^ 64" for e2
  proof (rule guarded_seq [OF _ m])
    show "post (\<lambda>_. resting) (\<lambda>_. disk_ok) (listen E e2)"
      by (rule post_mono [OF listen_spec]) (use e2 resting_disk in auto)
  next
    fix e3 assume "resting e3" "mutations (snd (seq_p (modify attach) run e3)) < 2 ^ 64"
    then show "post (\<lambda>_. recoverable) (\<lambda>_. disk_ok) (seq_p (modify attach) run e3)"
      using run [of "attach e3"] by (simp add: seq_p_def bind_p_def modify_def)
  qed
  have opened: "post (\<lambda>_. recoverable) (\<lambda>_. disk_ok)
      (seq_p (seq_p (lock E) (open_engine E)) (seq_p (listen E) (seq_p (modify attach) run)) e1)"
    if d: "disk_ok e1" and m: "mutations (snd (seq_p (seq_p (lock E) (open_engine E))
        (seq_p (listen E) (seq_p (modify attach) run)) e1)) < 2 ^ 64" for e1
    by (rule guarded_seq [OF locked_open [OF d ok(2)] m]) (rule listening, simp_all)
  have prepared: "post (\<lambda>_. disk_ok) (\<lambda>_. disk_ok) (prepare E e)"
    by (rule post_mono [OF prepare_spec]) (use assms(1) in auto)
  show ?thesis
    unfolding serve by (rule guarded_seq [OF prepared assms(3) [unfolded serve] opened])
qed

text \<open>
  C4: a manager started on a sound disk never panics, however its loop is scheduled: when it
  ends, stopped or failed, the store holds a well-formed state (fewer than 2 ^ 64 requests arrive).
\<close>

theorem serve_safe:
  assumes "disk_ok e" "life_ok E" "mutations (snd (serve E ws e)) < 2 ^ 64"
  shows "case serve E ws e of
      (Ok _, e') \<Rightarrow> recoverable e' | (Err _, e') \<Rightarrow> disk_ok e' | (Panic _, _) \<Rightarrow> False"
  using serve_outcome [OF assms] by (cases "serve E ws e" rule: outcome_cases) auto

theorem serve_safe_witness:
  "\<exists>e'. serve quiet_env [Arrived (Status None), Signalled] (engine_of fresh_state ()) = (Ok (), e')
     \<and> recoverable e'"
proof -
  let ?ws = "[Arrived (Status None), Signalled]"
  have m: "mutations (snd (serve quiet_env ?ws (engine_of fresh_state ()))) = 0"
    and r: "fst (serve quiet_env ?ws (engine_of fresh_state ())) = Ok ()"
    by (simp_all add: life_evals prog_evals state_evals status_response_def pool_status_def map_evals)
  have "disk_ok (engine_of fresh_state ())" by (simp add: disk_ok_def fresh_wf)
  from serve_safe [OF this quiet_life, of ?ws] m r show ?thesis
    by (cases "serve quiet_env ?ws (engine_of fresh_state ())") auto
qed

lemma dispatch_outcome:
  assumes "disk_ok e" "life_ok E"
  shows "post (\<lambda>j e'. resting e' \<and> json_get j ''manager_running'' = JBool False \<and> printable j) (\<lambda>_. disk_ok)
      (dispatch_local E r e)"
proof -
  have ok: "reads_ok E" "uuids_ok E" "dates_ok E" using assms(2) by (simp_all add: life_ok_def)
  have answer: "post (\<lambda>j e'. printable j \<and> resting e') (\<lambda>_. resting) (handle E r e1)" if "resting e1" for e1
  proof -
    have "wf_state (st e1)" using that by (simp add: resting_def wf_engine_def)
    from answer_resting [OF ok(3,1) that this, of r] gives_answer [of E "st e1" r] show ?thesis
      by (cases "answer E (st e1) r e1" rule: outcome_cases) (auto simp: handle_def yields_def bind_reads)
  qed
  have mark: "post (\<lambda>v e'. resting e' \<and> json_get v ''manager_running'' = JBool False \<and> printable v) (\<lambda>_. disk_ok)
      (give (json_set ''manager_running'' (JBool False) j) e1)" if "printable j" "resting e1" for j e1
    using that by (cases j) (auto simp: post_give json_get_def printable_def)
  have "post (\<lambda>j e'. resting e' \<and> json_get j ''manager_running'' = JBool False \<and> printable j) (\<lambda>_. disk_ok)
      (bind_p (handle E r) (\<lambda>response. give (json_set ''manager_running'' (JBool False) response)) e1)"
    if "resting e1" for e1
    unfolding post_bind
    by (rule post_mono [OF answer [OF that]])
      (use mark in \<open>auto intro: resting_disk\<close>)
  then show ?thesis
    unfolding dispatch_local_def seq_assoc [symmetric] post_seq [of _ _ "seq_p _ _"]
    by (intro post_mono [OF locked_open [OF assms(1) ok(2)]]) auto
qed

text \<open>
  A command without a manager never panics; its answer says that no manager is running, and
  it leaves a well-formed state or, on failure, a sound disk.
\<close>

theorem dispatch_safe:
  assumes "disk_ok e" "life_ok E"
  shows "case dispatch_local E r e of
      (Ok j, e') \<Rightarrow> resting e' \<and> json_get j ''manager_running'' = JBool False
    | (Err _, e') \<Rightarrow> disk_ok e' | (Panic _, _) \<Rightarrow> False"
  using dispatch_outcome [OF assms, of r] by (cases "dispatch_local E r e" rule: outcome_cases) auto

theorem dispatch_safe_witness:
  "\<exists>j e'. dispatch_local quiet_env (Status None) (engine_of fresh_state ()) = (Ok j, e')
     \<and> resting e' \<and> json_get j ''manager_running'' = JBool False"
proof -
  have r: "is_Ok (fst (dispatch_local quiet_env (Status None) (engine_of fresh_state ())))"
    by (simp add: life_evals prog_evals state_evals status_response_def pool_status_def map_evals jobj_def)
  have "disk_ok (engine_of fresh_state ())" by (simp add: disk_ok_def fresh_wf)
  from dispatch_safe [OF this quiet_life, of "Status None"] r show ?thesis
    by (cases "dispatch_local quiet_env (Status None) (engine_of fresh_state ())" rule: outcome_cases) auto
qed

section \<open>Every history\<close>

text \<open>
  The states of the disk that histories lead to: an installation, edits of the file, the passing
  of time, managers that run until they are stopped or fail, and commands without a manager.
\<close>

inductive life :: "'w env \<Rightarrow> 'w engine \<Rightarrow> bool" for E where
  installed: "row e = None \<Longrightarrow> life E e"
| edited: "life E e \<Longrightarrow> life E (e\<lparr>config_file := f\<rparr>)"
| passed: "life E e \<Longrightarrow> life E (e\<lparr>world := w\<rparr>)"
| served: "life E e \<Longrightarrow> serve E ws e = (r, e') \<Longrightarrow> mutations e' < 2 ^ 64 \<Longrightarrow> life E e'"
| commanded: "life E e \<Longrightarrow> dispatch_local E r e = (x, e') \<Longrightarrow> life E e'"

lemma life_disk: "life E e \<Longrightarrow> life_ok E \<Longrightarrow> disk_ok e"
proof (induction rule: life.induct)
  case (served e ws r e')
  then show ?case using serve_outcome [of e E ws] by (cases r) (auto intro: recoverable_disk)
next
  case (commanded e r x e')
  then show ?case using dispatch_outcome [of e E r]
    by (cases x) (auto intro: resting_disk)
qed (simp_all add: disk_ok_def)

text \<open>
  C3: along every history of installation, edits of config.toml, managers and commands, the
  disk holds no state or a well-formed one, and neither a command nor a manager panics.
\<close>

theorem life_safe:
  assumes "life E e" "life_ok E"
  shows "disk_ok e
    \<and> (\<forall>r m. fst (dispatch_local E r e) \<noteq> Panic m)
    \<and> (\<forall>ws m. mutations (snd (serve E ws e)) < 2 ^ 64 \<longrightarrow> fst (serve E ws e) \<noteq> Panic m)"
proof (intro conjI allI impI)
  show d: "disk_ok e" by (rule life_disk [OF assms])
  show "fst (dispatch_local E r e) \<noteq> Panic m" for r m
    using dispatch_outcome [OF d assms(2), of r] by (cases "dispatch_local E r e" rule: outcome_cases) auto
  show "fst (serve E ws e) \<noteq> Panic m" if "mutations (snd (serve E ws e)) < 2 ^ 64" for ws m
    using serve_outcome [OF d assms(2) that] by (cases "serve E ws e" rule: outcome_cases) auto
qed

definition blank_engine :: "unit engine" where
  "blank_engine = (engine_of fresh_state ())\<lparr>row := None\<rparr>"

theorem life_safe_witness:
  "life quiet_env (snd (dispatch_local quiet_env (Status None) blank_engine))
     \<and> row (snd (dispatch_local quiet_env (Status None) blank_engine)) \<noteq> None
     \<and> disk_ok (snd (dispatch_local quiet_env (Status None) blank_engine))"
proof -
  let ?e = "snd (dispatch_local quiet_env (Status None) blank_engine)"
  have "life quiet_env blank_engine" by (rule life.installed) (simp add: blank_engine_def)
  then have l: "life quiet_env ?e" by (rule life.commanded) (rule prod.collapse [symmetric])
  have "row ?e \<noteq> None"
    by (simp add: life_evals prog_evals blank_engine_def first_state_def parse_config_def ordered_config_def
       draw_uuids_def store_save_def state_evals commit_evals bm_of_list_def
       status_response_def pool_status_def map_evals jobj_def new_state_def new_pools_def)
  with l life_safe [OF l quiet_life] show ?thesis by blast
qed

end
