(* ===== verification/Client.thy ===== *)
theory Client
  imports Lifecycle "HOL-Library.Countable"
begin

text \<open>
  The client side of the control channel: \<open>send\<close> of src/manager.rs, \<open>dispatch\<close> and
  \<open>wait_for_cleanup\<close> of src/main.rs. The client shares the disk with the manager; what it sees of a
  running manager, of time and of the terminal is a second environment over a world \<open>'c\<close>. The
  manager may act whenever the client connects, talks to it or sleeps. At the end the manager of
  Serving is put at the other end of the channel.
\<close>

section \<open>The client and its environment\<close>

text \<open>What becomes of a request line: an input or output error, no answer in time, a line.\<close>

datatype exchange = Broken string | No_Answer | Answer string

text \<open>Instants of the monotonic clock and durations are in nanoseconds.\<close>

record ('w, 'c) console =
  connects :: "'w engine \<times> 'c \<Rightarrow> bool \<times> ('w engine \<times> 'c)"
  exchanges :: "string \<Rightarrow> 'w engine \<times> 'c \<Rightarrow> exchange \<times> ('w engine \<times> 'c)"
  json_text :: "json \<Rightarrow> string"
  json_pretty :: "json \<Rightarrow> string"
  instant :: "'c \<Rightarrow> nat \<times> 'c"
  late :: "nat \<Rightarrow> 'c \<Rightarrow> bool \<times> 'c"
  interrupted_sleep :: "nat \<Rightarrow> 'w engine \<times> 'c \<Rightarrow> bool \<times> ('w engine \<times> 'c)"
  read_stdin :: "nat \<Rightarrow> 'c \<Rightarrow> (string + string) \<times> 'c"
  prompt :: "string \<Rightarrow> 'c \<Rightarrow> (string + string) \<times> 'c"
  canonicalize :: "string \<Rightarrow> 'c \<Rightarrow> (string + string) \<times> 'c"
  env_os :: "string \<Rightarrow> 'c \<Rightarrow> string option \<times> 'c"
  current_exe :: "'c \<Rightarrow> (string + string) \<times> 'c"
  succeeds :: "string \<Rightarrow> string list \<Rightarrow> 'c \<Rightarrow> bool \<times> 'c"
  user_id :: nat

text \<open>\<open>shown\<close> and \<open>noted\<close> are what standard output and standard error received.\<close>

record ('w, 'c) client =
  disk :: "'w engine"
  terminal :: 'c
  shown :: "string list"
  noted :: "string list"

type_synonym ('w, 'c, 'a) cmd_act = "(('w, 'c) client, 'a) prog"

definition on_disk :: "('w, 'a) act \<Rightarrow> ('w, 'c, 'a) cmd_act" where
  "on_disk m c = (let (r, e) = m (disk c) in (r, c\<lparr>disk := e\<rparr>))"

definition ask_c :: "('c \<Rightarrow> 'a \<times> 'c) \<Rightarrow> ('w, 'c, 'a) cmd_act" where
  "ask_c f c = (let (x, k) = f (terminal c) in (Ok x, c\<lparr>terminal := k\<rparr>))"

definition ask_both :: "('w engine \<times> 'c \<Rightarrow> 'a \<times> ('w engine \<times> 'c)) \<Rightarrow> ('w, 'c, 'a) cmd_act" where
  "ask_both f c = (let (x, (e, k)) = f (disk c, terminal c) in (Ok x, c\<lparr>disk := e, terminal := k\<rparr>))"

definition newline :: string where
  "newline = [CHR 0x0A]"

section \<open>Output\<close>

text \<open>Writing to the terminal does not fail.\<close>

definition print :: "string \<Rightarrow> ('w, 'c, unit) cmd_act" where
  "print s = modify (\<lambda>c. c\<lparr>shown := shown c @ [s]\<rparr>)"

definition println :: "string \<Rightarrow> ('w, 'c, unit) cmd_act" where
  "println s = print (s @ newline)"

definition eprintln :: "string \<Rightarrow> ('w, 'c, unit) cmd_act" where
  "eprintln s = modify (\<lambda>c. c\<lparr>noted := noted c @ [s @ newline]\<rparr>)"

section \<open>Sending a request\<close>

definition received :: "'w env \<Rightarrow> exchange \<Rightarrow> json res" where
  "received E x = (case x of
       Broken err \<Rightarrow> Err (Msg err)
     | No_Answer \<Rightarrow> Err (Msg ''manager request timed out; check status before retrying changes'')
     | Answer line \<Rightarrow> and_then (from_sum (parse_json E line)) (\<lambda>v. case read_response v of
           Some r \<Rightarrow> reply r | None \<Rightarrow> Err (Msg (shape_error E v))))"

definition send :: "('w, 'c) console \<Rightarrow> 'w env \<Rightarrow> request \<Rightarrow> ('w, 'c, json) cmd_act" where
  "send C E r =
     bind_p (ask_both (connects C)) (\<lambda>running.
     seq_p (ensure_p running ''manager is not running; run runnerctl manager or service install'')
     (bind_p (ask_both (exchanges C (json_text C (request_json r) @ newline))) (\<lambda>x.
      give (received E x))))"

definition dispatch :: "('w, 'c) console \<Rightarrow> 'w env \<Rightarrow> request \<Rightarrow> ('w, 'c, json) cmd_act" where
  "dispatch C E r =
     bind_p (ask_both (connects C)) (\<lambda>running.
     if running then send C E r else on_disk (dispatch_local E r))"

section \<open>Waiting for cleanup\<close>

definition second :: nat where
  "second = 10 ^ 9"

text \<open>\<open>Instant + Duration\<close> panics when the seconds leave 63 bits.\<close>

definition instant_add :: "nat \<Rightarrow> nat \<Rightarrow> nat res" where
  "instant_add t d =
     (if (t + d) div second < 2 ^ 63 then Ok (t + d)
      else Panic ''overflow when adding duration to instant'')"

text \<open>
  \<open>timeout_at\<close>: whether the deadline passes first is the environment's; the operation may have
  taken place nevertheless.
\<close>

definition timeout_at :: "('w, 'c) console \<Rightarrow> nat \<Rightarrow> string \<Rightarrow> ('w, 'c, 'a) cmd_act \<Rightarrow> ('w, 'c, 'a) cmd_act" where
  "timeout_at C deadline msg m =
     bind_p (attempt m) (\<lambda>r.
     bind_p (ask_c (late C deadline)) (\<lambda>passed.
     seq_p (ensure_p (\<not> passed) msg) (give r)))"

definition cleaned :: "bool \<Rightarrow> json list \<Rightarrow> string \<Rightarrow> bool" where
  "cleaned removed pools target =
     (case find (\<lambda>p. json_get p ''name'' = JStr target) pools of
        None \<Rightarrow> True
      | Some p \<Rightarrow> \<not> removed \<and> json_get p ''active'' = JNum 0)"

definition wait_round :: "('w, 'c) console \<Rightarrow> 'w env \<Rightarrow> string list \<Rightarrow> bool \<Rightarrow> nat \<Rightarrow> ('w, 'c, bool) cmd_act" where
  "wait_round C E names removed deadline =
     bind_p (timeout_at C deadline
         ''cleanup wait timed out; intent is saved and no additional jobs were cancelled''
         (dispatch C E (Status None))) (\<lambda>status.
     seq_p (ensure_p (json_get status ''manager_running'' \<noteq> JBool False)
         ''manager stopped while waiting; cleanup is still pending'')
     (bind_p (give (or_error (as_array (json_get status ''pools'')) ''missing pools'')) (\<lambda>pools.
      if list_all (cleaned removed pools) names then ret True
      else
        bind_p (ask_c (instant C)) (\<lambda>t.
        seq_p (ensure_p (t < deadline) ''cleanup wait timed out; intent is saved and timeout does not force-cancel jobs; idle runners may need one final job'')
        (bind_p (ask_c (instant C)) (\<lambda>t'.
         bind_p (give (instant_add t' second)) (\<lambda>soon.
         bind_p (ask_both (interrupted_sleep C (min deadline soon))) (\<lambda>interrupted.
         seq_p (ensure_p (\<not> interrupted) ''wait interrupted; cleanup remains pending; stopping the wait does not cancel jobs'')
           (ret False)))))))))"

text \<open>The loop, for so many rounds; the result says whether it came to its end.\<close>

fun wait_loop :: "nat \<Rightarrow> ('w, 'c) console \<Rightarrow> 'w env \<Rightarrow> string list \<Rightarrow> bool \<Rightarrow> nat \<Rightarrow> ('w, 'c, bool) cmd_act" where
  "wait_loop 0 C E names removed deadline = ret False"
| "wait_loop (Suc n) C E names removed deadline =
     bind_p (wait_round C E names removed deadline) (\<lambda>done.
     if done then ret True else wait_loop n C E names removed deadline)"

definition wait_for_cleanup :: "nat \<Rightarrow> ('w, 'c) console \<Rightarrow> 'w env \<Rightarrow> string list \<Rightarrow> bool \<Rightarrow> nat \<Rightarrow> ('w, 'c, bool) cmd_act" where
  "wait_for_cleanup n C E names removed timeout =
     bind_p (ask_c (instant C)) (\<lambda>t.
     bind_p (give (instant_add t timeout)) (\<lambda>deadline.
     wait_loop n C E names removed deadline))"

lemma ask_c_returns [returns]:
  "ask_c f c = (Ok x, c') \<longleftrightarrow> x = fst (f (terminal c)) \<and> c' = c\<lparr>terminal := snd (f (terminal c))\<rparr>"
  by (auto simp: ask_c_def case_prod_beta)

lemma ask_both_returns [returns]:
  "ask_both f c = (Ok x, c') \<longleftrightarrow> x = fst (f (disk c, terminal c))
     \<and> c' = c\<lparr>disk := fst (snd (f (disk c, terminal c))), terminal := snd (snd (f (disk c, terminal c)))\<rparr>"
  by (auto simp: ask_both_def case_prod_beta Let_def)

lemma on_disk_returns [returns]:
  "on_disk m c = (r, c') \<longleftrightarrow> (\<exists>e. m (disk c) = (r, e) \<and> c' = c\<lparr>disk := e\<rparr>)"
  by (cases "m (disk c)") (auto simp: on_disk_def)

lemma timeout_returns [returns]:
  "timeout_at C d msg m c = (Ok x, c') \<longleftrightarrow> (\<exists>c1. m c = (Ok x, c1) \<and> \<not> fst (late C d (terminal c1))
     \<and> c' = c1\<lparr>terminal := snd (late C d (terminal c1))\<rparr>)"
  by (cases "m c" rule: outcome_cases) (auto simp: timeout_at_def attempt_def returns)

section \<open>The wait ends\<close>

definition ticking :: "('w, 'c) console \<Rightarrow> ('c \<Rightarrow> nat) \<Rightarrow> bool" where
  "ticking C T \<longleftrightarrow>
     (\<forall>k. T k \<le> fst (instant C k) \<and> T (snd (instant C k)) = fst (instant C k))
   \<and> (\<forall>e k. T k \<le> T (snd (snd (connects C (e, k)))))
   \<and> (\<forall>line e k. T k \<le> T (snd (snd (exchanges C line (e, k)))))
   \<and> (\<forall>d k. T k \<le> T (snd (late C d k)))
   \<and> (\<forall>d e k. T k \<le> T (snd (snd (interrupted_sleep C d (e, k)))))
   \<and> (\<forall>d e k. \<not> fst (interrupted_sleep C d (e, k)) \<longrightarrow> d \<le> T (snd (snd (interrupted_sleep C d (e, k)))))"

lemma keeps_ask_c:
  fixes T :: "'c \<Rightarrow> nat"
  shows "(\<And>k. T k \<le> T (snd (f k))) \<Longrightarrow> keeps (\<lambda>c. n \<le> T (terminal c)) W (ask_c f)"
  by (rule keeps_post) (auto simp: ask_c_def case_prod_beta intro: le_trans)

lemma keeps_ask_both:
  fixes T :: "'c \<Rightarrow> nat"
  shows "(\<And>e k. T k \<le> T (snd (snd (f (e, k))))) \<Longrightarrow> keeps (\<lambda>c. n \<le> T (terminal c)) W (ask_both f)"
  by (rule keeps_post) (auto simp: ask_both_def case_prod_beta Let_def intro: le_trans)

lemma keeps_on_disk: "keeps (\<lambda>c. n \<le> T (terminal c)) (\<lambda>c. n \<le> T (terminal c)) (on_disk m)"
  by (auto simp: keeps_def on_disk_def Let_def split: prod.splits res.splits)

lemma received_no_panic [simp]: "received E x \<noteq> Panic p"
  by (auto simp: received_def reply_def ensure_def from_sum_def split: exchange.split option.split sum.split)

lemma dispatch_ticks:
  "ticking C T \<Longrightarrow> keeps (\<lambda>c. n \<le> T (terminal c)) (\<lambda>c. n \<le> T (terminal c)) (dispatch C E r)"
  unfolding dispatch_def send_def
  by (intro keeps_intros keeps_on_disk keeps_ask_both keeps_give) (auto simp: ticking_def)

lemma round_ticks:
  assumes "ticking C T" "wait_round C E names removed deadline c = (Ok False, c')"
  shows "T (terminal c) < deadline \<and> min deadline (T (terminal c) + second) \<le> T (terminal c')"
proof -
  let ?k2 = "\<lambda>c1. snd (late C deadline (terminal c1))"
  let ?k3 = "\<lambda>c1. snd (instant C (?k2 c1))"
  let ?sleep = "\<lambda>c1. interrupted_sleep C (min deadline (fst (instant C (?k3 c1)) + second)) (disk c1, snd (instant C (?k3 c1)))"
  obtain r c1 where d: "dispatch C E (Status None) c = (Ok r, c1)" "fst (instant C (?k2 c1)) < deadline"
    "\<not> fst (?sleep c1)" "T (terminal c') = T (snd (snd (?sleep c1)))"
    using assms(2) by (auto simp: wait_round_def returns instant_add_def split: if_splits)
  have "T (terminal c) \<le> T (terminal c1)"
    using keepsD [OF dispatch_ticks [OF assms(1), of "T (terminal c)" E "Status None"], of c] d(1) by simp
  moreover have "T (terminal c1) \<le> fst (instant C (?k2 c1))" "fst (instant C (?k2 c1)) \<le> fst (instant C (?k3 c1))"
    "min deadline (fst (instant C (?k3 c1)) + second) \<le> T (snd (snd (?sleep c1)))"
    using assms(1) d(3) by (auto simp: ticking_def intro: le_trans) (metis le_trans)+
  ultimately show ?thesis using d(2,4) by auto
qed

lemma loop_ticks:
  assumes "ticking C T" "wait_loop n C E names removed deadline c = (Ok False, c')"
  shows "n = 0 \<or> T (terminal c) + (n - 1) * second < deadline"
  using assms(2)
proof (induction n arbitrary: c)
  case (Suc n)
  then obtain c1 where "wait_round C E names removed deadline c = (Ok False, c1)"
    "wait_loop n C E names removed deadline c1 = (Ok False, c')"
    by (auto simp: returns split: if_splits)
  with round_ticks [OF assms(1), of E names removed deadline c c1] Suc.IH [of c1] show ?case
    by (cases n) auto
qed simp

text \<open>
  A timeout that reaches beyond the clock: the wait panics, after the request that it follows was
  saved. The command line accepts every duration.
\<close>

lemma wait_overflows:
  assumes "2 ^ 63 \<le> (fst (instant C (terminal c)) + timeout) div second"
  shows "fst (wait_for_cleanup n C E names removed timeout c)
    = Panic ''overflow when adding duration to instant''"
  using assms by (simp add: wait_for_cleanup_def instant_add_def bind_p_def ask_c_def give_def case_prod_beta)

text \<open>
  C24: the wait for cleanup comes to an end: when time goes on and sleeping lasts until the given
  instant, as many rounds as the timeout has seconds and two more are enough.
\<close>

theorem wait_ends:
  assumes "ticking C T" "timeout div second + 2 \<le> n"
  shows "fst (wait_for_cleanup n C E names removed timeout c) \<noteq> Ok False"
proof
  assume "fst (wait_for_cleanup n C E names removed timeout c) = Ok False"
  then obtain c' where "wait_for_cleanup n C E names removed timeout c = (Ok False, c')"
    by (cases "wait_for_cleanup n C E names removed timeout c") auto
  then obtain c1 where l: "wait_loop n C E names removed (fst (instant C (terminal c)) + timeout) c1 = (Ok False, c')"
    "terminal c1 = snd (instant C (terminal c))"
    by (auto simp: wait_for_cleanup_def returns instant_add_def split: if_splits)
  have "T (terminal c1) = fst (instant C (terminal c))" using assms(1) l(2) by (simp add: ticking_def)
  with loop_ticks [OF assms(1) l(1)] assms(2) have "(n - 1) * second < timeout" by auto
  moreover have "timeout < (timeout div second + 1) * second"
    using div_mod_decomp [of timeout second] by (simp add: second_def mult.commute dividend_less_times_div)
  moreover have "(timeout div second + 1) * second \<le> (n - 1) * second"
    using assms(2) by (intro mult_le_mono1) simp
  ultimately show False by simp
qed

section \<open>A manager at the other end\<close>

text \<open>A request line of the client, answered by the manager of Serving on the same disk.\<close>

definition served_by :: "'w env \<Rightarrow> (json \<Rightarrow> string) \<Rightarrow> string \<Rightarrow> 'w engine \<times> 'c \<Rightarrow> exchange \<times> ('w engine \<times> 'c)" where
  "served_by E text line ek =
     (let (r, e) = serve_connection E (Received line) (fst ek) in
      (case r of Ok resp \<Rightarrow> Answer (text (response_json resp) @ newline) | _ \<Rightarrow> Answer [], (e, snd ek)))"

text \<open>
  What the two sides rely on for a request and its answer: JSON text of one line is read as it
  was written.
\<close>

definition readable :: "'w env \<Rightarrow> (json \<Rightarrow> string) \<Rightarrow> json \<Rightarrow> bool" where
  "readable E text v \<longleftrightarrow> CHR 0x0A \<notin> set (text v) \<and> valid_utf8 (text v @ newline)
     \<and> parse_json E (text v @ newline) = Inr v"

definition served :: "('w, 'c) console \<Rightarrow> 'w env \<Rightarrow> request \<Rightarrow> bool" where
  "served C E r \<longleftrightarrow>
     (\<forall>ek. fst (connects C ek)) \<and> exchanges C = served_by E (json_text C)
   \<and> readable E (json_text C) (request_json r) \<and> length (json_text C (request_json r)) < 2 ^ 20
   \<and> (\<forall>p. r = Add p \<longrightarrow> plain_cpus p) \<and> (\<exists>m. parse_json E [] = Inl m)
   \<and> (\<forall>e. case fst (answer E (snapshot e) r e) of
        Panic _ \<Rightarrow> True
      | result \<Rightarrow> readable E (json_text C) (response_json (response_of result)))"

definition told :: "json res \<Rightarrow> json res" where
  "told r = (case r of Ok v \<Rightarrow> Ok v | Err er \<Rightarrow> Err (Msg (error_text er)) | Panic p \<Rightarrow> Panic p)"

lemma received_response:
  assumes "readable E text (response_json (response_of (Ok v)))"
  shows "received E (Answer (text (response_json (response_of (Ok v))) @ newline)) = Ok v"
  using assms
  by (simp add: received_def readable_def from_sum_def read_response_def response_json_def response_of_def
      reads_evals two_def reply_def ensure_def)

lemma received_error:
  assumes "readable E text (response_json (response_of (Err er)))"
  shows "received E (Answer (text (response_json (response_of (Err er))) @ newline)) = Err (Msg (error_text er))"
  using assms
  by (simp add: received_def readable_def from_sum_def read_response_def response_json_def response_of_def
      reads_evals two_def reply_def ensure_def json_get_def)

lemma served_request:
  "served C E r \<Longrightarrow> read_request E (Received (json_text C (request_json r) @ newline)) = Ok r"
  unfolding served_def readable_def newline_def
  by (rule received_line [where rest = "[]"]) auto


lemma served_connection:
  assumes "served C E r" "answer E (snapshot e) r e = (res, e')" "\<And>p. res \<noteq> Panic p"
  shows "served_by E (json_text C) (json_text C (request_json r) @ newline) (e, k)
     = (Answer (json_text C (response_json (response_of res)) @ newline), (e', k))"
proof (cases res)
  case (Panic p)
  with assms(3) show ?thesis by blast
qed (use served_request [OF assms(1)] assms(2) in
  \<open>simp_all add: served_by_def serve_connection_def attempt_def bind_p_def give_def reads_def ret_def\<close>)

lemma served_panic:
  assumes "served C E r" "answer E (snapshot e) r e = (Panic p, e')"
  shows "served_by E (json_text C) (json_text C (request_json r) @ newline) (e, k) = (Answer [], (e', k))"
  using served_request [OF assms(1)] assms(2)
  by (simp add: served_by_def serve_connection_def attempt_def bind_p_def give_def reads_def ret_def)

lemma received_told:
  assumes "served C E r" "answer E (snapshot e) r e = (res, e')" "\<And>p. res \<noteq> Panic p"
  shows "received E (Answer (json_text C (response_json (response_of res)) @ newline)) = told res"
proof -
  have "readable E (json_text C) (response_json (response_of res))"
    using assms unfolding served_def by (cases res) (metis (no_types, lifting) fst_conv res.simps)+
  then show ?thesis
    using assms(3) by (cases res) (auto simp: received_response received_error told_def)
qed

lemma dispatched:
  assumes "served C E r" "connects C (disk c, terminal c) = (True, ek)" "connects C ek = (True, (e, k))"
    "answer E (snapshot e) r e = (res, e')" "\<And>p. res \<noteq> Panic p"
  shows "dispatch C E r c = (told res, c\<lparr>disk := e', terminal := k\<rparr>)"
proof -
  have "exchanges C = served_by E (json_text C)" using assms(1) by (simp add: served_def)
  then show ?thesis
    using assms(2,3) served_connection [OF assms(1,4,5), of k] received_told [OF assms(1,4,5)]
    by (cases ek)
      (simp add: dispatch_def send_def ask_both_def bind_p_def seq_p_def ensure_p_def ensure_def give_def Let_def)
qed


lemma dispatch_returns:
  assumes "served C E r" "dispatch C E r c = (Ok v, c')"
  shows "\<exists>e. answer E (snapshot e) r e = (Ok v, disk c')"
proof -
  obtain ek where c1: "connects C (disk c, terminal c) = (True, ek)"
    using assms(1) unfolding served_def by (metis prod.collapse)
  obtain e k where c2: "connects C ek = (True, (e, k))"
    using assms(1) unfolding served_def by (metis prod.collapse)
  obtain res e' where a: "answer E (snapshot e) r e = (res, e')" by fastforce
  show ?thesis
  proof (cases "\<exists>p. res = Panic p")
    case True
    then obtain p where "res = Panic p" by blast
    with a have "served_by E (json_text C) (json_text C (request_json r) @ newline) (e, k) = (Answer [], (e', k))"
      by (simp add: served_panic [OF assms(1)])
    with assms c1 c2 show ?thesis
      by (cases ek) (auto simp: served_def dispatch_def send_def returns received_def from_sum_def)
  next
    case False
    with dispatched [OF assms(1) c1 c2 a] assms(2) a show ?thesis
      by (cases res) (auto simp: told_def)
  qed
qed

lemma status_returns:
  assumes "answer E s (Status p) e = (Ok v, e')"
  shows "status_response (st e') p = Ok v"
  using assms handle_local_returns [of E "Status p" e v e']
  by (auto simp: answer_def handle_inner_def handle_request_def handle_status_def returns)

text \<open>What a client reads off the status of a state.\<close>

lemma find_in_status:
  assumes "map_res (pool_status s) ps = Ok js" "find (\<lambda>j. json_get j ''name'' = JStr t) js = x"
  shows "case find (\<lambda>p. pl_name p = t) ps of
      None \<Rightarrow> x = None
    | Some p \<Rightarrow> \<exists>j. x = Some j \<and> pool_status s p = Ok j"
  using assms
proof (induction ps arbitrary: js)
  case (Cons p ps)
  then obtain j js' where j: "pool_status s p = Ok j" "map_res (pool_status s) ps = Ok js'" "js = j # js'"
    by auto
  then have "json_get j ''name'' = JStr (pl_name p)"
    by (auto simp: pool_status_def Let_def json_get_def json_find_jobj)
  with j Cons.IH [OF j(2)] Cons.prems(2) show ?case by auto
qed simp

definition gone :: "bool \<Rightarrow> state \<Rightarrow> string \<Rightarrow> bool" where
  "gone removed s t \<longleftrightarrow> (case find_pool t (s_config s) of
      None \<Rightarrow> True
    | Some p \<Rightarrow> \<not> removed \<and> (\<exists>ps. bm_get (s_pools s) t = Some ps \<and> pool_runs (ps_id ps) s = []))"

lemma cleaned_gone:
  assumes "status_response s None = Ok j" "as_array (json_get j ''pools'') = Some pools"
    "cleaned removed pools t"
  shows "gone removed s t"
proof -
  have m: "map_res (pool_status s) (cfg_pools (s_config s)) = Ok pools"
    using assms(1,2) by (auto simp: status_response_def json_get_def json_find_jobj)
  show ?thesis
  proof (cases "find_pool t (s_config s)")
    case None
    then show ?thesis by (simp add: gone_def)
  next
    case (Some p)
    then obtain j' where j': "find (\<lambda>j. json_get j ''name'' = JStr t) pools = Some j'" "pool_status s p = Ok j'"
      using find_in_status [OF m refl, of t] by (auto simp: find_pool_def)
    have "pl_name p = t" using Some by (auto simp: find_pool_def find_Some_iff)
    moreover obtain ps where "bm_get (s_pools s) (pl_name p) = Some ps"
      "json_get j' ''active'' = JNum (int (length (pool_runs (ps_id ps) s)))"
      using j'(2) by (auto simp: pool_status_def Let_def json_get_def json_find_jobj jnat_def)
    ultimately show ?thesis
      using assms(3) j'(1) Some by (auto simp: gone_def cleaned_def)
  qed
qed

text \<open>
  C8: when a wait for the cleanup of pools returns, the state of the manager that answered last
  has no run of any of them, and none of the pools itself if they were to be removed.
\<close>

theorem cleanup_complete:
  assumes "served C E (Status None)" "wait_for_cleanup n C E names removed timeout c = (Ok True, c')"
    "t \<in> set names"
  shows "gone removed (st (disk c')) t"
proof -
  have round: "gone removed (st (disk c2)) t"
    if r: "wait_round C E names removed d c1 = (Ok True, c2)" for d c1 c2
  proof -
    obtain v c3 pools where "dispatch C E (Status None) c1 = (Ok v, c3)" "disk c2 = disk c3"
      "as_array (json_get v ''pools'') = Some pools" "list_all (cleaned removed pools) names"
      using r by (auto simp: wait_round_def returns instant_add_def split: if_splits)
    then show ?thesis
      using dispatch_returns [OF assms(1)] status_returns cleaned_gone assms(3)
      by (metis list_all_iff)
  qed
  have "wait_loop n C E names removed d c1 = (Ok True, c') \<Longrightarrow> gone removed (st (disk c')) t" for d c1
  proof (induction n arbitrary: c1)
    case (Suc n)
    then show ?case using round by (auto simp: returns split: if_splits)
  qed (simp add: returns)
  then show ?thesis
    using assms(2) by (auto simp: wait_for_cleanup_def returns)
qed

section \<open>A client and an idle manager\<close>

lemma ascii_valid: "list_all (\<lambda>c. byte c < 128) s \<Longrightarrow> valid_utf8 s"
proof (induction s)
  case (Cons c s)
  then show ?case
    using valid_utf8_cons [of "c # s" 1 s] by (simp add: utf8_width_def)
qed (simp add: valid_utf8_def from_utf8_at.simps)

instance f64 :: countable by countable_datatype

instance json :: countable by countable_datatype

definition wire_text :: "json \<Rightarrow> string" where
  "wire_text v = (if v = request_json (Status None) then ''q'' else ''r'' @ replicate (to_nat v) (CHR ''x''))"

definition wire_env :: "unit env" where
  "wire_env = quiet_env\<lparr>parse_json := (\<lambda>s. case s of
       [] \<Rightarrow> Inl ''EOF while parsing a value''
     | c # _ \<Rightarrow> Inr (if c = CHR ''q'' then request_json (Status None) else from_nat (length s - 2)))\<rparr>"

definition idle_console :: "(unit, nat) console" where
  "idle_console =
     \<lparr>connects = Pair True, exchanges = served_by wire_env wire_text, json_text = wire_text,
      json_pretty = wire_text, instant = (\<lambda>k. (k, k)), late = (\<lambda>_. Pair False),
      interrupted_sleep = (\<lambda>d (e, k). (False, (e, max d k))), read_stdin = (\<lambda>_. Pair (Inr [])),
      prompt = (\<lambda>_. Pair (Inr [])), canonicalize = (\<lambda>p. Pair (Inr p)), env_os = (\<lambda>_. Pair None),
      current_exe = Pair (Inr ''/usr/bin/runnerctl''), succeeds = (\<lambda>_ _. Pair True), user_id = 1000\<rparr>"

definition idle_client :: "state \<Rightarrow> (unit, nat) client" where
  "idle_client s = \<lparr>disk = engine_of s (), terminal = 0, shown = [], noted = []\<rparr>"

lemma wire_readable: "readable wire_env wire_text v"
  by (auto simp: readable_def wire_text_def wire_env_def newline_def intro!: ascii_valid)
    (simp_all add: byte_def list_all_iff)

lemma idle_served: "served idle_console wire_env (Status None)"
  by (auto simp: served_def wire_readable idle_console_def wire_text_def split: res.split)
    (simp_all add: wire_env_def)

lemma idle_ticking: "ticking idle_console (\<lambda>k. k)"
  by (auto simp: ticking_def idle_console_def served_by_def Let_def case_prod_beta)

theorem wait_ends_witness:
  "fst (wait_for_cleanup 4 idle_console wire_env [''web''] False (2 * second) (idle_client sample_state)) \<noteq> Ok False"
  by (rule wait_ends [OF idle_ticking]) (simp add: second_def)

lemmas client_evals = wait_for_cleanup_def wait_round_def timeout_at_def dispatch_def send_def ask_both_def
  ask_c_def idle_client_def instant_add_def second_def received_def

lemma wire_sel [simp]: "parse_json wire_env (wire_text v @ newline) = Inr v"
  "read_request wire_env (Received (wire_text (request_json (Status None)) @ newline)) = Ok (Status None)"
  using wire_readable [of v] served_request [OF idle_served]
  by (simp_all add: readable_def idle_console_def del: request_json.simps)

lemma idle_waits:
  "wait_for_cleanup 1 idle_console wire_env [''web''] False 0 (idle_client fresh_state) = (Ok True, idle_client fresh_state)"
proof -
  let ?c = "idle_client fresh_state"
  have "\<exists>v j. answer wire_env (snapshot (disk ?c)) (Status None) (disk ?c) = (Ok v, disk ?c)
     \<and> json_get v ''manager_running'' = JNull \<and> as_array (json_get v ''pools'') = Some [j]
     \<and> json_get j ''name'' = JStr ''web'' \<and> json_get j ''active'' = JNum 0"
    by (simp add: answer_def handle_local_def handle_inner_def handle_request_def handle_status_def prog_evals
       state_evals status_response_def pool_status_def map_evals idle_client_def json_get_def json_find_jobj jnat_def)
  then obtain v j where v: "answer wire_env (snapshot (disk ?c)) (Status None) (disk ?c) = (Ok v, disk ?c)"
    "json_get v ''manager_running'' = JNull" "as_array (json_get v ''pools'') = Some [j]"
    "json_get j ''name'' = JStr ''web''" "json_get j ''active'' = JNum 0"
    by blast
  have "served_by wire_env wire_text (wire_text (request_json (Status None)) @ newline) (disk ?c, terminal ?c)
      = (Answer (wire_text (response_json (response_of (Ok v))) @ newline), (disk ?c, terminal ?c))"
    using served_connection [OF idle_served v(1), of "terminal ?c"] by (simp add: idle_console_def)
  moreover have "received wire_env (Answer (wire_text (response_json (response_of (Ok v))) @ newline)) = Ok v"
    using received_told [OF idle_served v(1)] by (simp add: idle_console_def told_def)
  ultimately have "dispatch idle_console wire_env (Status None) ?c = (Ok v, ?c)"
    by (simp add: dispatch_def send_def prog_evals ask_both_def idle_console_def del: request_json.simps)
  then show ?thesis
    using v by (simp add: wait_for_cleanup_def wait_round_def timeout_at_def prog_evals ask_c_def cleaned_def
       idle_client_def idle_console_def instant_add_def One_nat_def)
qed

theorem cleanup_complete_witness: "gone False (st (disk (idle_client fresh_state))) ''web''"
  by (rule cleanup_complete [OF idle_served idle_waits]) simp


end
