(* ===== verification/Service.thy ===== *)
theory Service
  imports Client
begin

text \<open>
  Registration with the service manager of each system (src/service.rs): the quoting of paths, the
  definition files of systemd and launchd and their installation, and the arguments of the task of
  Windows. How the three systems read what is written for them is their documentation's:
  systemd.service(5), XML, and the argument rules of the Microsoft C runtime.
\<close>

section \<open>Text\<close>

text \<open>\<open>str::replace\<close> of one character.\<close>

definition replace_char :: "char \<Rightarrow> string \<Rightarrow> string \<Rightarrow> string" where
  "replace_char c r s = concat (map (\<lambda>x. if x = c then r else [x]) s)"

definition unlines :: "string list \<Rightarrow> string" where
  "unlines ls = concat (map (\<lambda>l. l @ newline) ls)"

definition quotation :: string where
  "quotation = [CHR 0x22]"

section \<open>systemd\<close>

definition systemd_quote :: "string \<Rightarrow> string res" where
  "systemd_quote v =
     and_then (ensure (CHR 0x0A \<notin> set v \<and> CHR 0x0D \<notin> set v \<and> CHR 0x00 \<notin> set v) ''invalid systemd path'') (\<lambda>_.
     Ok (quotation @ replace_char (CHR ''$'') ''$$'' (replace_char (CHR ''%'') ''%%''
       (replace_char (CHR 0x22) [CHR 0x5C, CHR 0x22] (replace_char (CHR 0x5C) [CHR 0x5C, CHR 0x5C] v))) @ quotation))"

definition exec_start :: "string \<Rightarrow> string \<Rightarrow> string" where
  "exec_start exe h = exe @ '' --home '' @ h @ '' manager''"

definition systemd_unit :: "string \<Rightarrow> string \<Rightarrow> string" where
  "systemd_unit exe h = unlines
     [''[Unit]'', ''Description=GitHub Actions runner pool manager'', ''After=network-online.target'',
      ''Wants=network-online.target'', [], ''[Service]'', ''Type=simple'', ''ExecStart='' @ exec_start exe h,
      ''Restart=on-failure'', ''RestartSec=10'', ''UMask=0077'', ''TimeoutStopSec=300'', [], ''[Install]'',
      ''WantedBy=default.target'']"

definition wsl :: "('w, 'c) console \<Rightarrow> 'w env \<Rightarrow> ('w, 'c, bool) cmd_act" where
  "wsl C E =
     bind_p (ask_c (env_os C ''WSL_DISTRO_NAME'')) (\<lambda>d.
     if d \<noteq> None then ret True else on_disk (ask (fs_exists E ''/proc/sys/fs/binfmt_misc/WSLInterop'')))"

definition systemctl :: "('w, 'c) console \<Rightarrow> 'w env \<Rightarrow> string list \<Rightarrow> ('w, 'c, unit) cmd_act" where
  "systemctl C E args =
     bind_p (wsl C E) (\<lambda>w.
     bind_p (ask_c (succeeds C ''systemctl'' args)) (\<lambda>ok.
     ensure_p ok (''systemctl failed; inspect the user service''
       @ (if w then ''; on WSL, set [boot] systemd=true in /etc/wsl.conf and run wsl.exe --shutdown'' else []))))"

definition config_root :: "('w, 'c) console \<Rightarrow> ('w, 'c, string) cmd_act" where
  "config_root C =
     bind_p (ask_c (env_os C ''XDG_CONFIG_HOME'')) (\<lambda>xdg. case xdg of
        Some base \<Rightarrow> ret base
      | None \<Rightarrow> bind_p (ask_c (env_os C ''HOME'')) (\<lambda>h.
          ret (join (case h of Some d \<Rightarrow> d | None \<Rightarrow> []) ''.config'')))"

definition systemd_install :: "('w, 'c) console \<Rightarrow> 'w env \<Rightarrow> ('w, 'c, unit) cmd_act" where
  "systemd_install C E =
     bind_p (config_root C) (\<lambda>base.
     let dir = join base ''systemd/user'' in
     seq_p (on_disk (perform (fs_create_dir_all E dir)))
     (bind_p (ask_c (current_exe C)) (\<lambda>x.
      bind_p (give (from_sum x)) (\<lambda>exe.
      bind_p (give (systemd_quote (utf8_lossy exe))) (\<lambda>e.
      bind_p (give (systemd_quote (utf8_lossy (home E)))) (\<lambda>h.
      seq_p (on_disk (perform (write_file E (join dir ''runnerctl.service'') (systemd_unit e h))))
      (seq_p (systemctl C E [''--user'', ''daemon-reload''])
      (seq_p (systemctl C E [''--user'', ''enable'', ''--now'', ''runnerctl.service''])
      (println ''Installed runnerctl.service. For operation after logout: sudo loginctl enable-linger $USER'')))))))))"

definition systemd_uninstall :: "('w, 'c) console \<Rightarrow> 'w env \<Rightarrow> ('w, 'c, unit) cmd_act" where
  "systemd_uninstall C E =
     seq_p (systemctl C E [''--user'', ''disable'', ''--now'', ''runnerctl.service''])
     (println ''Service disabled. Existing runner containers remain; use stop before uninstall to drain pools.'')"

section \<open>launchd\<close>

text \<open>\<open>char::is_control\<close>: the characters up to U+001F and from U+007F to U+009F.\<close>

fun has_control :: "string \<Rightarrow> bool" where
  "has_control [] = False"
| "has_control (c # s) \<longleftrightarrow> byte c < 32 \<or> byte c = 127
     \<or> (byte c = 194 \<and> (case s of [] \<Rightarrow> False | d # _ \<Rightarrow> 128 \<le> byte d \<and> byte d < 160)) \<or> has_control s"

definition xml_escape :: "string \<Rightarrow> string" where
  "xml_escape v = replace_char (CHR ''>'') ''&gt;'' (replace_char (CHR ''<'') ''&lt;'' (replace_char (CHR ''&'') ''&amp;'' v))"

definition launchd_escape :: "string \<Rightarrow> string res" where
  "launchd_escape v = and_then (ensure (\<not> has_control v) ''invalid launchd value'') (\<lambda>_. Ok (xml_escape v))"

definition LABEL :: string where
  "LABEL = ''io.runnerctl.manager''"

definition tabs :: "nat \<Rightarrow> string \<Rightarrow> string" where
  "tabs n s = replicate n (CHR 0x09) @ s"

definition environment_entry :: "string \<Rightarrow> string \<Rightarrow> string" where
  "environment_entry name v = unlines [tabs 2 (''<key>'' @ name @ ''</key>''), tabs 2 (''<string>'' @ v @ ''</string>'')]"

definition plist :: "string \<Rightarrow> string \<Rightarrow> string \<Rightarrow> string \<Rightarrow> string" where
  \<open>plist exe h logs variables =
     unlines
       [''<?xml version="1.0" encoding="UTF-8"?>'',
        ''<!DOCTYPE plist PUBLIC "-//Apple//DTD PLIST 1.0//EN" "http://www.apple.com/DTDs/PropertyList-1.0.dtd">'',
        ''<plist version="1.0">'', ''<dict>'', tabs 1 ''<key>Label</key>'', tabs 1 (''<string>'' @ LABEL @ ''</string>''),
        tabs 1 ''<key>ProgramArguments</key>'', tabs 1 ''<array>'', tabs 2 (''<string>'' @ exe @ ''</string>''),
        tabs 2 ''<string>--home</string>'', tabs 2 (''<string>'' @ h @ ''</string>''),
        tabs 2 ''<string>manager</string>'', tabs 1 ''</array>'', tabs 1 ''<key>EnvironmentVariables</key>'',
        tabs 1 ''<dict>'']
     @ variables
     @ unlines
       [tabs 1 ''</dict>'', tabs 1 ''<key>RunAtLoad</key>'', tabs 1 ''<true/>'', tabs 1 ''<key>KeepAlive</key>'',
        tabs 1 ''<dict>'', tabs 2 ''<key>SuccessfulExit</key>'', tabs 2 ''<false/>'', tabs 1 ''</dict>'',
        tabs 1 ''<key>ThrottleInterval</key>'', tabs 1 ''<integer>10</integer>'', tabs 1 ''<key>Umask</key>'',
        tabs 1 ''<integer>63</integer>'', tabs 1 ''<key>ExitTimeOut</key>'', tabs 1 ''<integer>300</integer>'',
        tabs 1 ''<key>StandardOutPath</key>'', tabs 1 (''<string>'' @ logs @ ''</string>''),
        tabs 1 ''<key>StandardErrorPath</key>'', tabs 1 (''<string>'' @ logs @ ''</string>''), ''</dict>'', ''</plist>'']\<close>

text \<open>\<open>Path::starts_with\<close>: a prefix of the components.\<close>

definition components :: "string \<Rightarrow> string list" where
  "components p =
     (if is_absolute p then [''/''] else if hd (split_at (CHR ''/'') p) = ''.'' then [''.''] else [])
     @ filter (\<lambda>c. c \<noteq> [] \<and> c \<noteq> ''.'') (split_at (CHR ''/'') p)"

definition path_starts_with :: "string \<Rightarrow> string \<Rightarrow> bool" where
  "path_starts_with base p \<longleftrightarrow> prefix (components base) (components p)"

definition protected_folders :: "string list" where
  "protected_folders = [''Desktop'', ''Documents'', ''Downloads'', ''Library/Mobile Documents'']"

definition accessible :: "string \<Rightarrow> string \<Rightarrow> unit res" where
  "accessible user_home p =
     ensure (\<not> list_ex (\<lambda>folder. path_starts_with (join user_home folder) p) protected_folders)
       (''LaunchAgents cannot access '' @ utf8_lossy p
        @ ''; install the binary and --home outside Desktop, Documents, Downloads and iCloud Drive'')"

definition agent_environment :: "('w, 'c) console \<Rightarrow> ('w, 'c, string) cmd_act" where
  "agent_environment C = fold_p (\<lambda>acc name.
     bind_p (ask_c (env_os C name)) (\<lambda>v. case v of
        None \<Rightarrow> ret acc
      | Some x \<Rightarrow> bind_p (give (launchd_escape (utf8_lossy x))) (\<lambda>y. ret (acc @ environment_entry name y))))
     [] [''PATH'', ''DOCKER_HOST'', ''DOCKER_CONTEXT'', ''DOCKER_CONFIG'']"

definition launchctl :: "('w, 'c) console \<Rightarrow> string list \<Rightarrow> ('w, 'c, bool) cmd_act" where
  "launchctl C args = ask_c (succeeds C ''launchctl'' args)"

definition bootout :: "('w, 'c) console \<Rightarrow> string \<Rightarrow> ('w, 'c, unit) cmd_act" where
  "bootout C service = seq_p (launchctl C [''bootout'', service]) (ret ())"

definition domain :: "('w, 'c) console \<Rightarrow> string" where
  "domain C = ''gui/'' @ decimal (user_id C)"

definition launchd_install :: "('w, 'c) console \<Rightarrow> 'w env \<Rightarrow> ('w, 'c, unit) cmd_act" where
  "launchd_install C E =
     bind_p (ask_c (env_os C ''HOME'')) (\<lambda>u.
     let user_home = (case u of Some d \<Rightarrow> d | None \<Rightarrow> []); dir = join user_home ''Library/LaunchAgents'' in
     bind_p (ask_c (current_exe C)) (\<lambda>x.
     bind_p (give (from_sum x)) (\<lambda>exe.
     seq_p (give (and_then (accessible user_home exe) (\<lambda>_. accessible user_home (home E))))
     (seq_p (on_disk (perform (fs_create_dir_all E dir)))
     (bind_p (agent_environment C) (\<lambda>variables.
      bind_p (give (launchd_escape (utf8_lossy (join (home E) ''manager.log'')))) (\<lambda>logs.
      bind_p (give (launchd_escape (utf8_lossy exe))) (\<lambda>e.
      bind_p (give (launchd_escape (utf8_lossy (home E)))) (\<lambda>h.
      let path = join dir (LABEL @ ''.plist''); service = domain C @ ''/'' @ LABEL in
      seq_p (on_disk (perform (write_file E path (plist e h logs variables))))
      (seq_p (bootout C service)
      (bind_p (launchctl C [''enable'', service]) (\<lambda>enabled.
       bind_p (if enabled then launchctl C [''bootstrap'', domain C, utf8_lossy path] else ret False) (\<lambda>ok.
       seq_p (ensure_p ok (''launchctl failed; inspect launchctl print '' @ service))
       (println (''Installed '' @ LABEL @ '' as a LaunchAgent. It runs while you are logged in, like Docker Desktop and OrbStack. Logs: ''
         @ utf8_lossy (join (home E) ''manager.log''))))))))))))))))"

definition launchd_uninstall :: "('w, 'c) console \<Rightarrow> ('w, 'c, unit) cmd_act" where
  "launchd_uninstall C =
     (let service = domain C @ ''/'' @ LABEL in
      seq_p (bootout C service)
      (bind_p (launchctl C [''disable'', service]) (\<lambda>ok.
       seq_p (ensure_p ok ''launchctl failed'')
       (println ''Service disabled. Existing runner containers remain; use stop before uninstall to drain pools.''))))"

section \<open>The task of Windows\<close>

definition task_quote :: "string \<Rightarrow> string res" where
  "task_quote v =
     and_then (ensure (\<not> list_ex (\<lambda>c. c \<in> {CHR 0x22, CHR ''%'', CHR 0x00, CHR 0x0A, CHR 0x0D}) v)
       (''invalid Task Scheduler path: '' @ v)) (\<lambda>_.
     Ok (quotation @ v @ takeWhile (\<lambda>c. c = CHR 0x5C) (rev v) @ quotation))"

definition task_arguments :: "string \<Rightarrow> string \<Rightarrow> string res" where
  "task_arguments exe h =
     and_then (task_quote (utf8_lossy exe)) (\<lambda>e. and_then (task_quote (utf8_lossy h)) (\<lambda>q.
     Ok (''--headless '' @ e @ '' --home '' @ q @ '' service run'')))"

end
