(* ===== verification/Command_Line.thy ===== *)
theory Command_Line
  imports Service
begin

text \<open>
  The command line (src/main.rs): the commands as clap gives them, how each becomes a request or is
  carried out at once, and what is printed. The service commands are those of Linux.
\<close>

section \<open>Commands\<close>

text \<open>A target names a pool or all of them; a wait has its flag and its timeout in nanoseconds.\<close>

datatype target = Target (tg_pool: "string option") (tg_all: bool)

datatype wait_args = Wait_Args (wa_wait: bool) (wa_timeout: nat)

datatype image_cmd = Image_Pull "string option"

datatype auth_cmd =
    Auth_Login string bool "string option"
  | Auth_App string string u64 "string option" "string option"

datatype pool_cmd =
    Pool_Add string "string option" "string option" string "string list" u32 string string bool bool
      "f64 option" "string option"
  | Pool_List
  | Pool_Show string
  | Pool_Remove string bool wait_args

datatype config_cmd = Config_Check | Config_Apply "u64 option"

datatype service_cmd = Service_Install | Service_Uninstall

datatype cmd =
    Cmd_Init "string option" "string option"
  | Cmd_Auth auth_cmd
  | Cmd_Pool pool_cmd
  | Cmd_Config config_cmd
  | Cmd_Manager
  | Cmd_Image image_cmd
  | Cmd_Service service_cmd
  | Cmd_Status "string option"
  | Cmd_Start target
  | Cmd_Stop target bool wait_args
  | Cmd_Scale string u32
  | Cmd_Upgrade string string
  | Cmd_Logs string string bool
  | Cmd_Doctor

record cli =
  cl_home :: "string option"
  cl_json :: bool
  cl_command :: cmd

text \<open>
  The combinations of arguments that the attributes of the enums let through: \<open>required_unless_present\<close>
  together with \<open>conflicts_with\<close> asks for exactly one of two arguments.
\<close>

definition exactly_one :: "'a option \<Rightarrow> 'b option \<Rightarrow> bool" where
  "exactly_one x y \<longleftrightarrow> (x = None) \<noteq> (y = None)"

definition accepts_target :: "target \<Rightarrow> bool" where
  "accepts_target t \<longleftrightarrow> (tg_pool t \<noteq> None) \<noteq> tg_all t"

fun accepts :: "cmd \<Rightarrow> bool" where
  "accepts (Cmd_Init org repo) = exactly_one org repo"
| "accepts (Cmd_Auth (Auth_Login profile from_stdin variable)) = (\<not> (from_stdin \<and> variable \<noteq> None))"
| "accepts (Cmd_Auth (Auth_App profile i installation path variable)) = exactly_one path variable"
| "accepts (Cmd_Pool (Pool_Add name org repo a labels replicas grp img socket escalation cpus memory)) =
     (exactly_one org repo \<and> labels \<noteq> [])"
| "accepts (Cmd_Start t) = accepts_target t"
| "accepts (Cmd_Stop t force w) = accepts_target t"
| "accepts _ = True"

section \<open>Output\<close>

definition each :: "('a \<Rightarrow> ('w, 'c, unit) cmd_act) \<Rightarrow> 'a list \<Rightarrow> ('w, 'c, unit) cmd_act" where
  "each f xs = fold_p (\<lambda>_. f) () xs"

text \<open>Widths count characters: the bytes that do not continue one.\<close>

definition char_count :: "string \<Rightarrow> nat" where
  "char_count s = length (filter (\<lambda>b. \<not> continuation b) s)"

definition pad_left :: "nat \<Rightarrow> string \<Rightarrow> string" where
  "pad_left n s = replicate (n - char_count s) (CHR '' '') @ s"

definition pad_right :: "nat \<Rightarrow> string \<Rightarrow> string" where
  "pad_right n s = s @ replicate (n - char_count s) (CHR '' '')"

section \<open>The status table\<close>

definition table_row :: "nat \<Rightarrow> string list \<Rightarrow> string" where
  "table_row width cells = join_with '' '' (map2 (\<lambda>f s. f s)
     [pad_right 20, pad_right width, pad_right 10, pad_left 6, pad_left 6, pad_left 6, pad_left 6,
      pad_left 8, pad_left 8, pad_left 8] cells)"

definition str_or :: "string \<Rightarrow> json \<Rightarrow> string" where
  "str_or d v = (case as_str v of Some s \<Rightarrow> s | None \<Rightarrow> d)"

definition target_width :: "json list \<Rightarrow> nat" where
  "target_width pools =
     fold max (map length (List.map_filter (\<lambda>p. as_str (json_get p ''target'')) pools)) 18"

definition drain_note :: "json \<Rightarrow> string" where
  "drain_note r =
     (if json_get r ''retiring'' = JBool True then
        (case as_str (json_get r ''drain_reason'') of
           Some d \<Rightarrow>
             if d = ''waiting_for_next_job'' then '' (draining: waiting for next job)''
             else if d = ''job_in_progress'' then '' (draining: finishing current job)''
             else '' (draining: awaiting cleanup)''
         | None \<Rightarrow> '' (draining: awaiting cleanup)'')
      else [])"

definition show_runner :: "json \<Rightarrow> ('w, 'c, unit) cmd_act" where
  "show_runner r =
     bind_p (give (or_panic (as_str (json_get r ''id'')) ''called Option::unwrap() on a None value'')) (\<lambda>i.
     bind_p (give (or_panic (as_str (json_get r ''phase'')) ''called Option::unwrap() on a None value'')) (\<lambda>ph.
     println (''  '' @ i @ '' '' @ ph @ drain_note r)))"

definition pool_cells :: "('w, 'c) console \<Rightarrow> json \<Rightarrow> string list" where
  "pool_cells C p =
     [str_or [] (json_get p ''name''),
      (case as_str (json_get p ''target'') of Some t \<Rightarrow> t | None \<Rightarrow> str_or [] (json_get p ''organization'')),
      str_or [] (json_get p ''intent'')]
     @ map (\<lambda>k. json_text C (json_get p k))
         [''replicas'', ''active'', ''idle'', ''busy'', ''starting'', ''unknown'', ''draining'']"

definition show_pool :: "('w, 'c) console \<Rightarrow> nat \<Rightarrow> bool \<Rightarrow> json \<Rightarrow> ('w, 'c, unit) cmd_act" where
  "show_pool C width alone p =
     seq_p (println (table_row width (pool_cells C p)))
     (seq_p (case as_str (json_get p ''error'') of Some e \<Rightarrow> println (''  error: '' @ e) | None \<Rightarrow> ret ())
     (seq_p (when_p (case as_u64 (json_get p ''draining'') of Some n \<Rightarrow> 0 < n | None \<Rightarrow> False)
        (println ''  draining: idle runners can accept one final job; busy jobs finish before cleanup''))
     (when_p alone
        (let conf = json_get p ''config'' in
         seq_p (println (''  image: '' @ str_or [] (json_get conf ''image'') @ '' | labels: ''
            @ json_text C (json_get conf ''labels'') @ '' | group: '' @ str_or [] (json_get conf ''runner_group'')))
         (bind_p (give (or_panic (as_array (json_get p ''runners'')) ''called Option::unwrap() on a None value''))
           (each show_runner))))))"

definition show_status :: "('w, 'c) console \<Rightarrow> json \<Rightarrow> json list \<Rightarrow> ('w, 'c, unit) cmd_act" where
  "show_status C data pools =
     (let width = target_width pools in
      seq_p (println (table_row width [''POOL'', ''SCOPE'', ''INTENT'', ''TARGET'', ''ACTIVE'', ''IDLE'', ''BUSY'',
        ''STARTING'', ''UNKNOWN'', ''DRAINING'']))
      (seq_p (each (show_pool C width (length pools = 1)) pools)
      (when_p (json_get data ''manager_running'' = JBool False)
        (println ''Manager is stopped; showing persisted state. Run runnerctl manager or service install.''))))"

section \<open>Initialising\<close>

definition initialized :: "'w env \<Rightarrow> ('w, bool) act" where
  "initialized E =
     bind_p (ask (fs_exists E (config_path (home E)))) (\<lambda>configured.
     if configured then ret True else ask (fs_exists E (join (home E) ''state.sqlite'')))"

definition init_profile :: "string option \<Rightarrow> string option \<Rightarrow> string res" where
  "init_profile org repo =
     or_error (case org of Some p \<Rightarrow> Some p | None \<Rightarrow> map_option (\<lambda>r. hd (split_at (CHR ''/'') r)) repo)
       ''missing target''"

definition init_config :: "'w env \<Rightarrow> string \<Rightarrow> config" where
  "init_config E profile = default_config\<lparr>cfg_auth := bm_insert profile
     (auth_pat (''file:'' @ utf8_lossy (join (join (home E) ''credentials'') profile))) (cfg_auth default_config)\<rparr>"

definition run_init :: "'w env \<Rightarrow> string option \<Rightarrow> string option \<Rightarrow> ('w, 'c, unit) cmd_act" where
  "run_init E org repo =
     seq_p (on_disk (lock E))
     (bind_p (on_disk (initialized E)) (\<lambda>already.
      seq_p (ensure_p (\<not> already) ''already initialized'')
      (seq_p (ensure_p (case org of Some n \<Rightarrow> valid_org n | None \<Rightarrow> True) ''invalid organization'')
      (seq_p (ensure_p (case repo of Some n \<Rightarrow> valid_repo n | None \<Rightarrow> True) ''invalid repository; use OWNER/REPO'')
      (bind_p (give (init_profile org repo)) (\<lambda>profile.
       bind_p (give (case org of
            Some _ \<Rightarrow> Ok (''--org '' @ profile)
          | None \<Rightarrow> and_then (or_panic repo ''called Option::unwrap() on a None value'') (\<lambda>r. Ok (''--repo '' @ r)))) (\<lambda>flag.
       bind_p (give (from_sum (to_toml E (init_config E profile)))) (\<lambda>text.
       seq_p (on_disk (write_config E text))
       (println (''Initialized '' @ utf8_lossy (config_path (home E)) @ newline
         @ ''Next: runnerctl auth login --profile '' @ profile @ newline
         @ ''Then: runnerctl image pull'' @ newline
         @ ''Then: runnerctl pool add test '' @ flag @ '' --auth '' @ profile @ '' --labels test --replicas 1''))))))))))"

section \<open>Requests\<close>

definition valid_token :: "string \<Rightarrow> bool" where
  "valid_token t \<longleftrightarrow> t \<noteq> [] \<and> length t \<le> 16384 \<and> \<not> has_whitespace t"

definition login_token :: "('w, 'c) console \<Rightarrow> bool \<Rightarrow> ('w, 'c, string) cmd_act" where
  "login_token C from_stdin =
     bind_p (ask_c (if from_stdin then read_stdin C 16385 else prompt C ''GitHub PAT: '')) (\<lambda>r.
     bind_p (give (from_sum r)) (\<lambda>line.
     let token = trim line in
     seq_p (ensure_p (valid_token token) ''invalid token'') (ret token)))"

definition login_request :: "('w, 'c) console \<Rightarrow> 'w env \<Rightarrow> string \<Rightarrow> bool \<Rightarrow> string option \<Rightarrow> ('w, 'c, request) cmd_act" where
  "login_request C E profile from_stdin variable =
     seq_p (ensure_p (valid_name profile) ''invalid profile name'')
     (case variable of
        Some v \<Rightarrow> ret (Auth profile (''env:'' @ v) None)
      | None \<Rightarrow>
          bind_p (login_token C from_stdin) (\<lambda>token.
          bind_p (on_disk (ask (uuid E))) (\<lambda>u.
          let path = join (join (home E) ''credentials'') (profile @ ''-'' @ simple_uuid u) in
          seq_p (on_disk (perform (write_file E path token)))
          (ret (Auth profile (''file:'' @ utf8_lossy path) None)))))"

definition key_reference :: "('w, 'c) console \<Rightarrow> string option \<Rightarrow> string option \<Rightarrow> ('w, 'c, string) cmd_act" where
  "key_reference C path variable = (case path of
       Some p \<Rightarrow>
         bind_p (ask_c (canonicalize C p)) (\<lambda>r.
         bind_p (give (from_sum r)) (\<lambda>full. ret (''file:'' @ utf8_lossy full)))
     | None \<Rightarrow> bind_p (give (or_error variable ''missing private key reference'')) (\<lambda>v. ret (''env:'' @ v)))"

definition app_request :: "('w, 'c) console \<Rightarrow> 'w env \<Rightarrow> string \<Rightarrow> string \<Rightarrow> u64 \<Rightarrow> string option \<Rightarrow> string option
    \<Rightarrow> ('w, 'c, request) cmd_act" where
  "app_request C E profile i installation path variable =
     seq_p (ensure_p (valid_name profile) ''invalid profile name'')
     (bind_p (key_reference C path variable) (\<lambda>key.
      let app = \<lparr>app_id = i, installation_id = installation, private_key = key\<rparr> in
      bind_p (give (validate (default_config\<lparr>cfg_auth :=
          bm_insert profile \<lparr>au_credential = [], au_app = Some app\<rparr> (cfg_auth default_config)\<rparr>))) (\<lambda>_.
      bind_p (on_disk (app_jwt E app)) (\<lambda>_.
      ret (Auth profile [] (Some app))))))"

text \<open>
  The names that \<open>stop --wait\<close> and \<open>pool remove --wait\<close> wait for, with the kind of cleanup and the
  timeout.
\<close>

type_synonym waiting = "(string list \<times> bool \<times> nat) option"

definition stop_names :: "('w, 'c) console \<Rightarrow> 'w env \<Rightarrow> target \<Rightarrow> ('w, 'c, string list) cmd_act" where
  "stop_names C E t =
     (if tg_all t then
        bind_p (dispatch C E (Status None)) (\<lambda>status.
        bind_p (give (or_error (as_array (json_get status ''pools'')) ''missing pools'')) (\<lambda>pools.
        ret (List.map_filter (\<lambda>p. as_str (json_get p ''name'')) pools)))
      else bind_p (give (or_error (tg_pool t) ''missing pool'')) (\<lambda>p. ret [p]))"

definition stop_waiting :: "('w, 'c) console \<Rightarrow> 'w env \<Rightarrow> target \<Rightarrow> wait_args \<Rightarrow> ('w, 'c, waiting) cmd_act" where
  "stop_waiting C E t w =
     (if wa_wait w then bind_p (stop_names C E t) (\<lambda>names. ret (Some (names, False, wa_timeout w)))
      else ret None)"

definition apply_revision :: "('w, 'c) console \<Rightarrow> 'w env \<Rightarrow> u64 option \<Rightarrow> ('w, 'c, u64) cmd_act" where
  "apply_revision C E revision = (case revision of
       Some r \<Rightarrow> ret r
     | None \<Rightarrow> bind_p (dispatch C E (Status None)) (\<lambda>status.
         give (or_error (as_u64 (json_get status ''revision'')) ''missing revision'')))"

definition apply_request :: "('w, 'c) console \<Rightarrow> 'w env \<Rightarrow> u64 option \<Rightarrow> ('w, 'c, request) cmd_act" where
  "apply_request C E revision =
     bind_p (apply_revision C E revision) (\<lambda>r.
     bind_p (on_disk read_config) (\<lambda>text. ret (Apply text r)))"

definition check_config :: "'w env \<Rightarrow> ('w, 'c, unit) cmd_act" where
  "check_config E =
     bind_p (on_disk (reads config_file)) (\<lambda>f.
     bind_p (give (case f of Inl _ \<Rightarrow> Err (Msg ''missing config; run init'') | Inr text \<Rightarrow> Ok text)) (\<lambda>text.
     bind_p (give (parse_config (from_toml E) text)) (\<lambda>c.
     seq_p (println (''Config valid: '' @ decimal (length (cfg_pools c)) @ '' pools, ''
        @ decimal (total_replicas c) @ '' / '' @ text_of (mg_max_runners (cfg_manager c)) @ '' replicas''))
     (each (\<lambda>w. eprintln (''warning: '' @ w)) (warnings c)))))"

section \<open>Following logs\<close>

text \<open>For so many rounds; the result says whether the command came to its end.\<close>

definition show_new :: "string \<Rightarrow> string \<Rightarrow> string" where
  "show_new previous logs = (case strip_prefix previous logs of Some rest \<Rightarrow> rest | None \<Rightarrow> logs)"

fun follow_logs :: "nat \<Rightarrow> ('w, 'c) console \<Rightarrow> 'w env \<Rightarrow> string \<Rightarrow> string \<Rightarrow> bool \<Rightarrow> string \<Rightarrow> ('w, 'c, bool) cmd_act" where
  "follow_logs 0 C E p rid follow previous = ret False"
| "follow_logs (Suc n) C E p rid follow previous =
     bind_p (dispatch C E (Logs p rid)) (\<lambda>data.
     let logs = str_or [] (json_get data ''logs'') in
     seq_p (print (show_new previous logs))
     (if \<not> follow then ret True
      else
        bind_p (ask_c (instant C)) (\<lambda>t.
        bind_p (ask_both (interrupted_sleep C (t + 2 * second))) (\<lambda>interrupted.
        if interrupted then ret True else follow_logs n C E p rid follow logs))))"

section \<open>The program\<close>

definition new_pool :: "string \<Rightarrow> string option \<Rightarrow> string option \<Rightarrow> string \<Rightarrow> string list \<Rightarrow> u32 \<Rightarrow> string \<Rightarrow> string
    \<Rightarrow> bool \<Rightarrow> bool \<Rightarrow> f64 option \<Rightarrow> string option \<Rightarrow> pool" where
  "new_pool name org repo a labels replicas grp img socket escalation cpus memory =
     \<lparr>pl_name = name, pl_organization = (case org of Some n \<Rightarrow> n | None \<Rightarrow> []), pl_repository = repo, pl_auth = a,
      pl_labels = labels, pl_runner_group = grp, pl_replicas = replicas, pl_image = img,
      pl_docker_socket = socket, pl_allow_privilege_escalation = escalation, pl_cpus = cpus,
      pl_memory = memory\<rparr>"

definition pull_image :: "('w, 'c) console \<Rightarrow> 'w env \<Rightarrow> string option \<Rightarrow> ('w, 'c, unit) cmd_act" where
  "pull_image C E img = bind_p (on_disk (pull E img)) (\<lambda>result. println (json_pretty C result))"

definition change_service :: "('w, 'c) console \<Rightarrow> 'w env \<Rightarrow> service_cmd \<Rightarrow> ('w, 'c, unit) cmd_act" where
  "change_service C E c = (case c of
     Service_Install \<Rightarrow> systemd_install C E | Service_Uninstall \<Rightarrow> systemd_uninstall C E)"

text \<open>
  A command is carried out at once (and has come to its end, or not within so many rounds), or is
  sent as a request, with what is waited for afterwards.
\<close>

datatype plan = Over bool | Send request waiting

definition sends :: "('w, 'c, request) cmd_act \<Rightarrow> ('w, 'c, plan) cmd_act" where
  "sends m = bind_p m (\<lambda>r. ret (Send r None))"

definition ends :: "('w, 'c, unit) cmd_act \<Rightarrow> ('w, 'c, plan) cmd_act" where
  "ends m = seq_p m (ret (Over True))"

fun request_of :: "nat \<Rightarrow> wakeup list \<Rightarrow> ('w, 'c) console \<Rightarrow> 'w env \<Rightarrow> cmd \<Rightarrow> ('w, 'c, plan) cmd_act" where
  "request_of n ws C E (Cmd_Init org repo) = ends (run_init E org repo)"
| "request_of n ws C E Cmd_Manager = ends (on_disk (serve E ws))"
| "request_of n ws C E (Cmd_Image (Image_Pull img)) =
     ends (pull_image C E img)"
| "request_of n ws C E (Cmd_Auth (Auth_Login profile from_stdin variable)) = sends (login_request C E profile from_stdin variable)"
| "request_of n ws C E (Cmd_Auth (Auth_App profile i installation path variable)) =
     sends (app_request C E profile i installation path variable)"
| "request_of n ws C E (Cmd_Pool (Pool_Add name org repo a labels replicas grp img socket escalation cpus memory)) =
     sends (ret (Add (new_pool name org repo a labels replicas grp img socket escalation cpus memory)))"
| "request_of n ws C E (Cmd_Pool Pool_List) = sends (ret (Status None))"
| "request_of n ws C E (Cmd_Pool (Pool_Show name)) = sends (ret (Status (Some name)))"
| "request_of n ws C E (Cmd_Pool (Pool_Remove name force w)) =
     ret (Send (Remove name force) (if wa_wait w then Some ([name], True, wa_timeout w) else None))"
| "request_of n ws C E (Cmd_Config Config_Check) = ends (check_config E)"
| "request_of n ws C E (Cmd_Config (Config_Apply revision)) = sends (apply_request C E revision)"
| "request_of n ws C E (Cmd_Service c) = ends (change_service C E c)"
| "request_of n ws C E (Cmd_Status p) = sends (ret (Status p))"
| "request_of n ws C E (Cmd_Start t) = sends (ret (Start (tg_pool t) (tg_all t)))"
| "request_of n ws C E (Cmd_Stop t force w) =
     bind_p (stop_waiting C E t w) (\<lambda>waiting. ret (Send (Stop (tg_pool t) (tg_all t) force) waiting))"
| "request_of n ws C E (Cmd_Scale p k) = sends (ret (Scale p k))"
| "request_of n ws C E (Cmd_Upgrade p img) = sends (ret (Upgrade p img))"
| "request_of n ws C E (Cmd_Logs rid p follow) = bind_p (follow_logs n C E p rid follow []) (\<lambda>ended. ret (Over ended))"
| "request_of n ws C E Cmd_Doctor = sends (ret Doctor)"

text \<open>After the answer: the wait, if one was asked for, and the output. None: the wait goes on.\<close>

definition await_cleanup :: "nat \<Rightarrow> ('w, 'c) console \<Rightarrow> 'w env \<Rightarrow> bool \<Rightarrow> json \<Rightarrow> waiting \<Rightarrow> ('w, 'c, json option) cmd_act" where
  "await_cleanup n C E as_json data w = (case w of
       None \<Rightarrow> ret (Some data)
     | Some (names, removed, timeout) \<Rightarrow>
         seq_p (when_p (\<not> as_json) (eprintln (str_or ''Waiting for cleanup...'' (json_get data ''message''))))
         (seq_p (ensure_p (json_get data ''manager_running'' \<noteq> JBool False)
            ''request saved, but manager is stopped; start the manager before waiting for cleanup'')
         (bind_p (wait_for_cleanup n C E names removed timeout) (\<lambda>ended.
          if \<not> ended then ret None
          else
            bind_p (give (json_set ''pending'' (JBool False) data)) (\<lambda>d.
            bind_p (give (json_set ''message'' (JStr ''Cleanup complete.'') d)) (\<lambda>d'. ret (Some d')))))))"

definition show_answer :: "('w, 'c) console \<Rightarrow> bool \<Rightarrow> json \<Rightarrow> ('w, 'c, unit) cmd_act" where
  "show_answer C as_json data =
     (if as_json then println (json_pretty C data)
      else (case as_array (json_get data ''pools'') of
          Some pools \<Rightarrow> show_status C data pools
        | None \<Rightarrow> println (json_pretty C data)))"

definition shown_answer :: "('w, 'c) console \<Rightarrow> bool \<Rightarrow> json option \<Rightarrow> ('w, 'c, bool) cmd_act" where
  "shown_answer C as_json result = (case result of
      None \<Rightarrow> ret False
    | Some data \<Rightarrow>
        seq_p (show_answer C as_json data)
        (seq_p (ensure_p (json_get data ''healthy'' \<noteq> JBool False) ''doctor found failed checks'') (ret True)))"

text \<open>The program; the result says whether it came to its end within so many rounds.\<close>

definition run_cmd :: "nat \<Rightarrow> wakeup list \<Rightarrow> ('w, 'c) console \<Rightarrow> 'w env \<Rightarrow> bool \<Rightarrow> cmd \<Rightarrow> ('w, 'c, bool) cmd_act" where
  "run_cmd n ws C E as_json c =
     seq_p (on_disk (prepare E))
     (bind_p (request_of n ws C E c) (\<lambda>x. case x of
        Over ended \<Rightarrow> ret ended
      | Send r w \<Rightarrow>
          bind_p (dispatch C E r) (\<lambda>data.
          bind_p (await_cleanup n C E as_json data w) (shown_answer C as_json))))"

section \<open>The home directory\<close>

text \<open>\<open>Paths::new\<close>: a relative home is taken from the current directory. \<open>default_home\<close> on Unix.\<close>

definition paths_new :: "(string + string) \<Rightarrow> string \<Rightarrow> string res" where
  "paths_new current h =
     (if is_absolute h then Ok h else and_then (from_sum current) (\<lambda>d. Ok (join d h)))"

definition default_home :: "string option \<Rightarrow> string option \<Rightarrow> string" where
  "default_home xdg user = join (case xdg of
       Some base \<Rightarrow> base
     | None \<Rightarrow> join (case user of Some u \<Rightarrow> u | None \<Rightarrow> []) ''.config'') ''runnerctl''"

section \<open>The process\<close>

text \<open>
  \<open>run\<close> and \<open>main\<close>: what the shell gives, the exit status. The error is printed with its text (the
  source's \<open>{:#}\<close> appends the causes it carries). None: the command goes on after so many rounds.
\<close>

record shell =
  sh_current :: "string + string"
  sh_xdg :: "string option"
  sh_user :: "string option"

definition run_cli :: "nat \<Rightarrow> wakeup list \<Rightarrow> ('w, 'c) console \<Rightarrow> 'w env \<Rightarrow> shell \<Rightarrow> cli \<Rightarrow> ('w, 'c, bool) cmd_act" where
  "run_cli n ws C E sh c =
     bind_p (give (paths_new (sh_current sh) (case cl_home c of
         Some h \<Rightarrow> h | None \<Rightarrow> default_home (sh_xdg sh) (sh_user sh)))) (\<lambda>h.
     run_cmd n ws C (E\<lparr>home := h\<rparr>) (cl_json c) (cl_command c))"

definition main :: "nat \<Rightarrow> wakeup list \<Rightarrow> ('w, 'c) console \<Rightarrow> 'w env \<Rightarrow> shell \<Rightarrow> cli \<Rightarrow> ('w, 'c, nat option) cmd_act" where
  "main n ws C E sh c =
     bind_p (attempt (run_cli n ws C E sh c)) (\<lambda>r. case r of
         Err er \<Rightarrow> seq_p (eprintln (''error: '' @ error_text er)) (ret (Some 1))
       | _ \<Rightarrow> ret (if r = Ok True then Some 0 else None))"

end
