(* ===== verification/Service_Contract.thy ===== *)
theory Service_Contract
  imports Service
begin

text \<open>
  What is written for a service manager is read as it was meant: the command line by systemd,
  values in the agent's file by an XML reader, the task's arguments by a program on Windows.
  The readers are transcribed from the documentation of the three formats, for the texts that
  occur here.
\<close>

section \<open>How systemd reads a command line\<close>

text \<open>
  Words are separated by spaces; single and double quotes enclose parts of words; a backslash
  escapes itself and quotes (other escapes do not occur here). In every word \<open>%%\<close> stands for a
  percent sign; in the arguments \<open>$$\<close> stands for a dollar sign, the program itself is no place
  for variables.
\<close>

definition word_of :: "string option \<Rightarrow> string" where
  "word_of w = (case w of None \<Rightarrow> [] | Some x \<Rightarrow> x)"

fun systemd_words :: "string option \<Rightarrow> char option \<Rightarrow> string \<Rightarrow> string list option" where
  "systemd_words w q [] =
     (if q \<noteq> None then None else Some (case w of None \<Rightarrow> [] | Some x \<Rightarrow> [x]))"
| "systemd_words w q (c # s) =
     (if q = None \<and> c = CHR '' '' then
        (case w of None \<Rightarrow> systemd_words None None s | Some x \<Rightarrow> map_option ((#) x) (systemd_words None None s))
      else if q = None \<and> (c = CHR 0x22 \<or> c = CHR 0x27) then systemd_words (Some (word_of w)) (Some c) s
      else if q = Some c then systemd_words w None s
      else if c = CHR 0x5C then
        (case s of
           [] \<Rightarrow> None
         | d # t \<Rightarrow>
             if d = CHR 0x5C \<or> d = CHR 0x22 \<or> d = CHR 0x27 then systemd_words (Some (word_of w @ [d])) q t
             else None)
      else systemd_words (Some (word_of w @ [c])) q s)"

fun undouble :: "char \<Rightarrow> string \<Rightarrow> string option" where
  "undouble x [] = Some []"
| "undouble x [c] = (if c = x then None else Some [c])"
| "undouble x (c # d # s) =
     (if c = x then (if d = x then map_option ((#) x) (undouble x s) else None)
      else map_option ((#) c) (undouble x (d # s)))"

definition systemd_command :: "string \<Rightarrow> string list option" where
  "systemd_command line = Option.bind (systemd_words None None line) (\<lambda>ws. case ws of
      [] \<Rightarrow> None
    | program # args \<Rightarrow> those (undouble (CHR ''%'') program
        # map (\<lambda>w. Option.bind (undouble (CHR ''%'') w) (undouble (CHR ''$''))) args))"

lemma undouble_Cons: "undouble x (c # s) =
    (if c = x then (case s of [] \<Rightarrow> None | d # t \<Rightarrow> if d = x then map_option ((#) x) (undouble x t) else None)
     else map_option ((#) c) (undouble x s))"
  by (cases s) auto

lemma undouble_replace: "undouble x (replace_char x [x, x] s) = Some s"
  by (induction s) (auto simp: replace_char_def undouble_Cons)

definition doubled :: "string \<Rightarrow> string" where
  "doubled s = replace_char (CHR ''$'') ''$$'' (replace_char (CHR ''%'') ''%%'' s)"

definition systemd_escaped :: "string \<Rightarrow> string" where
  "systemd_escaped v = replace_char (CHR ''$'') ''$$'' (replace_char (CHR ''%'') ''%%''
       (replace_char (CHR 0x22) [CHR 0x5C, CHR 0x22] (replace_char (CHR 0x5C) [CHR 0x5C, CHR 0x5C] v)))"

lemma replace_char_simps [simp]:
  "replace_char c r [] = []"
  "replace_char c r (x # s) = (if x = c then r else [x]) @ replace_char c r s"
  "replace_char c r (s @ t) = replace_char c r s @ replace_char c r t"
  by (simp_all add: replace_char_def)

lemma escaped_Cons: "systemd_escaped (c # s) =
   (if c = CHR 0x5C then [CHR 0x5C, CHR 0x5C] else if c = CHR 0x22 then [CHR 0x5C, CHR 0x22]
    else if c = CHR ''%'' then ''%%'' else if c = CHR ''$'' then ''$$'' else [c]) @ systemd_escaped s"
  by (simp add: systemd_escaped_def)

lemma doubled_Cons: "doubled (c # s) = (if c = CHR ''%'' then ''%%'' else if c = CHR ''$'' then ''$$'' else [c]) @ doubled s"
  by (simp add: doubled_def)

lemma words_escaped:
  "systemd_words (Some w) (Some (CHR 0x22)) (systemd_escaped s @ CHR 0x22 # rest)
     = systemd_words (Some (w @ doubled s)) None rest"
proof (induction s arbitrary: w)
  case Nil
  then show ?case by (simp add: systemd_escaped_def doubled_def)
next
  case (Cons c s)
  then show ?case by (simp add: escaped_Cons doubled_Cons word_of_def)
qed

lemma undouble_percent: "undouble (CHR ''%'') (doubled s) = Some (replace_char (CHR ''$'') ''$$'' s)"
  by (induction s) (auto simp: doubled_def undouble_Cons)

lemma quote_escaped: "systemd_quote v = Ok q \<Longrightarrow> q = CHR 0x22 # systemd_escaped v @ [CHR 0x22]"
  by (auto simp: systemd_quote_def systemd_escaped_def quotation_def)



section \<open>How text in XML is read\<close>

text \<open>The entities of a text; any other ampersand, and the start of a tag, is no text.\<close>

definition entities :: "(string \<times> char) list" where
  "entities = [(''amp;'', CHR ''&''), (''lt;'', CHR ''<''), (''gt;'', CHR ''>'')]"

fun entity :: "(string \<times> char) list \<Rightarrow> string \<Rightarrow> (char \<times> string) option" where
  "entity [] s = None"
| "entity ((name, c) # es) s = (case strip_prefix name s of Some t \<Rightarrow> Some (c, t) | None \<Rightarrow> entity es s)"

lemma entity_length: "entity es s = Some (c, t) \<Longrightarrow> length t \<le> length s"
  by (induction es s rule: entity.induct) (auto simp: strip_prefix_Some split: option.splits)

function xml_text :: "string \<Rightarrow> string option" where
  "xml_text [] = Some []"
| "xml_text (c # s) =
     (if c = CHR ''<'' then None
      else if c = CHR ''&'' then
        (case entity entities s of None \<Rightarrow> None | Some (d, t) \<Rightarrow> map_option ((#) d) (xml_text t))
      else map_option ((#) c) (xml_text s))"
  by pat_completeness auto
termination
  by (relation "measure length") (auto dest: entity_length)

lemma xml_escape_simps [simp]:
  "xml_escape [] = []"
  "xml_escape (c # s) = (if c = CHR ''&'' then ''&amp;'' else if c = CHR ''<'' then ''&lt;''
     else if c = CHR ''>'' then ''&gt;'' else [c]) @ xml_escape s"
  by (simp_all add: xml_escape_def)

lemma xml_text_escape: "xml_text (xml_escape v) = Some v"
  by (induction v) (auto simp: entities_def)

text \<open>
  What launchd reads in the agent's file for a path or a variable is that path or variable,
  and no such value can open a tag or start a line of its own.
\<close>

theorem agent_values_read:
  assumes "launchd_escape v = Ok x"
  shows "xml_text x = Some v \<and> CHR ''<'' \<notin> set x \<and> CHR 0x0A \<notin> set x"
proof -
  have x: "x = xml_escape v" and v: "\<not> has_control v" using assms by (auto simp: launchd_escape_def)
  have "xml_text (xml_escape v) = Some v" by (rule xml_text_escape)
  moreover have "CHR ''<'' \<notin> set (xml_escape v)" by (induction v) auto
  moreover have "CHR 0x0A \<notin> set (xml_escape v)"
    using v by (induction v rule: has_control.induct) (auto simp: byte_def)
  ultimately show ?thesis by (simp add: x)
qed

theorem agent_values_read_witness:
  "\<exists>x. launchd_escape ''/usr/bin:/a&b<c>'' = Ok x \<and> xml_text x = Some ''/usr/bin:/a&b<c>''"
proof -
  obtain x where "launchd_escape ''/usr/bin:/a&b<c>'' = Ok x"
    by (simp add: launchd_escape_def ensure_def byte_def)
  with agent_values_read [OF this] show ?thesis by simp
qed

section \<open>How a program on Windows reads its arguments\<close>

text \<open>
  Arguments are separated by spaces outside quotes; \<open>2n\<close> backslashes and a quotation mark stand for
  \<open>n\<close> backslashes and a quote that opens or closes, \<open>2n + 1\<close> for \<open>n\<close> backslashes and a quotation
  mark; other backslashes stand for themselves. \<open>n\<close> counts the backslashes just read.
\<close>

fun windows_arguments :: "string option \<Rightarrow> bool \<Rightarrow> nat \<Rightarrow> string \<Rightarrow> string list" where
  "windows_arguments w q n [] =
     (if w = None \<and> n = 0 then [] else [word_of w @ replicate n (CHR 0x5C)])"
| "windows_arguments w q n (c # s) =
     (if c = CHR 0x5C then windows_arguments w q (Suc n) s
      else if c = CHR 0x22 then
        (if even n then windows_arguments (Some (word_of w @ replicate (n div 2) (CHR 0x5C))) (\<not> q) 0 s
         else windows_arguments (Some (word_of w @ replicate (n div 2) (CHR 0x5C) @ [c])) q 0 s)
      else if c = CHR '' '' \<and> \<not> q then
        (if w = None \<and> n = 0 then windows_arguments None False 0 s
         else (word_of w @ replicate n (CHR 0x5C)) # windows_arguments None False 0 s)
      else windows_arguments (Some (word_of w @ replicate n (CHR 0x5C) @ [c])) q 0 s)"

text \<open>The backslashes pending after a text without quotes.\<close>

fun pending :: "nat \<Rightarrow> string \<Rightarrow> nat" where
  "pending n [] = n"
| "pending n (c # s) = pending (if c = CHR 0x5C then Suc n else 0) s"

lemma pending_trailing:
  "takeWhile (\<lambda>c. c = CHR 0x5C) (rev s @ replicate n (CHR 0x5C)) = replicate (pending n s) (CHR 0x5C)"
proof (induction s arbitrary: n)
  case (Cons c s)
  show ?case
  proof (cases "c = CHR 0x5C")
    case True
    then show ?thesis using Cons.IH [of "Suc n"] by simp
  next
    case False
    then show ?thesis using Cons.IH [of 0] by (simp add: takeWhile_tail)
  qed
qed simp

lemma read_unquoted:
  assumes "CHR 0x22 \<notin> set v"
  shows "\<exists>w'. windows_arguments (Some w) True n (v @ u) = windows_arguments (Some w') True (pending n v) u
     \<and> w' @ replicate (pending n v) (CHR 0x5C) = w @ replicate n (CHR 0x5C) @ v"
  using assms
proof (induction v arbitrary: w n)
  case (Cons c v)
  show ?case
  proof (cases "c = CHR 0x5C")
    case True
    then show ?thesis using Cons.IH [of w "Suc n"] Cons.prems by (auto simp: replicate_append_same [symmetric])
  next
    case False
    then show ?thesis using Cons.IH [of "w @ replicate n (CHR 0x5C) @ [c]" 0] Cons.prems by (auto simp: word_of_def)
  qed
qed auto

lemma read_backslashes:
  "windows_arguments w q n (replicate k (CHR 0x5C) @ u) = windows_arguments w q (n + k) u"
  by (induction k arbitrary: n) auto

lemma read_quoted:
  assumes "task_quote v = Ok x"
  shows "windows_arguments None False 0 (x @ u) = windows_arguments (Some v) False 0 u"
proof -
  let ?t = "takeWhile (\<lambda>c. c = CHR 0x5C) (rev v)"
  have v: "CHR 0x22 \<notin> set v" and x: "x = CHR 0x22 # v @ ?t @ [CHR 0x22]"
    using assms by (auto simp: task_quote_def quotation_def list_ex_iff)
  have t: "?t = replicate (pending 0 v) (CHR 0x5C)"
    using pending_trailing [of v 0] by simp
  obtain w where w: "windows_arguments (Some []) True 0 (v @ ?t @ CHR 0x22 # u)
      = windows_arguments (Some w) True (pending 0 v) (?t @ CHR 0x22 # u)"
    "w @ replicate (pending 0 v) (CHR 0x5C) = v"
    using read_unquoted [OF v, of "[]" 0] by auto
  have "windows_arguments None False 0 (x @ u) = windows_arguments (Some []) True 0 (v @ ?t @ CHR 0x22 # u)"
    by (simp add: x word_of_def)
  also have "\<dots> = windows_arguments (Some w) True (pending 0 v + pending 0 v) (CHR 0x22 # u)"
    unfolding w(1) by (subst t) (rule read_backslashes)
  also have "\<dots> = windows_arguments (Some v) False 0 u"
    by (simp add: word_of_def w(2) flip: mult_2)
  finally show ?thesis .
qed

text \<open>The task of Windows runs the program with the given home, backslashes at its end included.\<close>

lemma task_runs_manager:
  assumes "task_arguments exe h = Ok line"
  shows "windows_arguments None False 0 line
     = [''--headless'', utf8_lossy exe, ''--home'', utf8_lossy h, ''service'', ''run'']"
proof -
  obtain e q where e: "task_quote (utf8_lossy exe) = Ok e" and q: "task_quote (utf8_lossy h) = Ok q"
    and line: "line = ''--headless '' @ e @ '' --home '' @ q @ '' service run''"
    using assms by (auto simp: task_arguments_def)
  have "windows_arguments None False 0 line = ''--headless'' # windows_arguments None False 0 (e @ '' --home '' @ q @ '' service run'')"
    by (simp add: line word_of_def)
  also have "\<dots> = [''--headless'', utf8_lossy exe, ''--home'', utf8_lossy h, ''service'', ''run'']"
    by (simp only: read_quoted [OF e]) (simp add: word_of_def read_quoted [OF q])
  finally show ?thesis .
qed

end
