(* ===== verification/Command_Contract.thy ===== *)
theory Command_Contract
  imports Command_Line Service_Contract
begin

text \<open>
  What the command line promises: answers can always be printed, a command without a manager
  never panics and leaves a sound disk, and an initialisation leaves a valid configuration.
\<close>

section \<open>Nothing is printed that is not there\<close>

lemma keeps_print:
  "(\<And>c s. I c \<Longrightarrow> I (c\<lparr>shown := s\<rparr>)) \<Longrightarrow> keeps I W (print s)"
  "(\<And>c s. I c \<Longrightarrow> I (c\<lparr>shown := s\<rparr>)) \<Longrightarrow> keeps I W (println s)"
  "(\<And>c s. I c \<Longrightarrow> I (c\<lparr>noted := s\<rparr>)) \<Longrightarrow> keeps I W (eprintln s)"
  unfolding print_def println_def eprintln_def by (intro keeps_intros; simp)+

lemma keeps_each: "(\<And>x. x \<in> set xs \<Longrightarrow> keeps I W (f x)) \<Longrightarrow> keeps I W (each f xs)"
  unfolding each_def by (rule keeps_fold) simp

lemma keeps_show_runner:
  "printable_runner r \<Longrightarrow> (\<And>c s. I c \<Longrightarrow> I (c\<lparr>shown := s\<rparr>)) \<Longrightarrow> keeps I W (show_runner r)"
  unfolding show_runner_def by (intro keeps_intros keeps_print keeps_give) (auto simp: printable_runner_def)

lemma keeps_show_pool:
  "printable_pool p \<Longrightarrow> (\<And>c s. I c \<Longrightarrow> I (c\<lparr>shown := s\<rparr>)) \<Longrightarrow> keeps I W (show_pool C width alone p)"
  unfolding show_pool_def Let_def
  by (intro keeps_intros keeps_print keeps_bind_give keeps_each keeps_show_runner)
    (auto simp: printable_pool_def list_all_iff split: option.splits)

lemma keeps_show_answer:
  assumes "printable data" "\<And>c s. I c \<Longrightarrow> I (c\<lparr>shown := s\<rparr>)"
  shows "keeps I W (show_answer C as_json data)"
proof (cases "as_array (json_get data ''pools'')")
  case None
  then show ?thesis unfolding show_answer_def by (simp add: keeps_print assms(2))
next
  case (Some pools)
  then have "keeps I W (show_status C data pools)"
    unfolding show_status_def Let_def
    by (intro keeps_intros keeps_print keeps_each keeps_show_pool assms(2))
      (use assms(1) in \<open>auto simp: printable_def list_all_iff\<close>)
  with Some show ?thesis unfolding show_answer_def by (simp add: keeps_print assms(2))
qed

text \<open>
  The answer to any request can be printed: no field that the status table insists on is
  missing.
\<close>

theorem answers_printed:
  assumes "answer E s r e = (Ok j, e')"
  shows "fst (show_answer C as_json j c) \<noteq> Panic m"
proof -
  have "printable j" using gives_answer [of E s r] assms by (auto simp: yields_def)
  from keepsD [OF keeps_show_answer [OF this, of "\<lambda>_. True" "\<lambda>_. False" C as_json], of c] show ?thesis
    by (cases "show_answer C as_json j c" rule: outcome_cases) auto
qed

theorem answers_printed_witness:
  "\<exists>j. answer quiet_env fresh_state (Status None) (engine_of fresh_state ()) = (Ok j, engine_of fresh_state ())
     \<and> (\<forall>m. fst (show_answer idle_console False j (idle_client fresh_state)) \<noteq> Panic m)"
proof -
  have "\<exists>j. answer quiet_env fresh_state (Status None) (engine_of fresh_state ()) = (Ok j, engine_of fresh_state ())"
    by (simp add: answer_def handle_local_def handle_inner_def handle_request_def handle_status_def prog_evals
       state_evals status_response_def pool_status_def map_evals)
  then obtain j where "answer quiet_env fresh_state (Status None) (engine_of fresh_state ()) = (Ok j, engine_of fresh_state ())" ..
  from this answers_printed [OF this, of idle_console False "idle_client fresh_state"] show ?thesis by blast
qed

section \<open>Commands without a manager\<close>

text \<open>No manager can be connected to, and nothing else uses the disk while the command sleeps.\<close>

definition alone :: "('w, 'c) console \<Rightarrow> bool" where
  "alone C \<longleftrightarrow> (\<forall>e k. fst (connects C (e, k)) = False \<and> fst (snd (connects C (e, k))) = e)
     \<and> (\<forall>d e k. fst (snd (interrupted_sleep C d (e, k))) = e)"

abbreviation sound_disk :: "('w, 'c) client \<Rightarrow> bool" where
  "sound_disk c \<equiv> disk_ok (disk c)"

definition idle :: "'w engine \<Rightarrow> bool" where
  "idle e \<longleftrightarrow> disk_ok e \<and> \<not> serving e"

lemma keeps_on: "keeps P (\<lambda>_. False) m \<Longrightarrow> keeps (\<lambda>c. P (disk c)) (\<lambda>_. False) (on_disk m)"
  by (auto simp: keeps_def on_disk_def Let_def split: prod.splits res.splits)

lemma keeps_terminal [keeps_intros]: "keeps (\<lambda>c. P (disk c)) W (ask_c f)"
  by (rule keeps_post) (simp add: ask_c_def case_prod_beta Let_def)

lemma sound_sleep: "alone C \<Longrightarrow> keeps (\<lambda>c. P (disk c)) W (ask_both (interrupted_sleep C d))"
  by (rule keeps_post) (simp add: ask_both_def case_prod_beta Let_def alone_def)

lemma alone_dispatch:
  assumes "alone C" "life_ok E" "sound_disk c"
  shows "post (\<lambda>j c'. sound_disk c' \<and> json_get j ''manager_running'' = JBool False \<and> printable j) (\<lambda>_. sound_disk)
    (dispatch C E r c)"
proof -
  define k where "k = snd (snd (connects C (disk c, terminal c)))"
  have "connects C (disk c, terminal c) = (False, (disk c, k))"
    using assms(1) by (simp add: alone_def k_def prod_eq_iff)
  then have "dispatch C E r c = on_disk (dispatch_local E r) (c\<lparr>terminal := k\<rparr>)"
    by (simp add: dispatch_def bind_p_def ask_both_def)
  then show ?thesis
    using dispatch_outcome [OF assms(3,2), of r]
    by (cases "dispatch_local E r (disk c)" rule: outcome_cases) (auto simp: on_disk_def intro: resting_disk)
qed

lemma sound_dispatch: "alone C \<Longrightarrow> life_ok E \<Longrightarrow> keeps sound_disk (\<lambda>_. False) (dispatch C E r)"
  unfolding keeps_iff_post by (auto intro: post_mono [OF alone_dispatch])

lemma sound_follow:
  "alone C \<Longrightarrow> life_ok E \<Longrightarrow> keeps sound_disk (\<lambda>_. False) (follow_logs n C E p rid follow previous)"
  by (induction n arbitrary: previous)
    (auto simp: Let_def intro!: keeps_intros keeps_print sound_dispatch sound_sleep)

interpretation idle: awaiting E idle "\<lambda>_. False" "\<lambda>_. True" for E :: "'w env"
proof
  have "keeps idle (\<lambda>_. False) (run_event E ev)" for ev
    by (rule keeps_post) (auto simp: run_event_def idle_def split: event.split)
  then show "keeps idle (\<lambda>_. False) (events E)"
    unfolding events_def by (intro keeps_intros keeps_ask_world) (auto simp: idle_def)
qed (auto simp: idle_def disk_ok_def)

lemma idle_write: "keeps idle (\<lambda>_. False) (write_config E t)"
  by (rule keeps_post) (auto simp: write_config_def idle_def split: write_outcome.split)

lemma idle_lock: "keeps idle (\<lambda>_. False) (lock E)"
  by (rule keeps_post, rule post_mono [OF lock_spec]) (auto simp: idle_def)

lemma idle_prepare: "keeps idle (\<lambda>_. False) (prepare E)"
  by (rule keeps_post, rule post_mono [OF prepare_spec]) (auto simp: idle_def)

lemma idle_pull: "keeps idle (\<lambda>_. False) (pull E img)"
  unfolding pull_def Let_def docker_pull_def
  by (intro keeps_intros keeps_bind_give idle.keeps_run idle.keeps_image_version)
    (auto intro!: keeps_intros split: docker_outcome.split)

lemma idle_init: "keeps (\<lambda>c. idle (disk c)) (\<lambda>_. False) (run_init E org repo)"
  unfolding run_init_def initialized_def
  by (intro keeps_intros keeps_print keeps_bind_give keeps_on idle_lock idle_write idle.keeps_ask)
    (auto simp: init_profile_def from_sum_def split: sum.splits option.splits)

lemma idle_login: "keeps (\<lambda>c. idle (disk c)) (\<lambda>_. False) (login_request C E profile from_stdin variable)"
  unfolding login_request_def login_token_def Let_def
  by (intro keeps_intros keeps_bind_give keeps_on idle.keeps_ask idle.keeps_perform)
    (auto simp: from_sum_def split: sum.splits)

lemma idle_app: "keeps (\<lambda>c. idle (disk c)) (\<lambda>_. False) (app_request C E profile i installation path variable)"
  unfolding app_request_def key_reference_def Let_def
  by (intro keeps_intros keeps_bind_give keeps_on idle.keeps_app_jwt)
    (auto simp: from_sum_def split: sum.splits)

lemma idle_check: "keeps (\<lambda>c. idle (disk c)) (\<lambda>_. False) (check_config E)"
  unfolding check_config_def
  by (intro keeps_intros keeps_print keeps_bind_give keeps_on keeps_each) (auto split: sum.splits)

lemma idle_systemctl: "keeps (\<lambda>c. idle (disk c)) (\<lambda>_. False) (systemctl C E args)"
  unfolding systemctl_def wsl_def by (intro keeps_intros keeps_on idle.keeps_ask)

lemma systemd_quote_no_panic [simp]: "systemd_quote v \<noteq> Panic p"
  by (auto simp: systemd_quote_def)

lemma idle_install: "keeps (\<lambda>c. idle (disk c)) (\<lambda>_. False) (systemd_install C E)"
  unfolding systemd_install_def config_root_def Let_def
  by (intro keeps_intros keeps_print keeps_bind_give keeps_on idle.keeps_perform idle_systemctl)
    (auto simp: from_sum_def split: sum.splits)

lemma idle_uninstall: "keeps (\<lambda>c. idle (disk c)) (\<lambda>_. False) (systemd_uninstall C E)"
  unfolding systemd_uninstall_def by (intro keeps_intros keeps_print idle_systemctl) simp

lemma idle_service: "keeps (\<lambda>c. idle (disk c)) (\<lambda>_. False) (change_service C E c)"
  by (cases c) (simp_all add: change_service_def idle_install idle_uninstall)

lemma idle_image: "keeps (\<lambda>c. idle (disk c)) (\<lambda>_. False) (pull_image C E img)"
  unfolding pull_image_def by (intro keeps_intros keeps_print keeps_on idle_pull) simp

lemma sound_stop: "alone C \<Longrightarrow> life_ok E \<Longrightarrow> keeps sound_disk (\<lambda>_. False) (stop_waiting C E t w)"
  unfolding stop_waiting_def stop_names_def
  by (intro keeps_intros keeps_bind_give sound_dispatch) auto

lemma sound_apply: "alone C \<Longrightarrow> life_ok E \<Longrightarrow> keeps sound_disk (\<lambda>_. False) (apply_request C E revision)"
  unfolding apply_request_def apply_revision_def read_config_def
  by (intro keeps_intros keeps_bind_give keeps_give sound_dispatch keeps_on)
    (auto simp: from_sum_def split: sum.splits)

lemma idle_sound: "keeps (\<lambda>c. idle (disk c)) (\<lambda>_. False) m \<Longrightarrow> idle (disk c) \<Longrightarrow>
    post (\<lambda>_. sound_disk) (\<lambda>_. sound_disk) (m c)"
  unfolding keeps_iff_post by (rule post_mono [of "\<lambda>_ c. idle (disk c)" "\<lambda>_ c. idle (disk c)"]) (auto simp: idle_def)

lemma sound_request:
  assumes "alone C" "life_ok E" "idle (disk c)" "cmd \<noteq> Cmd_Manager"
  shows "post (\<lambda>_. sound_disk) (\<lambda>_. sound_disk) (request_of n ws C E cmd c)"
proof -
  have sound: "keeps sound_disk (\<lambda>_. False) m \<Longrightarrow> post (\<lambda>_. sound_disk) (\<lambda>_. sound_disk) (m c)" for m :: "('a, 'b, 'x) cmd_act"
    using assms(3) by (auto simp: keeps_iff_post idle_def)
  show ?thesis
  proof (cases "(n, ws, C, E, cmd)" rule: request_of.cases)
    case (18 _ _ _ _ rid p follow)
    then have "cmd = Cmd_Logs rid p follow" by simp
    show ?thesis unfolding \<open>cmd = _\<close> request_of.simps by (intro sound keeps_intros sound_follow assms)
  next
    case (15 _ _ _ _ t force w)
    then have "cmd = Cmd_Stop t force w" by simp
    show ?thesis unfolding \<open>cmd = _\<close> request_of.simps by (intro sound keeps_intros sound_stop assms)
  next
    case (11 _ _ _ _ revision)
    then have "cmd = Cmd_Config (Config_Apply revision)" by simp
    show ?thesis unfolding \<open>cmd = _\<close> request_of.simps sends_def
      by (intro sound keeps_intros sound_apply assms)
  qed (use assms(3,4) in \<open>auto simp: sends_def ends_def idle_def simp del: post_bind post_seq
      intro!: idle_sound keeps_intros idle_init idle_login idle_app idle_check idle_service idle_image\<close>)
qed

lemma await_alone:
  "json_get data ''manager_running'' = JBool False \<Longrightarrow> printable data \<Longrightarrow> sound_disk c \<Longrightarrow>
   post (\<lambda>r c'. sound_disk c' \<and> (\<forall>d. r = Some d \<longrightarrow> printable d)) (\<lambda>_. sound_disk) (await_cleanup n C E as_json data w c)"
  by (auto simp: await_cleanup_def eprintln_def split: option.split)

lemma sound_shown:
  assumes "\<And>d. r = Some d \<Longrightarrow> printable d" "sound_disk c"
  shows "post (\<lambda>_. sound_disk) (\<lambda>_. sound_disk) (shown_answer C as_json r c)"
proof -
  have "keeps sound_disk (\<lambda>_. False) (shown_answer C as_json r)"
    unfolding shown_answer_def using assms(1)
    by (cases r) (auto intro!: keeps_intros keeps_show_answer)
  then show ?thesis using assms(2) by (simp add: keeps_iff_post)
qed

lemma sound_answered:
  assumes "json_get data ''manager_running'' = JBool False" "printable data" "sound_disk c"
  shows "post (\<lambda>_. sound_disk) (\<lambda>_. sound_disk)
    (bind_p (await_cleanup n C E as_json data w) (shown_answer C as_json) c)"
  unfolding post_bind
  by (rule post_mono [OF await_alone [OF assms]]) (auto intro: sound_shown)

lemma command_outcome:
  assumes "alone C" "life_ok E" "disk_ok (disk c)" "\<not> serving (disk c)" "cmd \<noteq> Cmd_Manager"
  shows "post (\<lambda>_. sound_disk) (\<lambda>_. sound_disk) (run_cmd n ws C E as_json cmd c)"
proof -
  have send: "post (\<lambda>_. sound_disk) (\<lambda>_. sound_disk) ((case x of
        Over ended \<Rightarrow> ret ended
      | Send r w \<Rightarrow> bind_p (dispatch C E r) (\<lambda>data.
          bind_p (await_cleanup n C E as_json data w) (shown_answer C as_json))) c1)"
    if "sound_disk c1" for x c1
  proof (cases x)
    case (Send r w)
    then show ?thesis unfolding Send plan.case post_bind [of _ _ "dispatch C E r"]
      by (intro post_mono [OF alone_dispatch [OF assms(1,2) that]]) (auto intro: sound_answered simp del: post_bind)
  qed (use that in simp)
  have "idle (disk c)" using assms(3,4) by (simp add: idle_def)
  then have "post (\<lambda>_ c'. idle (disk c')) (\<lambda>_ c'. idle (disk c')) (on_disk (prepare E) c)"
    using keeps_on [OF idle_prepare, of E] by (auto simp: keeps_iff_post)
  then show ?thesis
    unfolding run_cmd_def post_seq post_bind [of _ _ "request_of n ws C E cmd"]
    by (rule post_mono)
      (auto simp: idle_def simp del: post_bind intro!: send post_mono [OF sound_request [OF assms(1,2) _ assms(5)]])
qed

lemma home_sel [simp]: "life_ok (E\<lparr>home := h\<rparr>) = life_ok E"
  by (simp add: life_ok_def reads_ok_def uuids_ok_def dates_ok_def)

lemma cli_outcome:
  assumes "alone C" "life_ok E" "disk_ok (disk c)" "\<not> serving (disk c)" "cl_command cmd \<noteq> Cmd_Manager"
  shows "post (\<lambda>_. sound_disk) (\<lambda>_. sound_disk) (run_cli n ws C E sh cmd c)"
proof (cases "paths_new (sh_current sh) (case cl_home cmd of
         Some h \<Rightarrow> h | None \<Rightarrow> default_home (sh_xdg sh) (sh_user sh))")
  case (Ok h)
  have "life_ok (E\<lparr>home := h\<rparr>)" using assms(2) by simp
  from command_outcome [OF assms(1) this assms(3-5)] Ok show ?thesis by (simp add: run_cli_def post_give)
next
  case (Panic m)
  then show ?thesis by (auto simp: paths_new_def from_sum_def split: if_splits sum.splits)
qed (use assms(3) in \<open>simp add: run_cli_def post_give\<close>)


definition lone_console :: "(unit, nat) console" where
  "lone_console = idle_console\<lparr>connects := Pair False\<rparr>"

definition lone_client :: "(unit, nat) client" where
  "lone_client = \<lparr>disk = (engine_of fresh_state ())\<lparr>serving := False\<rparr>, terminal = 0, shown = [], noted = []\<rparr>"

definition lone_shell :: shell where
  "lone_shell = \<lparr>sh_current = Inr ''/home'', sh_xdg = None, sh_user = None\<rparr>"

definition status_command :: cli where
  "status_command = \<lparr>cl_home = Some ''m'', cl_json = False, cl_command = Cmd_Status None\<rparr>"


section \<open>Initialising is valid\<close>

lemma join_absolute: "is_absolute d \<Longrightarrow> is_absolute (join d h)"
  by (auto simp: is_absolute_def starts_with_prefix join_def prefix_def)

lemma lossy_absolute: "is_absolute p \<Longrightarrow> is_absolute (utf8_lossy p)"
proof -
  assume "is_absolute p"
  then obtain q where p: "p = CHR ''/'' # q" by (auto simp: is_absolute_def starts_with_prefix prefix_def)
  show ?thesis unfolding p
    by (simp add: utf8_lossy.simps [of "_ # _"] utf8_width_def byte_def is_absolute_def starts_with_prefix)
qed

lemma org_name: "valid_org n \<Longrightarrow> valid_name n"
  by (auto simp: valid_org_def valid_name_def list_all_iff)

lemma repo_owner:
  assumes "valid_repo r"
  shows "valid_org (hd (split_at (CHR ''/'') r))"
proof -
  obtain owner rest where "r = owner @ CHR ''/'' # rest" "CHR ''/'' \<notin> set owner" "valid_org owner"
    using assms by (auto simp: valid_repo_def split_once_Some split: option.splits)
  then show ?thesis by (simp add: split_at_free_prefix)
qed

lemma reference_absolute: "is_absolute p \<Longrightarrow> validate_reference (''file:'' @ utf8_lossy p) = Ok ()"
  by (simp add: validate_reference_def lossy_absolute)

lemma write_config_file: "write_config E t e = (Ok u, e') \<Longrightarrow> config_file e' = Inr t"
  by (cases "fst (atomic_write E (config_path (home E)) t (world e))") (auto simp: write_config_def returns)

lemma init_config_valid:
  assumes "valid_name profile" "is_absolute (home E)"
  shows "well_formed_config (init_config E profile)"
proof -
  have "validate (init_config E profile) = Ok ()"
    using assms reference_absolute [of "join (join (home E) ''credentials'') profile"]
    by (simp add: init_config_def default_config_def validate_def validate_auth_def auth_pat_def join_absolute
        total_replicas_def default_manager_def)
  then show ?thesis by (simp add: validate_Ok)
qed

text \<open>
  C37: an initialisation that succeeds leaves a valid configuration in config.toml, with a
  credential reference for the given owner, wherever the command was started.
\<close>

theorem init_writes_valid_config:
  assumes "run_init E org repo c = (Ok (), c')" "paths_new (Inr current) h = Ok (home E)" "is_absolute current"
  shows "\<exists>profile text. init_profile org repo = Ok profile \<and> well_formed_config (init_config E profile)
     \<and> to_toml E (init_config E profile) = Inr text \<and> config_file (disk c') = Inr text"
proof -
  have "is_absolute (home E)"
    using assms(2) join_absolute [OF assms(3), of h] by (auto simp: paths_new_def split: if_splits)
  moreover obtain profile t where p: "init_profile org repo = Ok profile" "to_toml E (init_config E profile) = Inr t"
    "config_file (disk c') = Inr t"
    and v: "case org of Some n \<Rightarrow> valid_org n | None \<Rightarrow> True" "case repo of Some n \<Rightarrow> valid_repo n | None \<Rightarrow> True"
    using assms(1) by (auto simp: run_init_def returns println_def print_def dest!: write_config_file)
  moreover have "valid_name profile"
    using p(1) v org_name repo_owner by (auto simp: init_profile_def split: option.splits)
  ultimately show ?thesis using init_config_valid by blast
qed

theorem init_writes_valid_config_witness:
  "\<exists>profile text c'. run_init quiet_env (Some ''acme'') None (idle_client fresh_state) = (Ok (), c')
     \<and> init_profile (Some ''acme'') None = Ok profile \<and> well_formed_config (init_config quiet_env profile)
     \<and> config_file (disk c') = Inr text"
proof -
  obtain c' where r: "run_init quiet_env (Some ''acme'') None (idle_client fresh_state) = (Ok (), c')"
    by (simp add: run_init_def initialized_def on_disk_def idle_client_def lock_def prog_evals valid_org_def
        init_profile_def write_config_def println_def print_def text_evals)
  moreover have "paths_new (Inr ''/home'') ''m'' = Ok (home quiet_env)" "is_absolute ''/home''"
    by (simp_all add: paths_new_def is_absolute_def text_evals join_def)
  ultimately show ?thesis using init_writes_valid_config [OF r, of "''/home''" "''m''"] by blast
qed

section \<open>Accepted arguments\<close>

text \<open>
  The arguments that clap lets through name what they act on: no command fails for the want of a
  target, an owner or a key, or for having two of them, and nothing is unwrapped in vain.
\<close>

lemma accepted_owner: "accepts (Cmd_Init org repo) \<Longrightarrow> is_Ok (init_profile org repo)"
  by (auto simp: exactly_one_def init_profile_def split: option.split)

lemma accepted_targets:
  "accepts_target t \<Longrightarrow> targets s (tg_pool t) (tg_all t) \<noteq> Err (Msg ''specify a pool or --all'')"
  by (auto simp: accepts_target_def targets_def ensure_def split: option.split)

lemma accepted_wait:
  "accepts_target t \<Longrightarrow> \<not> tg_all t \<Longrightarrow> \<exists>p. tg_pool t = Some p \<and> stop_names C E t c = (Ok [p], c)"
  by (auto simp: accepts_target_def stop_names_def bind_p_def give_def ret_def)

lemma accepted_key:
  "accepts (Cmd_Auth (Auth_App profile i installation path variable)) \<Longrightarrow>
   key_reference C path variable c = (Err er, c') \<Longrightarrow> path \<noteq> None"
  by (auto simp: exactly_one_def key_reference_def bind_p_def give_def ret_def)

end
