(* ===== verification/Progress.thy ===== *)
theory Progress
  imports Lifecycle
begin

text \<open>
  Progress of the serving loop: the cursor of \<open>tick\<close> (src/manager.rs) visits the pools in turn, so
  no pool is starved by the others or by requests, and the reconciliation that finds a deleted
  pool drained completes its deletion.
\<close>

section \<open>The cursor\<close>

text \<open>Nothing but a tick moves the cursor.\<close>

interpretation turned: counting E "\<lambda>e. cursor e = k" "\<lambda>e. cursor e = k" "\<lambda>_. True"
  for E :: "'w env" and k :: u64
  by unfold_locales (auto simp: bump_epoch_def)

lemma turned_local: "keeps (\<lambda>e. cursor e = k) (\<lambda>e. cursor e = k) (handle_local E r)"
  by (rule turned.any_handle) (simp add: bump_epoch_def)

text \<open>The pool whose turn is next, and what it is for a tick to attend to a pool.\<close>

definition next_pool :: "'w engine \<Rightarrow> string" where
  "next_pool e = (let names = bm_keys (s_pools (st e)) in names ! (unat (cursor e) mod length names))"

definition attends :: "'w env \<Rightarrow> string \<Rightarrow> 'w engine \<Rightarrow> bool" where
  "attends E name e \<longleftrightarrow> (\<exists>ps. bm_get (s_pools (st e)) name = Some ps
     \<and> (let (now, w) = clock E (world e); e1 = e\<lparr>cursor := cursor e + 1, world := w\<rparr> in
        tick E e =
          (if now < ps_retry_at ps \<and> ps_retry_scope ps = Observation then (Ok (), e1)
           else turn E name (ps_retry_at ps) now e1)))"

lemma tick_attends:
  assumes "bm_keys (s_pools (st e)) \<noteq> []"
  shows "attends E (next_pool e) e"
proof -
  have "next_pool e \<in> set (bm_keys (s_pools (st e)))"
    using assms by (simp add: next_pool_def Let_def)
  then obtain ps where ps: "bm_get (s_pools (st e)) (next_pool e) = Some ps"
    using bm.in_keys_lookup by blast
  then show ?thesis
    using assms
    by (simp add: attends_def next_pool_def tick_def Let_def bind_p_def seq_p_def reads_def modify_def
        ask_def give_def ret_def case_prod_beta)
qed

lemma tick_cursor:
  assumes "bm_keys (s_pools (st e)) \<noteq> []"
  shows "cursor (snd (tick E e)) = cursor e + 1"
proof -
  have "keeps (\<lambda>e1. cursor e1 = k) (\<lambda>e1. cursor e1 = k) (turn E (next_pool e) a n)" for a n k
    by (intro turned.turn_calls) auto
  from keeps_end [OF this refl] have turn: "cursor (snd (turn E (next_pool e) a n e1)) = cursor e1" for a n e1
    by simp
  from tick_attends [OF assms, of E] show ?thesis
    by (auto simp: attends_def Let_def case_prod_beta turn)
qed

lemma local_cursor: "cursor (snd (handle_local E r e)) = cursor e"
  by (rule keeps_end [OF turned_local]) simp

section \<open>Round robin\<close>

text \<open>The ticks of a loop that has run to its end, and where each found the cursor.\<close>

definition ticks :: "wakeup list \<Rightarrow> nat" where
  "ticks ws = length (filter (\<lambda>w. w = Due) ws)"

lemma ticks_simps [simp]: "ticks [] = 0" "ticks (Due # ws) = Suc (ticks ws)"
  "w \<noteq> Due \<Longrightarrow> ticks (w # ws) = ticks ws"
  by (simp_all add: ticks_def)

definition reaches :: "'w env \<Rightarrow> wakeup list \<Rightarrow> 'w engine \<Rightarrow> wakeup list \<Rightarrow> 'w engine \<Rightarrow> bool" where
  "reaches E ws e us e1 \<longleftrightarrow> (\<exists>vs. ws = us @ Due # vs) \<and> serve_loop E us e = (Ok (), e1)"

lemma reaches_Due: "reaches E (Due # ws) e [] e"
  by (simp add: reaches_def ret_def)

lemma reaches_later:
  assumes "reaches E ws e us e1" "w \<in> {Due} \<union> range Arrived" "serve_loop E [w] e0 = (Ok (), e)"
  shows "reaches E (w # ws) e0 (w # us) e1"
  using assms by (auto simp: reaches_def seq_returns basic_returns)

lemma loop_reaches:
  assumes "serve_loop E ws e = (Ok (), e')" "Signalled \<notin> set ws" "j < ticks ws"
    and pools: "\<And>us e1. reaches E ws e us e1 \<Longrightarrow> bm_keys (s_pools (st e1)) \<noteq> []"
  shows "\<exists>us e1. reaches E ws e us e1 \<and> cursor e1 = cursor e + of_nat j"
  using assms
proof (induction ws arbitrary: e j)
  case (Cons w ws)
  have later: ?case if "w \<in> {Due} \<union> range Arrived" "serve_loop E [w] e = (Ok (), e0)"
    "serve_loop E ws e0 = (Ok (), e')" "k < ticks ws" "cursor e0 + of_nat k = cursor e + of_nat j" for e0 k
  proof -
    note up = reaches_later [OF _ that(1,2)]
    have "\<exists>us e1. reaches E ws e0 us e1 \<and> cursor e1 = cursor e0 + of_nat k"
      using Cons.prems(2,4) by (intro Cons.IH that(3,4)) (auto dest: up)
    then show ?thesis using up that(5) by fastforce
  qed
  show ?case
  proof (cases w)
    case (Arrived r)
    let ?e0 = "snd (handle_local E r e)"
    have "serve_loop E [w] e = (Ok (), ?e0)" "serve_loop E ws ?e0 = (Ok (), e')"
      using Cons.prems(1) Arrived local_cursor [of E r e] by (cases "handle_local E r e" rule: outcome_cases; auto simp: seq_p_def bind_p_def attempt_def ret_def)+
    then show ?thesis
      using Cons.prems(3) Arrived later [of ?e0 j] by (simp add: local_cursor)
  next
    case Due
    note pools = Cons.prems(4) [unfolded Due, OF reaches_Due]
    show ?thesis
    proof (cases j)
      case 0
      then show ?thesis using reaches_Due [of E ws e] unfolding Due by auto
    next
      case (Suc k)
      obtain e0 where "tick E e = (Ok (), e0)" "serve_loop E ws e0 = (Ok (), e')"
        using Cons.prems(1) Due by (auto simp: seq_returns)
      then show ?thesis
        using Cons.prems(3) Due Suc tick_cursor [OF pools, of E] later [of e0 k]
        by (simp add: seq_returns basic_returns)
    qed
  qed (use Cons.prems in \<open>auto simp: throw_def\<close>)
qed simp

lemma round_robin_index:
  assumes "i < n"
  shows "\<exists>j < n. ((c :: nat) + j) mod n = i"
proof (intro exI conjI)
  show "(i + (n - c mod n)) mod n < n" using assms by simp
  have "(c + (i + (n - c mod n)) mod n) mod n = (c mod n + (i + (n - c mod n))) mod n"
    by (simp add: mod_add_left_eq mod_add_right_eq)
  also have "c mod n + (i + (n - c mod n)) = i + n"
    using mod_less_divisor [of n c] assms by linarith
  finally show "(c + (i + (n - c mod n)) mod n) mod n = i" using assms by simp
qed


text \<open>A second pool, before the retry of its observation.\<close>

definition two_pools :: state where
  "two_pools = fresh_state\<lparr>s_pools := [(''api'', (default_pool_state ''p2'')\<lparr>ps_retry_at := 2000\<rparr>),
     (''web'', sample_pool_state)]\<rparr>"

lemma two_ticks:
  "\<exists>e0 e1. tick quiet_env (engine_of two_pools ()) = (Ok (), e0)
     \<and> bm_keys (s_pools (st e0)) = [''api'', ''web''] \<and> cursor e0 = 1 \<and> tick quiet_env e0 = (Ok (), e1)"
  by (simp add: two_pools_def prog_evals state_evals map_evals docker_evals github_evals
      reconcile_evals text_evals)


section \<open>Deletion\<close>

lemma durable_remove:
  "durable (s\<lparr>s_pools := bm_remove n (s_pools s)\<rparr>) =
     (durable s)\<lparr>s_pools := bm_remove n (s_pools (durable s))\<rparr>"
  by (simp add: durable_def bm_remove_def filter_map comp_def case_prod_beta)

text \<open>A reconciliation observes the containers, and removes the pool at once if it is drained.\<close>

lemma reconcile_observes:
  assumes ps: "bm_get (s_pools (st e)) name = Some ps" "ps_deleting ps" "\<not> ps_running ps"
    and "find_pool name (s_config (st e)) = Some p"
  shows "\<exists>f. reconcile E name allow e = bind_p (external (docker_list E (s_manager_id (st e)))) f e
    \<and> (\<forall>cs n. keeps (\<lambda>e. n \<le> mutations e) (\<lambda>e. n \<le> mutations e) (f cs))
    \<and> (\<forall>cs e1. pool_runs (ps_id ps) (st e1) = [] \<longrightarrow>
         f cs e1 = seq_p (delete_drained E name) (ret 0) e1)"
  unfolding reconcile_def
  by (subst bind_reads, simp only: assms or_error.simps or_panic.simps bind_give_Ok Let_def,
      intro exI conjI, rule refl)
    (intro allI keeps_intros growing.reconcile_runs_calls;
      simp add: bind_reads ps when_p_def)+

text \<open>
  C17: a pool that is being deleted and has no run left is gone after a reconciliation of it that
  succeeds undisturbed: from memory, from the store and from the configuration file, which now
  holds the durable configuration; whatever is durable of the other pools and of their runs is as it
  was.
\<close>

theorem drained_pool_removed:
  assumes reads: "reads_ok E" and e: "wf_engine e" "reconcile_epoch e \<noteq> None"
    and ps: "bm_get (s_pools (st e)) name = Some ps" "ps_deleting ps" "\<not> ps_running ps"
      "pool_runs (ps_id ps) (st e) = []"
    and fin: "reconcile E name allow e = (Ok n, e')" "mutations e' = mutations e"
  shows "s_config (st e') = without_pool name (s_config (st e))
    \<and> s_pools (durable (st e')) = bm_remove name (s_pools (durable (st e)))
    \<and> s_runs (durable (st e')) = s_runs (durable (st e))
    \<and> row e' = Some (st e')
    \<and> (\<exists>text. to_toml E (s_config (st e')) = Inr text \<and> config_file e' = Inr text
         \<and> s_file_hash (st e') = sha256 E text)"
proof -
  obtain p where p: "find_pool name (s_config (st e)) = Some p"
    using fin(1) by (cases "find_pool name (s_config (st e))") (auto simp: reconcile_def returns)
  obtain f where f: "reconcile E name allow e = bind_p (external (docker_list E (s_manager_id (st e)))) f e"
    and mono: "\<And>cs n. keeps (\<lambda>e. n \<le> mutations e) (\<lambda>e. n \<le> mutations e) (f cs)"
    and rest: "\<And>cs e1. pool_runs (ps_id ps) (st e1) = [] \<Longrightarrow> f cs e1 = seq_p (delete_drained E name) (ret 0) e1"
    using reconcile_observes [OF ps(1-3) p, of E allow] by auto
  obtain cs e1 where e1: "external (docker_list E (s_manager_id (st e))) e = (Ok cs, e1)" "f cs e1 = (Ok n, e')"
    using fin(1) unfolding f by (auto simp: returns)
  have "calm e e1 \<and> (mutations e1 = mutations e \<or> wrapped e e1)"
    using external_step [OF calm_futures(2) reads e, of "s_manager_id (st e)"] e1(1) by simp
  moreover have "mutations e1 \<le> mutations e'"
    using keeps_snd [OF mono refl, of e1 cs] e1(2) by simp
  ultimately have same: "durable (st e1) = durable (st e)"
    using fin(2) by (auto simp: calm_def wrapped_def)
  have "length (pool_runs (ps_id ps) (st e1)) = 0"
    using durable_pool_runs [OF same, of "ps_id ps"] ps(4) by simp
  then have "seq_p (delete_drained E name) (ret 0) e1 = (Ok n, e')" using rest e1(2) by simp
  then obtain e2 where e2: "commit_config E (without_pool name (s_config (st e1))) e2 = (Ok (), e')"
    "st e2 = (st e1)\<lparr>s_pools := bm_remove name (s_pools (st e1))\<rparr>"
    by (auto simp: delete_drained_def clean_file_def read_config_def set_st_with_def set_st_def returns)
  have config: "s_config (st e1) = s_config (st e)" using same by (metis durable_sel(1))
  have e3: "durable (st e2) = (durable (st e))\<lparr>s_pools := bm_remove name (s_pools (durable (st e)))\<rparr>"
    unfolding e2(2) same [symmetric] by (rule durable_remove)
  obtain tx where written: "to_toml E (s_config (st e')) = Inr tx" "config_file e' = Inr tx"
    "st e' = committed_state E (without_pool name (s_config (st e1))) tx (st e2)" "row e' = Some (st e')"
    using commit_returns [OF e2(1)] by auto
  have "s_pools (durable (st e')) = s_pools (durable (st e2))" "s_runs (durable (st e')) = s_runs (durable (st e2))"
    using written(3) by (simp_all add: durable_def committed_state_def)
  then show ?thesis using written config e3 by (simp add: committed_state_def)
qed

definition draining_engine :: "unit engine" where
  "draining_engine = (engine_of
     (update_pool ''web'' (\<lambda>p. p\<lparr>ps_running := False, ps_deleting := True\<rparr>) fresh_state) ())
       \<lparr>reconcile_epoch := Some 0\<rparr>"

lemma drained: "\<exists>e'. reconcile quiet_env ''web'' True draining_engine = (Ok 0, e') \<and> mutations e' = 0"
  by (simp add: draining_engine_def delete_drained_def without_pool_def handle_evals commit_evals
      prog_evals state_evals map_evals docker_evals reconcile_evals bm_remove_def)

theorem drained_pool_removed_witness:
  "\<exists>e'. reconcile quiet_env ''web'' True draining_engine = (Ok 0, e') \<and> s_pools (durable (st e')) = []
     \<and> row e' = Some (st e')"
proof -
  obtain e' where e': "reconcile quiet_env ''web'' True draining_engine = (Ok 0, e')" "mutations e' = 0"
    using drained by blast
  have wf: "wf_engine draining_engine"
    using wf_update_pool [OF fresh_wf] by (simp add: draining_engine_def wf_engine_def)
  have "bm_get (s_pools (st draining_engine)) ''web'' =
      Some (sample_pool_state\<lparr>ps_running := False, ps_deleting := True\<rparr>)"
    "s_runs (st draining_engine) = []" "reconcile_epoch draining_engine \<noteq> None"
    "mutations draining_engine = 0" "bm_remove ''web'' (s_pools (durable (st draining_engine))) = []"
    by (simp_all add: draining_engine_def fresh_state_def sample_state_def durable_def bm_remove_def
        update_pool_def bm_update_def)
  from drained_pool_removed [OF _ wf this(3,1) _ _ _ e'(1)] this(2,4,5) e' show ?thesis
    by (simp add: pool_runs_def bm_values_def)
qed

end
