(* ===== verification/Utf16.thy ===== *)
theory Utf16
  imports Utf8
begin

text \<open>
  Characters, and the UTF-16 of the interfaces of Windows: \<open>str::chars\<close>, \<open>str::encode_utf16\<close> and
  \<open>String::from_utf16_lossy\<close> of Rust's library, with the round trip between the two encodings.
\<close>

type_synonym u16 = "16 word"

section \<open>Characters\<close>

text \<open>The bytes of one character, and the code point they stand for.\<close>

fun code_point :: "string \<Rightarrow> nat" where
  "code_point [a] = byte a"
| "code_point [a, b] = (byte a - 192) * 64 + (byte b - 128)"
| "code_point [a, b, c] = ((byte a - 224) * 64 + (byte b - 128)) * 64 + (byte c - 128)"
| "code_point [a, b, c, d] =
     (((byte a - 240) * 64 + (byte b - 128)) * 64 + (byte c - 128)) * 64 + (byte d - 128)"
| "code_point _ = 0"

definition char_bytes :: "nat \<Rightarrow> nat list" where
  "char_bytes n =
     (if n < 128 then [n]
      else if n < 2048 then [192 + n div 64, 128 + n mod 64]
      else if n < 65536 then [224 + n div 64 div 64, 128 + n div 64 mod 64, 128 + n mod 64]
      else [240 + n div 64 div 64 div 64, 128 + n div 64 div 64 mod 64, 128 + n div 64 mod 64, 128 + n mod 64])"

definition utf8_char :: "nat \<Rightarrow> string" where
  "utf8_char n = bytes (char_bytes n)"

text \<open>A \<open>char\<close> is a code point that is no surrogate.\<close>

definition scalar :: "nat \<Rightarrow> bool" where
  "scalar n \<longleftrightarrow> n < 1114112 \<and> \<not> (55296 \<le> n \<and> n < 57344)"

text \<open>\<open>str::chars\<close>.\<close>

function chars :: "string \<Rightarrow> nat list" where
  "chars s = (if s = [] then [] else
     (let n = item_length (utf8_next s) in code_point (take n s) # chars (drop n s)))"
  by pat_completeness auto
termination
  by (relation "measure length") (use utf8_next_length in fastforce)+

declare chars.simps [simp del]

lemma byte_bound: "byte c < 256"
  by (simp add: byte_def)

lemma bytes_byte: "map byte s = ns \<Longrightarrow> bytes ns = s"
  by (auto simp: bytes_def byte_def comp_def)

text \<open>The bytes of a valid character.\<close>

lemma continue_char_bytes:
  "continue_char got k s = Valid n \<Longrightarrow> list_all continuation (take k s)"
  by (induction got k s rule: continue_char.induct) (auto split: if_splits)

lemma digits_64:
  assumes "b < (64::nat)"
  shows "(a * 64 + b) div 64 = a" "(a * 64 + b) mod 64 = b"
  using assms by simp_all

lemma second_bounds:
  assumes "second_ok a b"
  shows "128 \<le> b" "b < 192" "a = 224 \<Longrightarrow> 160 \<le> b" "a = 237 \<Longrightarrow> b < 160" "a = 240 \<Longrightarrow> 144 \<le> b"
    "a = 244 \<Longrightarrow> b < 144"
  using assms by (auto simp: second_ok_def split: if_splits)

lemma char_two:
  assumes "2 \<le> x" "x < 32" "y < 64"
  shows "char_bytes (x * 64 + y) = [192 + x, 128 + y]" "scalar (x * 64 + y)"
proof -
  have "128 \<le> x * 64 + y" "x * 64 + y < 2048" using assms by linarith+
  then show "char_bytes (x * 64 + y) = [192 + x, 128 + y]" "scalar (x * 64 + y)"
    by (simp_all add: char_bytes_def scalar_def digits_64 [OF assms(3)] assms(3))
qed

lemma char_bytes_three:
  assumes "32 \<le> m" "m < 1024" "z < 64"
  shows "char_bytes (m * 64 + z) = [224 + m div 64, 128 + m mod 64, 128 + z]"
proof -
  have "2048 \<le> m * 64 + z" "m * 64 + z < 65536" using assms by linarith+
  then show ?thesis by (simp add: char_bytes_def digits_64 [OF assms(3)] assms(3))
qed

lemma char_bytes_four:
  assumes "1024 \<le> m" "u < 64"
  shows "char_bytes (m * 64 + u) = [240 + m div 64 div 64, 128 + m div 64 mod 64, 128 + m mod 64, 128 + u]"
proof -
  have "65536 \<le> m * 64 + u" using assms by linarith
  then show ?thesis by (simp add: char_bytes_def digits_64 [OF assms(2)] assms(2))
qed

lemma char_three:
  assumes "x < 16" "y < 64" "z < 64" "x = 0 \<Longrightarrow> 32 \<le> y" "x = 13 \<Longrightarrow> y < 32"
  shows "char_bytes ((x * 64 + y) * 64 + z) = [224 + x, 128 + y, 128 + z]" "scalar ((x * 64 + y) * 64 + z)"
proof -
  have m: "32 \<le> x * 64 + y" "x * 64 + y < 1024" using assms(1,2,4) by (cases "x = 0"; linarith)+
  show "char_bytes ((x * 64 + y) * 64 + z) = [224 + x, 128 + y, 128 + z]"
    unfolding char_bytes_three [OF m assms(3)] digits_64 [OF assms(2)] by (rule refl)
  consider "x < 13" | "x = 13" | "13 < x" by linarith
  then show "scalar ((x * 64 + y) * 64 + z)"
    using assms m by cases (auto simp: scalar_def)
qed

lemma char_four:
  assumes "x < 5" "y < 64" "z < 64" "u < 64" "x = 0 \<Longrightarrow> 16 \<le> y" "x = 4 \<Longrightarrow> y < 16"
  shows "char_bytes (((x * 64 + y) * 64 + z) * 64 + u) = [240 + x, 128 + y, 128 + z, 128 + u]"
    "scalar (((x * 64 + y) * 64 + z) * 64 + u)"
proof -
  have k: "16 \<le> x * 64 + y" using assms(5) by (cases "x = 0") linarith+
  have "x * 64 + y < 272" using assms(1,2,6) by (cases "x = 4") linarith+
  then show "scalar (((x * 64 + y) * 64 + z) * 64 + u)"
    using k assms(3,4) by (simp add: scalar_def)
  have m: "1024 \<le> (x * 64 + y) * 64 + z" using k by (simp add: add_mult_distrib)
  show "char_bytes (((x * 64 + y) * 64 + z) * 64 + u) = [240 + x, 128 + y, 128 + z, 128 + u]"
    unfolding char_bytes_four [OF m assms(4)] digits_64 [OF assms(3)] digits_64 [OF assms(2)] by (rule refl)
qed

lemma valid_char:
  assumes "utf8_next s = Valid n" "s \<noteq> []"
  shows "utf8_char (code_point (take n s)) = take n s \<and> scalar (code_point (take n s))"
proof -
  obtain a r where s: "s = a # r" using assms(2) by (cases s) auto
  show ?thesis
  proof (cases "byte a < 128")
    case True
    then show ?thesis using assms s
      by (auto simp: utf8_width_def utf8_char_def char_bytes_def scalar_def bytes_byte)
  next
    case False
    then obtain b u where r: "r = b # u" "second_ok (byte a) (byte b)" "utf8_width (byte a) \<noteq> 0"
      "continue_char 2 (utf8_width (byte a) - 2) u = Valid n"
      using assms s by (auto simp: utf8_width_def split: if_splits list.splits)
    note cont = continue_char_bytes [OF r(4)] and len = continue_char_take [OF r(4)]
    consider "194 \<le> byte a \<and> byte a < 224" | "224 \<le> byte a \<and> byte a < 240" | "240 \<le> byte a \<and> byte a < 245"
      using r(3) False by (auto simp: utf8_width_def split: if_splits)
    then show ?thesis
    proof cases
      case 1
      then have n: "n = 2" "utf8_width (byte a) = 2" using len False by (auto simp: utf8_width_def)
      note b = second_bounds [OF r(2)]
      have "2 \<le> byte a - 192" "byte a - 192 < 32" "byte b - 128 < 64" using 1 b by linarith+
      from char_two [OF this] 1 b show ?thesis by (simp add: s r(1) n utf8_char_def bytes_byte)
    next
      case 2
      then have w: "utf8_width (byte a) = 3" by (simp add: utf8_width_def)
      then obtain c v where u: "u = c # v" "n = 3" using len [of "[]"] by (cases u) auto
      note b = second_bounds [OF r(2)]
      have c: "128 \<le> byte c" "byte c < 192" using cont u w by (auto simp: continuation_def)
      have "byte a - 224 < 16" "byte b - 128 < 64" "byte c - 128 < 64"
        "byte a - 224 = 0 \<Longrightarrow> 32 \<le> byte b - 128" "byte a - 224 = 13 \<Longrightarrow> byte b - 128 < 32"
        using 2 b c by linarith+
      from char_three [OF this] 2 b c show ?thesis by (simp add: s r(1) u utf8_char_def bytes_byte)
    next
      case 3
      then have w: "utf8_width (byte a) = 4" by (simp add: utf8_width_def)
      then obtain c d v where u: "u = c # d # v" "n = 4" using len [of "[]"]
        by (cases u; cases "tl u") auto
      note b = second_bounds [OF r(2)]
      have c: "128 \<le> byte c" "byte c < 192" "128 \<le> byte d" "byte d < 192"
        using cont u w by (auto simp: continuation_def)
      have "byte a - 240 < 5" "byte b - 128 < 64" "byte c - 128 < 64" "byte d - 128 < 64"
        "byte a - 240 = 0 \<Longrightarrow> 16 \<le> byte b - 128" "byte a - 240 = 4 \<Longrightarrow> byte b - 128 < 16"
        using 3 b c by linarith+
      from char_four [OF this] 3 b c show ?thesis by (simp add: s r(1) u utf8_char_def bytes_byte)
    qed
  qed
qed

lemma chars_Cons:
  assumes "s \<noteq> []" "valid_utf8 s"
  shows "\<exists>n. 0 < n \<and> scalar (code_point (take n s)) \<and> utf8_char (code_point (take n s)) = take n s
     \<and> valid_utf8 (drop n s) \<and> chars s = code_point (take n s) # chars (drop n s)"
proof -
  obtain n where n: "utf8_next s = Valid n" "0 < n" "valid_utf8 (drop n s)"
    using valid_utf8_step [OF assms] by blast
  with valid_char [OF n(1) assms(1)] assms(1) show ?thesis
    by (intro exI [of _ n]) (simp add: chars.simps [of s] item_length_def Let_def)
qed

lemma chars_induct [consumes 1, case_names Nil Cons]:
  assumes "valid_utf8 s" "P []"
    "\<And>n s. 0 < n \<Longrightarrow> scalar (code_point (take n s)) \<Longrightarrow> utf8_char (code_point (take n s)) = take n s \<Longrightarrow>
       chars s = code_point (take n s) # chars (drop n s) \<Longrightarrow> P (drop n s) \<Longrightarrow> P s"
  shows "P s"
  using assms(1)
proof (induction "length s" arbitrary: s rule: less_induct)
  case less
  show ?case
  proof (cases "s = []")
    case False
    from chars_Cons [OF False less.prems] obtain n where n: "0 < n" "scalar (code_point (take n s))"
      "utf8_char (code_point (take n s)) = take n s" "valid_utf8 (drop n s)"
      "chars s = code_point (take n s) # chars (drop n s)" by blast
    have "P (drop n s)" using False n(1,4) by (intro less.hyps) auto
    with assms(3) n show ?thesis by blast
  qed (simp add: assms(2))
qed

section \<open>UTF-16\<close>

text \<open>\<open>str::encode_utf16\<close>, and \<open>String::from_utf16_lossy\<close>: an unpaired surrogate becomes U+FFFD.\<close>

definition utf16_units :: "nat \<Rightarrow> u16 list" where
  "utf16_units n =
     (if n < 65536 then [of_nat n]
      else [of_nat (55296 + (n - 65536) div 1024), of_nat (56320 + (n - 65536) mod 1024)])"

definition encode_utf16 :: "string \<Rightarrow> u16 list" where
  "encode_utf16 s = concat (map utf16_units (chars s))"

fun decode_utf16 :: "u16 list \<Rightarrow> nat list" where
  "decode_utf16 [] = []"
| "decode_utf16 [u] = [if u < 55296 \<or> 57344 \<le> u then unat u else 65533]"
| "decode_utf16 (u # v # us) =
     (if u < 55296 \<or> 57344 \<le> u then unat u # decode_utf16 (v # us)
      else if u < 56320 \<and> 56320 \<le> v \<and> v < 57344 then
        (65536 + (unat u - 55296) * 1024 + (unat v - 56320)) # decode_utf16 us
      else 65533 # decode_utf16 (v # us))"

definition from_utf16_lossy :: "u16 list \<Rightarrow> string" where
  "from_utf16_lossy us = concat (map utf8_char (decode_utf16 us))"

lemma unat_u16 [simp]: "n < 65536 \<Longrightarrow> unat (of_nat n :: u16) = n"
  by (simp add: unat_of_nat take_bit_eq_mod)

lemma decode_units:
  assumes "scalar n"
  shows "decode_utf16 (utf16_units n @ us) = n # decode_utf16 us"
proof (cases "n < 65536")
  case True
  then have "(of_nat n :: u16) < 55296 \<or> 57344 \<le> (of_nat n :: u16)"
    using assms by (simp add: scalar_def word_less_nat_alt word_le_nat_alt) linarith
  with True show ?thesis by (cases us) (simp_all add: utf16_units_def)
next
  case False
  let ?h = "55296 + (n - 65536) div 1024" and ?l = "56320 + (n - 65536) mod 1024"
  have h: "?h < 56320" "?l < 57344" using assms by (auto simp: scalar_def)
  have units: "unat (of_nat ?h :: u16) = ?h" "unat (of_nat ?l :: u16) = ?l"
    using h by (intro unat_u16; linarith)+
  have "n = 65536 + (?h - 55296) * 1024 + (?l - 56320)" using False by simp
  then show ?thesis
    using False h units by (simp add: utf16_units_def word_less_nat_alt word_le_nat_alt del: of_nat_add)
qed

text \<open>Text that is written as UTF-16 is read back as it was.\<close>

lemma utf16_roundtrip:
  assumes "valid_utf8 s"
  shows "from_utf16_lossy (encode_utf16 s) = s"
  using assms
proof (induction rule: chars_induct)
  case Nil
  then show ?case by (simp add: encode_utf16_def chars.simps from_utf16_lossy_def)
next
  case (Cons n s)
  then show ?case
    by (simp add: encode_utf16_def from_utf16_lossy_def decode_units)
qed

section \<open>Validity\<close>

lemma byte_char_of [simp]: "m < 256 \<Longrightarrow> byte (char_of m) = m"
  by (simp add: byte_def)

lemma utf8_next_char:
  assumes "scalar n"
  shows "utf8_next (utf8_char n @ t) = Valid (length (utf8_char n))"
proof -
  have m: "a mod 64 < 64" for a :: nat by simp
  consider "n < 128" | "128 \<le> n" "n < 2048" | "2048 \<le> n" "n < 65536" | "65536 \<le> n" "n < 1114112"
    using assms unfolding scalar_def by linarith
  then show ?thesis
  proof cases
    case 1
    then show ?thesis by (simp add: utf8_char_def char_bytes_def bytes_def utf8_width_def)
  next
    case 2
    then have "2 \<le> n div 64" "n div 64 < 32" by linarith+
    then show ?thesis using 2
      by (simp add: utf8_char_def char_bytes_def bytes_def utf8_width_def second_ok_def)
  next
    case 3
    then have "32 \<le> n div 64" "n div 64 div 64 < 16" by linarith+
    then have a: "n div 64 div 64 < 16" "n div 64 div 64 = 0 \<Longrightarrow> 32 \<le> n div 64 mod 64"
      by (simp_all add: div_eq_0_iff)
    have "n div 64 div 64 = 13 \<Longrightarrow> n div 64 < 864" using assms unfolding scalar_def by linarith
    then have "n div 64 div 64 = 13 \<Longrightarrow> n div 64 mod 64 < 32"
      using div_mult_mod_eq [of "n div 64" 64] by linarith
    then have "second_ok (224 + n div 64 div 64) (128 + n div 64 mod 64)"
      using a by (auto simp: second_ok_def)
    then show ?thesis using 3 a(1)
      by (simp add: utf8_char_def char_bytes_def bytes_def utf8_width_def continuation_def)
  next
    case 4
    then have m: "16 \<le> n div 64 div 64" "n div 64 div 64 < 272" by linarith+
    then have a: "n div 64 div 64 div 64 < 5" "n div 64 div 64 div 64 = 0 \<Longrightarrow> 16 \<le> n div 64 div 64 mod 64"
      "n div 64 div 64 div 64 = 4 \<Longrightarrow> n div 64 div 64 mod 64 < 16"
      using div_mult_mod_eq [of "n div 64 div 64" 64] by linarith+
    then have "second_ok (240 + n div 64 div 64 div 64) (128 + n div 64 div 64 mod 64)"
      by (auto simp: second_ok_def)
    then show ?thesis using 4 a(1)
      by (simp add: utf8_char_def char_bytes_def bytes_def utf8_width_def continuation_def numeral_2_eq_2)
  qed
qed

lemma valid_Nil [simp]: "valid_utf8 []"
  by (simp add: valid_utf8_def from_utf8_at.simps)

lemma valid_char_append: "scalar n \<Longrightarrow> valid_utf8 t \<Longrightarrow> valid_utf8 (utf8_char n @ t)"
  using valid_utf8_cons [OF utf8_next_char, of n t t]
  by (auto simp: utf8_char_def char_bytes_def bytes_def)

lemma valid_append: "valid_utf8 s \<Longrightarrow> valid_utf8 t \<Longrightarrow> valid_utf8 (s @ t)"
proof (induction rule: chars_induct)
  case (Cons n s)
  then have "valid_utf8 (utf8_char (code_point (take n s)) @ drop n s @ t)" by (intro valid_char_append) auto
  moreover have "utf8_char (code_point (take n s)) @ drop n s @ t = s @ t"
    unfolding Cons.hyps(3) by (simp flip: append_assoc)
  ultimately show ?case by simp
qed simp

lemma valid_concat: "\<forall>x \<in> set xs. valid_utf8 x \<Longrightarrow> valid_utf8 (concat xs)"
  by (induction xs) (auto intro: valid_append)

lemma scalar_unit: "u < 55296 \<or> 57344 \<le> u \<Longrightarrow> scalar (unat u)" for u :: u16
proof -
  assume "u < 55296 \<or> 57344 \<le> u"
  moreover have "unat u < 2 ^ LENGTH(16)" by (rule unsigned_less)
  ultimately show "scalar (unat u)" by (auto simp: scalar_def word_less_nat_alt word_le_nat_alt)
qed

lemma scalar_pair:
  "u < 56320 \<Longrightarrow> v < 57344 \<Longrightarrow> scalar (65536 + (unat u - 55296) * 1024 + (unat v - 56320))" for u v :: u16
  by (simp add: scalar_def word_less_nat_alt)

lemma scalar_replacement: "scalar 65533"
  by (simp add: scalar_def)

lemma scalar_decode: "list_all scalar (decode_utf16 us)"
  by (induction us rule: decode_utf16.induct)
    (simp_all add: scalar_unit scalar_pair scalar_replacement del: not_less)

lemma from_utf16_valid: "valid_utf8 (from_utf16_lossy us)"
  unfolding from_utf16_lossy_def
  by (rule valid_concat) (use scalar_decode [of us] valid_char_append [of _ "[]"] in \<open>auto simp: list_all_iff\<close>)

lemma valid_ascii: "\<forall>c \<in> set s. byte c < 128 \<Longrightarrow> valid_utf8 s"
proof (induction s)
  case (Cons c s)
  then have "utf8_next (c # s) = Valid 1" by (simp add: utf8_width_def)
  from valid_utf8_cons [OF this, of s] Cons show ?case by simp
qed simp

end
