(* ===== verification/Windows_Access.thy ===== *)
theory Windows_Access
  imports Utf16 Environment
begin

text \<open>
  Access control on Windows (src/windows.rs), and what src/config.rs does with it: the security
  interface of the system is a record of functions over a world; the caches that the process
  keeps (\<open>OnceLock\<close>) are the rest of its state.
\<close>

section \<open>The interface of the system\<close>

type_synonym sid = "u8 list"

record ace =
  ace_type :: u8
  ace_flags :: u8
  ace_sid :: sid

text \<open>
  An access control list as it can be read: \<open>GetAclInformation\<close> gives the number of entries or fails,
  \<open>GetAce\<close> an entry. A descriptor is the list it has, if any; there is a difference between no list
  and the null list, which is \<open>None\<close> wherever a list is optional.
\<close>

record acl =
  acl_count :: "u32 option"
  acl_entry :: "nat \<Rightarrow> ace option"

datatype descriptor = Descriptor (descriptor_dacl: "acl option option")

text \<open>A file that is open, with what its metadata and its security say.\<close>

record win_file =
  wf_regular :: "string + bool"
  wf_dacl :: "u32 + acl option"
  wf_text :: "nat \<Rightarrow> string + string"

text \<open>
  The functions of the system, by the names of those they stand for: \<open>OpenProcessToken\<close>,
  \<open>GetTokenInformation\<close>, \<open>ConvertSidToStringSidW\<close>, \<open>ConvertStringSidToSidW\<close>,
  \<open>ConvertStringSecurityDescriptorToSecurityDescriptorW\<close>, \<open>GetNamedSecurityInfoW\<close>,
  \<open>SetNamedSecurityInfoW\<close>, opening a file without following a reparse point, a process snapshot as
  pairs of a process and its parent, \<open>OpenProcess\<close>, \<open>WaitForSingleObject\<close>, \<open>SetStdHandle\<close>; then named
  pipes (handles are numbers; opening one fails with an error number and its text), the monotonic
  clock and sleeping in nanoseconds, the path of the program, whether \<open>schtasks\<close> succeeds,
  standard output and standard error, and opening a file to append to it. Path syntax is the system's. Other files are those of the environment.
\<close>

record 'v system =
  open_token :: "'v \<Rightarrow> bool \<times> 'v"
  token_user :: "'v \<Rightarrow> sid option \<times> 'v"
  sid_text :: "sid \<Rightarrow> u16 list option"
  text_sid :: "u16 list \<Rightarrow> sid option"
  parse_sddl :: "u16 list \<Rightarrow> descriptor option"
  get_dacl :: "u16 list \<Rightarrow> 'v \<Rightarrow> (u32 + acl option) \<times> 'v"
  set_dacl :: "u16 list \<Rightarrow> acl option \<Rightarrow> 'v \<Rightarrow> u32 \<times> 'v"
  open_file :: "string \<Rightarrow> 'v \<Rightarrow> win_file option \<times> 'v"
  processes :: "'v \<Rightarrow> (u32 \<times> u32) list option \<times> 'v"
  own_process :: u32
  open_process :: "u32 \<Rightarrow> 'v \<Rightarrow> bool \<times> 'v"
  await_process :: "u32 \<Rightarrow> 'v \<Rightarrow> unit \<times> 'v"
  set_std_handle :: "u32 \<Rightarrow> 'v \<Rightarrow> bool \<times> 'v"
  create_pipe :: "string \<Rightarrow> descriptor \<Rightarrow> bool \<Rightarrow> 'v \<Rightarrow> (string + nat) \<times> 'v"
  accept_pipe :: "nat \<Rightarrow> 'v \<Rightarrow> string option \<times> 'v"
  open_pipe :: "string \<Rightarrow> 'v \<Rightarrow> ((u32 \<times> string) + nat) \<times> 'v"
  read_text :: "string \<Rightarrow> 'v \<Rightarrow> (string + string) \<times> 'v"
  now :: "'v \<Rightarrow> nat \<times> 'v"
  pause :: "nat \<Rightarrow> 'v \<Rightarrow> unit \<times> 'v"
  current_program :: "'v \<Rightarrow> (string + string) \<times> 'v"
  schtasks :: "string list \<Rightarrow> 'v \<Rightarrow> bool \<times> 'v"
  print_line :: "string \<Rightarrow> 'v \<Rightarrow> unit \<times> 'v"
  print_error :: "string \<Rightarrow> 'v \<Rightarrow> unit \<times> 'v"
  open_append :: "string \<Rightarrow> 'v \<Rightarrow> string option \<times> 'v"
  path_parent :: "string \<Rightarrow> string option"
  path_join :: "string \<Rightarrow> string \<Rightarrow> string"

record 'v process =
  sid_cell :: "string option"
  trusted_cell :: "sid list option"
  outside :: 'v

type_synonym ('v, 'a) win = "('v process, 'a) prog"

definition query :: "('v \<Rightarrow> 'a \<times> 'v) \<Rightarrow> ('v, 'a) win" where
  "query f p = (let (x, v) = f (outside p) in (Ok x, p\<lparr>outside := v\<rparr>))"

lemma query_returns [returns]:
  "query f p = (Ok y, p') \<longleftrightarrow> y = fst (f (outside p)) \<and> p' = p\<lparr>outside := snd (f (outside p))\<rparr>"
  by (auto simp: query_def case_prod_beta)

text \<open>\<open>wide\<close>: UTF-16, terminated.\<close>

definition wide :: "string \<Rightarrow> u16 list" where
  "wide s = encode_utf16 s @ [0]"

section \<open>Who we are\<close>

definition user_sid :: "'v system \<Rightarrow> ('v, string) win" where
  "user_sid F =
     bind_p (reads sid_cell) (\<lambda>cell. case cell of
       Some s \<Rightarrow> ret s
     | None \<Rightarrow>
         bind_p (query (open_token F)) (\<lambda>ok.
         seq_p (ensure_p ok ''cannot open the process token'')
         (bind_p (query (token_user F)) (\<lambda>user.
          bind_p (give (or_error user ''cannot read the process user'')) (\<lambda>sid.
          bind_p (give (or_error (sid_text F sid) ''cannot format the process user'')) (\<lambda>t.
          let s = from_utf16_lossy (takeWhile (\<lambda>u. u \<noteq> 0) t) in
          seq_p (modify (\<lambda>p. p\<lparr>sid_cell := Some s\<rparr>)) (ret s)))))))"

definition trusted_texts :: "string \<Rightarrow> string list" where
  "trusted_texts user = [user, ''S-1-5-18'', ''S-1-5-32-544'']"

text \<open>The user, SYSTEM and Administrators.\<close>

definition trusted :: "'v system \<Rightarrow> ('v, sid list) win" where
  "trusted F =
     bind_p (reads trusted_cell) (\<lambda>cell. case cell of
       Some sids \<Rightarrow> ret sids
     | None \<Rightarrow>
         bind_p (user_sid F) (\<lambda>user.
         bind_p (fold_p (\<lambda>sids t. bind_p (give (or_error (text_sid F (wide t)) ''invalid SID''))
             (\<lambda>sid. ret (sids @ [sid]))) [] (trusted_texts user)) (\<lambda>sids.
         seq_p (modify (\<lambda>p. p\<lparr>trusted_cell := Some sids\<rparr>)) (ret sids))))"

section \<open>Security descriptors\<close>

definition descriptor_new :: "'v system \<Rightarrow> string \<Rightarrow> descriptor res" where
  "descriptor_new F sddl = or_error (parse_sddl F (wide sddl)) ''invalid security descriptor''"

definition dacl :: "descriptor \<Rightarrow> acl option res" where
  "dacl d = or_error (descriptor_dacl d) ''security descriptor has no DACL''"

definition pipe_sddl :: "string \<Rightarrow> string" where
  "pipe_sddl user = ''D:P(A;;GA;;;'' @ user @ '')(A;;GA;;;SY)''"

definition private_descriptor :: "'v system \<Rightarrow> ('v, descriptor) win" where
  "private_descriptor F = bind_p (user_sid F) (\<lambda>user. give (descriptor_new F (pipe_sddl user)))"

definition file_sddl :: "bool \<Rightarrow> string \<Rightarrow> string" where
  "file_sddl directory user =
     (let inherit = (if directory then ''OICI'' else []) in
      ''D:P(A;'' @ inherit @ '';FA;;;'' @ user @ '')(A;'' @ inherit @ '';FA;;;SY)(A;'' @ inherit @ '';FA;;;BA)'')"

definition restrict :: "'v system \<Rightarrow> string \<Rightarrow> bool \<Rightarrow> ('v, unit) win" where
  "restrict F path directory =
     bind_p (user_sid F) (\<lambda>user.
     bind_p (give (descriptor_new F (file_sddl directory user))) (\<lambda>d.
     bind_p (give (dacl d)) (\<lambda>l.
     bind_p (query (set_dacl F (wide path) l)) (\<lambda>error.
     ensure_p (error = 0) (''cannot restrict access (Windows error '' @ decimal (unat error) @ '')'')))))"

section \<open>Who else has access\<close>

definition ALLOW_TYPES :: "u8 list" where
  "ALLOW_TYPES = [0, 5, 9, 11]"

definition INHERIT_ONLY :: u8 where
  "INHERIT_ONLY = 8"

text \<open>An entry that allows access to the object itself.\<close>

definition effective :: "ace \<Rightarrow> bool" where
  "effective a \<longleftrightarrow> ace_type a \<in> set ALLOW_TYPES \<and> and (ace_flags a) INHERIT_ONLY = 0"

fun scan_entries :: "sid list \<Rightarrow> (nat \<Rightarrow> ace option) \<Rightarrow> nat list \<Rightarrow> bool res" where
  "scan_entries known entry [] = Ok True"
| "scan_entries known entry (i # is) = (case entry i of
       None \<Rightarrow> Err (Msg ''cannot read access control entry'')
     | Some a \<Rightarrow>
         if \<not> effective a then scan_entries known entry is
         else if ace_type a \<noteq> 0 then Ok False
         else if ace_sid a \<notin> set known then Ok False
         else scan_entries known entry is)"

definition private_dacl :: "'v system \<Rightarrow> acl option \<Rightarrow> ('v, bool) win" where
  "private_dacl F l = (case l of
       None \<Rightarrow> ret False
     | Some acl \<Rightarrow>
         bind_p (trusted F) (\<lambda>known.
         bind_p (give (or_error (acl_count acl) ''cannot read access control list'')) (\<lambda>n.
         give (scan_entries known (acl_entry acl) [0..<unat n]))))"

definition private_file :: "'v system \<Rightarrow> win_file \<Rightarrow> ('v, bool) win" where
  "private_file F f = (case wf_dacl f of
       Inl error \<Rightarrow> throw (Msg (''cannot read file access (Windows error '' @ decimal (unat error) @ '')''))
     | Inr l \<Rightarrow> private_dacl F l)"

definition private_path :: "'v system \<Rightarrow> string \<Rightarrow> ('v, bool) win" where
  "private_path F path =
     bind_p (query (get_dacl F (wide path))) (\<lambda>r. case r of
       Inl error \<Rightarrow> throw (Msg (''cannot read access to '' @ utf8_lossy path @ '' (Windows error ''
         @ decimal (unat error) @ '')''))
     | Inr l \<Rightarrow> private_dacl F l)"

section \<open>Processes\<close>

definition wait_for_parent :: "'v system \<Rightarrow> ('v, unit) win" where
  "wait_for_parent F =
     bind_p (query (processes F)) (\<lambda>listed.
     bind_p (give (or_error listed ''cannot list processes'')) (\<lambda>ps.
     bind_p (give (or_error (map_option snd (find (\<lambda>q. fst q = own_process F) ps))
       ''cannot find the parent process'')) (\<lambda>parent.
     bind_p (query (open_process F parent)) (\<lambda>opened.
     seq_p (ensure_p opened ''the parent process has already exited'')
     (query (await_process F parent))))))"

definition redirect_output :: "'v system \<Rightarrow> ('v, unit) win" where
  "redirect_output F = fold_p (\<lambda>_ target.
     bind_p (query (set_std_handle F target)) (\<lambda>ok. ensure_p ok ''cannot redirect output'')) () [-11, -12]"

section \<open>Files\<close>

text \<open>\<open>secure_dir\<close>, \<open>atomic_write\<close> and \<open>open_private\<close> of src/config.rs, on Windows.\<close>

definition io :: "('v \<Rightarrow> string option \<times> 'v) \<Rightarrow> ('v, unit) win" where
  "io f = bind_p (query f) (\<lambda>r. case r of None \<Rightarrow> ret () | Some err \<Rightarrow> throw (Msg err))"

lemma io_returns [returns]:
  "io f p = (Ok u, p') \<longleftrightarrow> fst (f (outside p)) = None \<and> p' = p\<lparr>outside := snd (f (outside p))\<rparr>"
  by (auto simp: io_def returns split: option.splits)

definition secure_dir_win :: "'v system \<Rightarrow> 'v env \<Rightarrow> string \<Rightarrow> ('v, unit) win" where
  "secure_dir_win F E path =
     seq_p (io (fs_create_dir_all E path))
     (seq_p (io (no_symlink E path))
     (bind_p (private_path F path) (\<lambda>private. when_p (\<not> private) (restrict F path True))))"

text \<open>
  Without the synchronisation of the directory. A temporary file that is not renamed is removed
  when it is dropped.
\<close>

definition write_temp :: "'v system \<Rightarrow> 'v env \<Rightarrow> string \<Rightarrow> string \<Rightarrow> string \<Rightarrow> ('v, unit) win" where
  "write_temp F E tmp path data =
     seq_p (restrict F tmp False)
     (seq_p (io (fs_append E tmp data))
     (seq_p (io (fs_sync E tmp)) (io (fs_rename E tmp path))))"

definition atomic_write_win :: "'v system \<Rightarrow> 'v env \<Rightarrow> string \<Rightarrow> string \<Rightarrow> ('v, unit) win" where
  "atomic_write_win F E path data =
     bind_p (give (or_error (path_parent F path) ''missing parent'')) (\<lambda>dir.
     bind_p (query (fs_temp E dir)) (\<lambda>temp.
     bind_p (give (from_sum temp)) (\<lambda>tmp.
     bind_p (attempt (write_temp F E tmp path data)) (\<lambda>r.
     seq_p (when_p (is_Err r) (seq_p (query (fs_remove_file E tmp)) (ret ()))) (give r)))))"

definition open_private_win :: "'v system \<Rightarrow> string \<Rightarrow> ('v, win_file) win" where
  "open_private_win F path =
     bind_p (query (open_file F path)) (\<lambda>opened.
     bind_p (give (or_error opened ''cannot open credential file'')) (\<lambda>f.
     bind_p (give (from_sum (wf_regular f))) (\<lambda>regular.
     bind_p (if regular then private_file F f else ret False) (\<lambda>ok.
     seq_p (ensure_p ok (''credential must be a regular file only you can access; run icacls '' @ [CHR 0x22] @ path
         @ [CHR 0x22] @ '' /inheritance:r /grant:r '' @ [CHR 0x22] @ ''%USERNAME%:F'' @ [CHR 0x22]))
     (ret f)))))"

end
