(* ===== verification/Windows_Service.thy ===== *)
theory Windows_Service
  imports Windows_Access Service
begin

text \<open>
  The named pipe that is the control channel on Windows (src/ipc.rs), and the task that starts the
  manager there (src/service.rs).
\<close>

section \<open>Named pipes\<close>

text \<open>Backslashes, twice over.\<close>

definition PREFIX :: string where
  "PREFIX = [CHR 0x5C, CHR 0x5C, CHR ''.'', CHR 0x5C] @ ''pipe'' @ [CHR 0x5C] @ ''runnerctl-''"

definition socket_win :: "'v system \<Rightarrow> string \<Rightarrow> string" where
  "socket_win F h = path_join F h ''manager.pipe''"

record listener =
  li_name :: string
  li_descriptor :: descriptor
  li_next :: nat

definition create :: "'v system \<Rightarrow> string \<Rightarrow> descriptor \<Rightarrow> bool \<Rightarrow> ('v, nat) win" where
  "create F name d first = bind_p (query (create_pipe F name d first)) (\<lambda>r. give (from_sum r))"

definition pipe_bind :: "'v system \<Rightarrow> 'v env \<Rightarrow> ('v, listener) win" where
  "pipe_bind F E =
     bind_p (query (uuid E)) (\<lambda>u.
     let name = PREFIX @ simple_uuid u in
     bind_p (private_descriptor F) (\<lambda>d.
     bind_p (create F name d True) (\<lambda>h.
     seq_p (atomic_write_win F E (socket_win F (home E)) name)
     (ret \<lparr>li_name = name, li_descriptor = d, li_next = h\<rparr>))))"

text \<open>The instance that has a client, and the listener with the next one.\<close>

definition pipe_accept :: "'v system \<Rightarrow> listener \<Rightarrow> ('v, nat \<times> listener) win" where
  "pipe_accept F l =
     seq_p (io (accept_pipe F (li_next l)))
     (bind_p (create F (li_name l) (li_descriptor l) False) (\<lambda>h.
      ret (li_next l, l\<lparr>li_next := h\<rparr>)))"

definition pipe_name :: "string \<Rightarrow> bool" where
  "pipe_name name \<longleftrightarrow> starts_with PREFIX name \<and> length name = length PREFIX + 32"

definition ERROR_PIPE_BUSY :: u32 where
  "ERROR_PIPE_BUSY = 231"

definition BUSY_PAUSE :: nat where
  "BUSY_PAUSE = 20 * 10 ^ 6"

text \<open>The attempts to open the pipe, so many of them; \<open>None\<close> says that they were not enough.\<close>

fun pipe_attempts :: "nat \<Rightarrow> 'v system \<Rightarrow> string \<Rightarrow> nat \<Rightarrow> ('v, nat option) win" where
  "pipe_attempts 0 F name deadline = ret None"
| "pipe_attempts (Suc n) F name deadline =
     bind_p (query (open_pipe F name)) (\<lambda>r. case r of
       Inr h \<Rightarrow> ret (Some h)
     | Inl (code, err) \<Rightarrow>
         if code = ERROR_PIPE_BUSY then
           bind_p (query (now F)) (\<lambda>t.
           if t < deadline then seq_p (query (pause F BUSY_PAUSE)) (pipe_attempts n F name deadline)
           else throw (Msg err))
         else throw (Msg err))"

definition pipe_connect :: "nat \<Rightarrow> 'v system \<Rightarrow> 'v env \<Rightarrow> ('v, nat option) win" where
  "pipe_connect n F E =
     bind_p (query (read_text F (socket_win F (home E)))) (\<lambda>r.
     bind_p (give (from_sum r)) (\<lambda>name.
     seq_p (ensure_p (pipe_name name) ''invalid manager pipe name'')
     (bind_p (query (now F)) (\<lambda>t.
      bind_p (give (instant_add t (5 * second))) (\<lambda>deadline.
      pipe_attempts n F name deadline)))))"

section \<open>The task\<close>

definition NAME :: string where
  "NAME = ''runnerctl-manager''"

definition task_head :: "string \<Rightarrow> string" where
  \<open>task_head user = unlines
     [''<?xml version="1.0" encoding="UTF-16"?>'',
      ''<Task version="1.2" xmlns="http://schemas.microsoft.com/windows/2004/02/mit/task">'',
      ''  <RegistrationInfo>'', ''    <Description>GitHub Actions runner pool manager</Description>'',
      ''  </RegistrationInfo>'', ''  <Triggers>'', ''    <LogonTrigger>'', ''      <Enabled>true</Enabled>'',
      ''      <UserId>'' @ user @ ''</UserId>'', ''    </LogonTrigger>'', ''  </Triggers>'', ''  <Principals>'',
      ''    <Principal id="Author">'', ''      <UserId>'' @ user @ ''</UserId>'',
      ''      <LogonType>InteractiveToken</LogonType>'', ''      <RunLevel>LeastPrivilege</RunLevel>'',
      ''    </Principal>'', ''  </Principals>'', ''  <Settings>'',
      ''    <MultipleInstancesPolicy>IgnoreNew</MultipleInstancesPolicy>'',
      ''    <DisallowStartIfOnBatteries>false</DisallowStartIfOnBatteries>'',
      ''    <StopIfGoingOnBatteries>false</StopIfGoingOnBatteries>'',
      ''    <ExecutionTimeLimit>PT0S</ExecutionTimeLimit>'', ''    <RestartOnFailure>'',
      ''      <Interval>PT1M</Interval>'', ''      <Count>999</Count>'', ''    </RestartOnFailure>'',
      ''    <Priority>5</Priority>'', ''  </Settings>'', ''  <Actions Context="Author">'', ''    <Exec>'',
      ''      <Command>%SystemRoot%'' @ [CHR 0x5C] @ ''System32'' @ [CHR 0x5C] @ ''conhost.exe</Command>'']\<close>

definition task_tail :: string where
  "task_tail = unlines [''    </Exec>'', ''  </Actions>'', ''</Task>'']"

definition task_body :: "string \<Rightarrow> string \<Rightarrow> string" where
  "task_body user arguments =
     task_head user @ ''      <Arguments>'' @ xml_escape arguments @ ''</Arguments>'' @ newline @ task_tail"

definition le_bytes :: "u16 \<Rightarrow> string" where
  "le_bytes u = bytes [unat u mod 256, unat u div 256]"

text \<open>UTF-16 with a byte order mark.\<close>

definition task_file :: "string \<Rightarrow> string" where
  "task_file body = concat (map le_bytes (0xFEFF # encode_utf16 body))"

definition end_task :: "'v system \<Rightarrow> ('v, unit) win" where
  "end_task F = seq_p (query (schtasks F [''/end'', ''/tn'', NAME])) (ret ())"

definition lock_win :: "'v system \<Rightarrow> 'v env \<Rightarrow> ('v, unit) win" where
  "lock_win F E =
     bind_p (query (try_lock E (path_join F (home E) ''manager.lock''))) (\<lambda>r.
     bind_p (give (from_sum r)) (\<lambda>locked.
     ensure_p locked ''manager is already running or another command holds the lock''))"

fun await_exit :: "nat \<Rightarrow> 'v system \<Rightarrow> 'v env \<Rightarrow> ('v, unit) win" where
  "await_exit 0 F E = ret ()"
| "await_exit (Suc n) F E =
     bind_p (attempt (lock_win F E)) (\<lambda>r.
     if is_Ok r then ret () else seq_p (query (pause F (100 * 10 ^ 6))) (await_exit n F E))"

definition task_failed :: string where
  "task_failed = ''schtasks failed; inspect the '' @ NAME @ '' task in Task Scheduler''"

definition task_install :: "'v system \<Rightarrow> 'v env \<Rightarrow> ('v, unit) win" where
  "task_install F E =
     bind_p (query (current_program F)) (\<lambda>x.
     bind_p (give (from_sum x)) (\<lambda>exe.
     bind_p (user_sid F) (\<lambda>user.
     bind_p (give (task_arguments exe (home E))) (\<lambda>arguments.
     let definition_file = path_join F (home E) ''service.xml'' in
     seq_p (atomic_write_win F E definition_file (task_file (task_body user arguments)))
     (seq_p (end_task F)
     (seq_p (await_exit 50 F E)
     (bind_p (query (schtasks F [''/create'', ''/tn'', NAME, ''/xml'', utf8_lossy definition_file, ''/f''])) (\<lambda>created.
      bind_p (if created then query (schtasks F [''/run'', ''/tn'', NAME]) else ret False) (\<lambda>ok.
      seq_p (ensure_p ok task_failed)
      (query (print_line F (''Installed the '' @ NAME
        @ '' scheduled task. It runs while you are signed in, like Docker Desktop. Logs: ''
        @ utf8_lossy (path_join F (home E) ''manager.log'')))))))))))))"

definition task_uninstall :: "'v system \<Rightarrow> ('v, unit) win" where
  "task_uninstall F =
     seq_p (end_task F)
     (bind_p (query (schtasks F [''/change'', ''/tn'', NAME, ''/disable''])) (\<lambda>ok.
      seq_p (ensure_p ok task_failed)
      (query (print_line F
        ''Service disabled. Existing runner containers remain; use stop before uninstall to drain pools.''))))"

end
