(* ===== verification/Windows_Access_Contract.thy ===== *)
theory Windows_Access_Contract
  imports Windows_Access Sample
begin

text \<open>
  What the access control of Windows achieves: a list is taken for private exactly if nobody but the
  user, SYSTEM and Administrators can be granted access by it, and a directory that has been
  secured is private.
\<close>

section \<open>Trusted identifiers\<close>

text \<open>The security identifiers that the process trusts, once it knows its user.\<close>

definition known :: "'v system \<Rightarrow> 'v process \<Rightarrow> sid \<Rightarrow> bool" where
  "known F p sid \<longleftrightarrow> (\<exists>user t. sid_cell p = Some user \<and> t \<in> set (trusted_texts user) \<and> text_sid F (wide t) = Some sid)"

definition cells_ok :: "'v system \<Rightarrow> 'v process \<Rightarrow> bool" where
  "cells_ok F p \<longleftrightarrow> (case trusted_cell p of None \<Rightarrow> True
     | Some sids \<Rightarrow> sid_cell p \<noteq> None \<and> (\<forall>sid. sid \<in> set sids \<longleftrightarrow> known F p sid))"

text \<open>
  A list may grant access to a token, a set of identifiers, if it is the null list, or by an entry
  that allows access to the object: an ordinary entry if the token has its identifier, an object or
  callback entry under conditions that the code does not look at.
\<close>

definition may_grant :: "acl option \<Rightarrow> sid set \<Rightarrow> bool" where
  "may_grant l token \<longleftrightarrow> (case l of None \<Rightarrow> True
     | Some acl \<Rightarrow> (\<exists>n i a. acl_count acl = Some n \<and> i < unat n \<and> acl_entry acl i = Some a
         \<and> effective a \<and> (ace_type a = 0 \<longrightarrow> ace_sid a \<in> token)))"

lemma known_outside [simp]: "known F (p\<lparr>outside := v\<rparr>) = known F p"
  by (simp add: known_def fun_eq_iff)

lemma cells_outside [simp]: "cells_ok F (p\<lparr>outside := v\<rparr>) = cells_ok F p"
  by (simp add: cells_ok_def cong: option.case_cong)

lemma user_sid_returns:
  "user_sid F p = (Ok u, p') \<Longrightarrow> sid_cell p' = Some u \<and> trusted_cell p' = trusted_cell p
     \<and> (\<forall>s. sid_cell p = Some s \<longrightarrow> p' = p \<and> u = s)"
  by (cases "sid_cell p") (auto simp: user_sid_def returns Let_def)

lemma texts_returns:
  "fold_p (\<lambda>sids t. bind_p (give (or_error (text_sid F (wide t)) m)) (\<lambda>sid. ret (sids @ [sid]))) acc ts p = (Ok sids, p') \<Longrightarrow>
     p' = p \<and> (\<forall>sid. sid \<in> set sids \<longleftrightarrow> sid \<in> set acc \<or> (\<exists>t \<in> set ts. text_sid F (wide t) = Some sid))"
  by (induction ts arbitrary: acc) (fastforce simp: returns)+

lemma trusted_returns:
  assumes "trusted F p = (Ok sids, p')" "cells_ok F p"
  shows "cells_ok F p' \<and> (\<forall>sid. sid \<in> set sids \<longleftrightarrow> known F p' sid)"
proof (cases "trusted_cell p")
  case None
  then obtain user p1 p2 where u: "user_sid F p = (Ok user, p1)"
    and f: "fold_p (\<lambda>sids t. bind_p (give (or_error (text_sid F (wide t)) ''invalid SID''))
             (\<lambda>sid. ret (sids @ [sid]))) [] (trusted_texts user) p1 = (Ok sids, p2)"
    and p': "p' = p2\<lparr>trusted_cell := Some sids\<rparr>"
    using assms(1) by (auto simp: trusted_def returns)
  then show ?thesis
    using user_sid_returns [OF u] texts_returns [OF f] by (auto simp: cells_ok_def known_def)
next
  case (Some c)
  then show ?thesis using assms by (auto simp: trusted_def returns cells_ok_def)
qed

lemma scan_result:
  "scan_entries sids entry is = Ok b \<Longrightarrow>
     b \<longleftrightarrow> (\<forall>i \<in> set is. \<forall>a. entry i = Some a \<longrightarrow> effective a \<longrightarrow> ace_type a = 0 \<and> ace_sid a \<in> set sids)"
  by (induction sids entry "is" rule: scan_entries.induct) (auto split: option.splits if_splits)

lemma private_dacl_exact:
  assumes "private_dacl F l p = (Ok b, p')" "cells_ok F p"
  shows "cells_ok F p' \<and> (b \<longleftrightarrow> (\<forall>token. may_grant l token \<longrightarrow> (\<exists>sid \<in> token. known F p' sid)))"
proof (cases l)
  case None
  then have "may_grant l {}" by (simp add: may_grant_def)
  then show ?thesis using assms None by (auto simp: private_dacl_def returns)
next
  case (Some acl)
  then obtain sids n where t: "trusted F p = (Ok sids, p')" and n: "acl_count acl = Some n"
    and b: "scan_entries sids (acl_entry acl) [0..<unat n] = Ok b"
    using assms(1) by (auto simp: private_dacl_def returns)
  note sids = trusted_returns [OF t assms(2)]
  have b: "b \<longleftrightarrow> (\<forall>i < unat n. \<forall>a. acl_entry acl i = Some a \<longrightarrow> effective a \<longrightarrow> ace_type a = 0 \<and> known F p' (ace_sid a))"
    using scan_result [OF b] sids by auto
  have "b" if only: "\<forall>token. may_grant l token \<longrightarrow> (\<exists>sid \<in> token. known F p' sid)"
    unfolding b
  proof (intro allI impI)
    fix i a assume a: "i < unat n" "acl_entry acl i = Some a" "effective a"
    then have "ace_type a \<noteq> 0 \<Longrightarrow> may_grant l {}" "may_grant l {ace_sid a}"
      using Some n by (auto simp: may_grant_def)
    with only show "ace_type a = 0 \<and> known F p' (ace_sid a)" by blast
  qed
  moreover have "\<exists>sid \<in> token. known F p' sid" if b and "may_grant l token" for token
    using that Some n b by (auto simp: may_grant_def)
  ultimately show ?thesis using sids by blast
qed

lemma private_path_returns:
  assumes "private_path F path p = (Ok b, p')" "cells_ok F p"
  shows "cells_ok F p' \<and> (\<exists>l. fst (get_dacl F (wide path) (outside p)) = Inr l
     \<and> (b \<longleftrightarrow> (\<forall>token. may_grant l token \<longrightarrow> (\<exists>sid \<in> token. known F p' sid))))"
proof -
  let ?p1 = "p\<lparr>outside := snd (get_dacl F (wide path) (outside p))\<rparr>"
  obtain l where l: "fst (get_dacl F (wide path) (outside p)) = Inr l" "private_dacl F l ?p1 = (Ok b, p')"
    using assms(1) by (auto simp: private_path_def returns split: sum.splits)
  have "cells_ok F ?p1" using assms(2) by simp
  from private_dacl_exact [OF l(2) this] l(1) show ?thesis by blast
qed


text \<open>
  A credential file that is opened is a regular file, and every token that its access
  control list may grant access belongs to the user, to SYSTEM or to an administrator.
\<close>

theorem opened_file_private:
  assumes "open_private_win F path p = (Ok f, p')" "cells_ok F p"
  shows "wf_regular f = Inr True
     \<and> (\<exists>l. wf_dacl f = Inr l \<and> (\<forall>token. may_grant l token \<longrightarrow> (\<exists>sid \<in> token. known F p' sid)))"
proof -
  let ?p1 = "p\<lparr>outside := snd (open_file F path (outside p))\<rparr>"
  have f: "wf_regular f = Inr True" "private_file F f ?p1 = (Ok True, p')"
    using assms(1) by (auto simp: open_private_win_def returns split: if_splits)
  then obtain l where l: "wf_dacl f = Inr l" "private_dacl F l ?p1 = (Ok True, p')"
    by (auto simp: private_file_def returns split: sum.splits)
  have "cells_ok F ?p1" using assms(2) by simp
  from private_dacl_exact [OF l(2) this] l(1) f(1) show ?thesis by blast
qed

text \<open>
  The documented meaning of the descriptors that are written for files: three entries that allow
  the user, SYSTEM and Administrators access; and of the store of lists: what is set is got.
\<close>

definition sddl_documented :: "'v system \<Rightarrow> string \<Rightarrow> bool" where
  "sddl_documented F user \<longleftrightarrow> (\<forall>directory. \<exists>sids flags rest.
     map (\<lambda>t. text_sid F (wide t)) (trusted_texts user) = map Some sids \<and>
     parse_sddl F (wide (file_sddl directory user)) = Some (Descriptor (Some (Some
       \<lparr>acl_count = Some 3,
        acl_entry = \<lambda>i. if i < 3 then Some \<lparr>ace_type = 0, ace_flags = flags, ace_sid = sids ! i\<rparr> else rest i\<rparr>))))"

definition lists_stored :: "'v system \<Rightarrow> bool" where
  "lists_stored F \<longleftrightarrow> (\<forall>path l v v'. set_dacl F path l v = (0, v') \<longrightarrow> fst (get_dacl F path v') = Inr l)"

lemma texts_run:
  "map (\<lambda>t. text_sid F (wide t)) ts = map Some sids \<Longrightarrow>
   fold_p (\<lambda>sids t. bind_p (give (or_error (text_sid F (wide t)) m)) (\<lambda>sid. ret (sids @ [sid]))) acc ts p
     = (Ok (acc @ sids), p)"
  by (induction ts arbitrary: acc sids) (auto simp: Cons_eq_map_conv bind_p_def give_def ret_def)

lemma trusted_runs:
  assumes "sid_cell p = Some user" "map (\<lambda>t. text_sid F (wide t)) (trusted_texts user) = map Some sids" "cells_ok F p"
  shows "\<exists>ks p2. trusted F p = (Ok ks, p2) \<and> set sids \<subseteq> set ks"
proof (cases "trusted_cell p")
  case None
  then have "trusted F p = (Ok sids, p\<lparr>trusted_cell := Some sids\<rparr>)"
    using assms(1) texts_run [OF assms(2), of "''invalid SID''" "[]" p]
    by (simp add: trusted_def user_sid_def bind_p_def seq_p_def reads_def ret_def modify_def)
  then show ?thesis by blast
next
  case (Some ks)
  have "known F p sid" if "sid \<in> set sids" for sid
  proof -
    have "Some sid \<in> set (map (\<lambda>t. text_sid F (wide t)) (trusted_texts user))" using that assms(2) by simp
    then show ?thesis using assms(1) by (auto simp: known_def)
  qed
  then show ?thesis
    using Some assms(3) by (auto simp: trusted_def cells_ok_def bind_p_def reads_def ret_def)
qed

lemma scan_runs:
  "\<forall>i \<in> set is. \<exists>a. entry i = Some a \<and> ace_type a = 0 \<and> ace_sid a \<in> set ks \<Longrightarrow> scan_entries ks entry is = Ok True"
  by (induction ks entry "is" rule: scan_entries.induct) auto

lemma restrict_returns:
  assumes "restrict F path directory p = (Ok (), p')" "cells_ok F p"
  shows "\<exists>user l. sid_cell p' = Some user \<and> cells_ok F p'
     \<and> parse_sddl F (wide (file_sddl directory user)) = Some (Descriptor (Some l))
     \<and> (\<exists>v. set_dacl F (wide path) l v = (0, outside p'))"
proof -
  obtain user p1 d l where u: "user_sid F p = (Ok user, p1)"
    and d: "parse_sddl F (wide (file_sddl directory user)) = Some d" "descriptor_dacl d = Some l"
    and v: "fst (set_dacl F (wide path) l (outside p1)) = 0"
      "p' = p1\<lparr>outside := snd (set_dacl F (wide path) l (outside p1))\<rparr>"
    using assms(1) by (auto simp: restrict_def returns descriptor_new_def dacl_def)
  note user = user_sid_returns [OF u]
  have "cells_ok F p1"
    using assms(2) user by (cases "sid_cell p") (auto simp: cells_ok_def split: option.splits)
  moreover have "d = Descriptor (Some l)" using d(2) by (cases d) simp
  moreover have "set_dacl F (wide path) l (outside p1) = (0, outside p')" using v by (simp add: prod_eq_iff)
  ultimately show ?thesis using user d(1) v(2) by auto
qed

text \<open>A path whose access is restricted is private at the next look.\<close>

lemma restricted_is_private:
  assumes r: "restrict F path directory p = (Ok (), p')" and cells: "cells_ok F p"
    and docs: "\<And>user. sid_cell p' = Some user \<Longrightarrow> sddl_documented F user" "lists_stored F"
  shows "cells_ok F p' \<and> (\<exists>p2. private_path F path p' = (Ok True, p2))"
proof -
  obtain user l v where user: "sid_cell p' = Some user" "cells_ok F p'"
    and d: "parse_sddl F (wide (file_sddl directory user)) = Some (Descriptor (Some l))"
    and v: "set_dacl F (wide path) l v = (0, outside p')"
    using restrict_returns [OF r cells] by blast
  obtain sids flags rest where sids: "map (\<lambda>t. text_sid F (wide t)) (trusted_texts user) = map Some sids"
    and "parse_sddl F (wide (file_sddl directory user)) = Some (Descriptor (Some (Some \<lparr>acl_count = Some 3,
      acl_entry = \<lambda>i. if i < 3 then Some \<lparr>ace_type = 0, ace_flags = flags, ace_sid = sids ! i\<rparr> else rest i\<rparr>)))"
    using docs(1) [OF user(1)] unfolding sddl_documented_def by blast
  with d have l: "l = Some \<lparr>acl_count = Some 3,
        acl_entry = \<lambda>i. if i < 3 then Some \<lparr>ace_type = 0, ace_flags = flags, ace_sid = sids ! i\<rparr> else rest i\<rparr>"
    by simp
  have len: "length sids = 3" using arg_cong [OF sids, of length] by (simp add: trusted_texts_def)
  let ?p2 = "p'\<lparr>outside := snd (get_dacl F (wide path) (outside p'))\<rparr>"
  obtain ks p3 where ks: "trusted F ?p2 = (Ok ks, p3)" "set sids \<subseteq> set ks"
    using trusted_runs [OF _ sids, of ?p2] user by auto
  have "scan_entries ks (acl_entry (the l)) [0..<3] = Ok True"
    using ks(2) len by (intro scan_runs) (auto simp: l)
  then have "private_dacl F l ?p2 = (Ok True, p3)"
    using ks(1) by (simp add: private_dacl_def l bind_p_def give_def)
  moreover have "fst (get_dacl F (wide path) (outside p')) = Inr l" using docs(2) v by (auto simp: lists_stored_def)
  ultimately show ?thesis
    using user(2) by (auto simp: private_path_def query_def bind_p_def split: prod.split)
qed


section \<open>A system\<close>

text \<open>A system whose world is the access control list of the one path there is, and the time.\<close>

definition sample_user :: string where
  "sample_user = ''S-1-5-21-7''"

definition sample_sid :: "u16 list \<Rightarrow> sid" where
  "sample_sid u = map ucast u"

definition sample_acl :: acl where
  "sample_acl = \<lparr>acl_count = Some 3, acl_entry = \<lambda>i. if i < 3 then
     Some \<lparr>ace_type = 0, ace_flags = 3, ace_sid = map (\<lambda>t. sample_sid (wide t)) (trusted_texts sample_user) ! i\<rparr> else None\<rparr>"

definition sample_system :: "(acl option \<times> nat) system" where
  "sample_system =
     \<lparr>open_token = Pair True, token_user = Pair (Some []), sid_text = \<lambda>_. Some [], text_sid = \<lambda>u. Some (sample_sid u),
      parse_sddl = \<lambda>_. Some (Descriptor (Some (Some sample_acl))), get_dacl = \<lambda>_ w. (Inr (fst w), w),
      set_dacl = \<lambda>_ l w. (0, (l, snd w)), open_file = \<lambda>_. Pair None, processes = Pair None, own_process = 0,
      open_process = \<lambda>_. Pair True, await_process = \<lambda>_. Pair (), set_std_handle = \<lambda>_. Pair True,
      create_pipe = \<lambda>_ _ _. Pair (Inr 0), accept_pipe = \<lambda>_. Pair None, open_pipe = \<lambda>_. Pair (Inr 1),
      read_text = \<lambda>_. Pair (Inl ''missing''), now = \<lambda>w. (snd w, w), pause = \<lambda>d w. ((), (fst w, snd w + d)), current_program = Pair (Inr ''r.exe''),
      schtasks = \<lambda>_. Pair True, print_line = \<lambda>_. Pair (),
      print_error = \<lambda>_. Pair (), open_append = \<lambda>_. Pair None, path_parent = \<lambda>_. Some ''C:'', path_join = \<lambda>a b. a @ b\<rparr>"

definition sample_process :: "acl option \<Rightarrow> (acl option \<times> nat) process" where
  "sample_process l = \<lparr>sid_cell = Some sample_user, trusted_cell = None, outside = (l, 0)\<rparr>"

lemma sample_documented: "sddl_documented sample_system sample_user" "lists_stored sample_system"
proof -
  show "lists_stored sample_system" by (simp add: lists_stored_def sample_system_def)
  show "sddl_documented sample_system sample_user"
    unfolding sddl_documented_def
    by (intro allI exI [of _ "map (\<lambda>t. sample_sid (wide t)) (trusted_texts sample_user)"] exI [of _ 3] exI [of _ "\<lambda>_. None"])
      (simp add: sample_system_def sample_acl_def)
qed

lemma sample_cells: "cells_ok F (sample_process l)"
  by (simp add: cells_ok_def sample_process_def)

lemmas win_evals = bind_p_def seq_p_def ret_def throw_def give_def reads_def modify_def ensure_p_def when_p_def
  ensure_def query_def io_def user_sid_def trusted_def trusted_texts_def private_path_def private_dacl_def effective_def
  ALLOW_TYPES_def restrict_def descriptor_new_def dacl_def sample_process_def sample_system_def Let_def


definition sample_files :: "(acl option \<times> nat) env" where
  "sample_files = env_of (Pair [])"


end
