(* ===== verification/Windows_Service_Contract.thy ===== *)
theory Windows_Service_Contract
  imports Windows_Service Service_Contract Windows_Access_Contract
begin

text \<open>
  What the pipe and the task of Windows promise: connecting ends, a client finds the pipe of its
  manager, and the Task Scheduler reads the definition that is written for it.
\<close>

section \<open>Opening the pipe ends\<close>

text \<open>Time goes on, and sleeping lasts at least as long as it is to.\<close>

definition passing :: "'v system \<Rightarrow> ('v \<Rightarrow> nat) \<Rightarrow> bool" where
  "passing F T \<longleftrightarrow>
     (\<forall>v. T v \<le> fst (now F v) \<and> T (snd (now F v)) = fst (now F v))
   \<and> (\<forall>name v. T v \<le> T (snd (open_pipe F name v)))
   \<and> (\<forall>d v. T v + d \<le> T (snd (pause F d v)))"

lemma attempts_pass:
  assumes "passing F T" "pipe_attempts n F name deadline p = (Ok None, p')"
  shows "n = 0 \<or> T (outside p) + (n - 1) * BUSY_PAUSE < deadline"
  using assms(2)
proof (induction n arbitrary: p)
  case (Suc n)
  let ?v1 = "snd (open_pipe F name (outside p))"
  let ?v2 = "snd (now F ?v1)"
  let ?v3 = "snd (pause F BUSY_PAUSE ?v2)"
  have t: "fst (now F ?v1) < deadline" "pipe_attempts n F name deadline (p\<lparr>outside := ?v3\<rparr>) = (Ok None, p')"
    using Suc.prems by (auto simp: returns split: sum.splits if_splits)
  have "T (outside p) \<le> T ?v1" "T ?v1 \<le> fst (now F ?v1)" "T ?v2 = fst (now F ?v1)" "T ?v2 + BUSY_PAUSE \<le> T ?v3"
    using assms(1) unfolding passing_def by blast+
  with Suc.IH [OF t(2)] t(1) show ?case by (cases n) auto
qed simp

text \<open>
  C36: connecting to the named pipe ends: a pipe that stays busy is tried for five seconds, at most
  251 times.
\<close>

theorem pipe_connect_ends:
  assumes "passing F T" "251 \<le> n"
  shows "fst (pipe_connect n F E p) \<noteq> Ok None"
proof
  assume "fst (pipe_connect n F E p) = Ok None"
  then obtain p' where "pipe_connect n F E p = (Ok None, p')" by (cases "pipe_connect n F E p") auto
  then obtain v name where a: "pipe_attempts n F name (fst (now F v) + 5 * second) (p\<lparr>outside := snd (now F v)\<rparr>)
      = (Ok None, p')"
    by (auto simp: pipe_connect_def returns instant_add_def split: if_splits)
  have "T (snd (now F v)) = fst (now F v)" using assms(1) by (simp add: passing_def)
  with attempts_pass [OF assms(1) a] assms(2) have "(n - 1) * BUSY_PAUSE < 5 * second" by auto
  moreover have "250 * BUSY_PAUSE \<le> (n - 1) * BUSY_PAUSE" using assms(2) by (intro mult_le_mono1) simp
  ultimately show False by (simp add: BUSY_PAUSE_def second_def)
qed

text \<open>A pipe that is always busy.\<close>

definition busy_system :: "(acl option \<times> nat) system" where
  "busy_system = sample_system\<lparr>read_text := \<lambda>_. Pair (Inr (PREFIX @ replicate 32 (CHR ''a''))),
     open_pipe := \<lambda>_. Pair (Inl (ERROR_PIPE_BUSY, ''busy''))\<rparr>"

lemma busy_passing: "passing busy_system snd"
  by (auto simp: passing_def busy_system_def sample_system_def)

theorem pipe_connect_ends_witness:
  "fst (pipe_connect 251 busy_system sample_files (sample_process None)) \<noteq> Ok None
     \<and> fst (pipe_connect 1 busy_system sample_files (sample_process None)) = Ok None"
proof -
  have "pipe_name (PREFIX @ replicate 32 (CHR ''a''))" by (simp add: pipe_name_def starts_with_prefix)
  then have "fst (pipe_connect 1 busy_system sample_files (sample_process None)) = Ok None"
    by (simp add: pipe_connect_def busy_system_def instant_add_def second_def from_sum_def win_evals)
  with pipe_connect_ends [OF busy_passing, of 251] show ?thesis by simp
qed

text \<open>
  A client that reads the name that a manager has bound its pipe to opens that pipe.
\<close>

theorem bound_pipe_opens:
  assumes b: "pipe_bind F E p = (Ok l, p1)" and uuids: "uuids_ok E"
    and r: "fst (read_text F (socket_win F (home E)) (outside q)) = Inr (li_name l)"
    and o: "\<And>v. fst (open_pipe F (li_name l) v) = Inr h"
    and t: "\<And>v. (fst (now F v) + 5 * second) div second < 2 ^ 63"
  shows "fst (pipe_connect (Suc n) F E q) = Ok (Some h)"
proof -
  obtain u where "li_name l = PREFIX @ simple_uuid (fst (uuid E u))"
    using b by (auto simp: pipe_bind_def returns Let_def)
  moreover have "length (simple_uuid (fst (uuid E u))) = 32" using uuids by (simp add: uuids_ok_def Let_def)
  ultimately have "pipe_name (li_name l)" by (auto simp: pipe_name_def starts_with_def strip_prefix_Some)
  then show ?thesis
    using r o t
    by (simp add: pipe_connect_def instant_add_def query_def bind_p_def seq_p_def give_def ret_def ensure_p_def
        ensure_def from_sum_def case_prod_beta)
qed

section \<open>The task's definition\<close>

text \<open>Text of pairs of bytes, the lower first.\<close>

fun le_units :: "string \<Rightarrow> u16 list" where
  "le_units (a # b # s) = of_nat (byte a + 256 * byte b) # le_units s"
| "le_units _ = []"

lemma le_units_bytes: "le_units (concat (map le_bytes us)) = us"
proof (induction us)
  case (Cons u us)
  have "unat u < 2 ^ LENGTH(16)" by (rule unsigned_less)
  then have "byte (char_of (unat u mod 256)) = unat u mod 256" "byte (char_of (unat u div 256)) = unat u div 256"
    by (intro byte_char_of; simp)+
  then have "of_nat (byte (char_of (unat u mod 256)) + 256 * byte (char_of (unat u div 256))) = u"
    by (simp only: mod_mult_div_eq) simp
  then show ?case using Cons by (simp only: le_bytes_def bytes_def list.map concat.simps append.simps le_units.simps)
qed simp

lemma replace_char_append: "replace_char c r (s @ t) = replace_char c r s @ replace_char c r t"
  by (simp add: replace_char_def)

lemma replace_other: "c \<notin> set s \<Longrightarrow> replace_char c r s = s"
  by (induction s) (auto simp: replace_char_def)

lemma valid_replace:
  assumes "valid_utf8 s" "valid_utf8 r" "byte c < 128"
  shows "valid_utf8 (replace_char c r s)"
  using assms(1)
proof (induction rule: chars_induct)
  case Nil
  then show ?case by (simp add: replace_char_def)
next
  case (Cons n s)
  let ?cp = "code_point (take n s)"
  have "valid_utf8 (replace_char c r (utf8_char ?cp))"
  proof (cases "?cp < 128")
    case True
    then show ?thesis using assms(2)
      by (auto simp: utf8_char_def char_bytes_def bytes_def replace_char_def intro!: valid_ascii)
  next
    case False
    then have "\<forall>b \<in> set (utf8_char ?cp). 128 \<le> byte b"
      using Cons.hyps(2) by (auto simp: utf8_char_def char_bytes_def bytes_def scalar_def)
    then have "c \<notin> set (utf8_char ?cp)" using assms(3) by auto
    then show ?thesis using valid_char_append [OF Cons.hyps(2) valid_Nil] by (simp add: replace_other)
  qed
  moreover have "replace_char c r s = replace_char c r (utf8_char ?cp) @ replace_char c r (drop n s)"
    unfolding Cons.hyps(3) by (simp flip: replace_char_append)
  ultimately show ?case using Cons.IH by (simp add: valid_append)
qed

lemma valid_quoted:
  assumes "valid_utf8 v" "task_quote v = Ok x"
  shows "valid_utf8 x"
proof -
  have "valid_utf8 quotation" by (rule valid_ascii) (simp add: quotation_def byte_def)
  moreover have "valid_utf8 (takeWhile (\<lambda>c. c = CHR 0x5C) (rev v))"
    by (rule valid_ascii) (auto simp: byte_def dest!: set_takeWhileD)
  moreover have "x = quotation @ v @ takeWhile (\<lambda>c. c = CHR 0x5C) (rev v) @ quotation"
    using assms(2) by (auto simp: task_quote_def)
  ultimately show ?thesis using assms(1) by (simp only: valid_append)
qed

lemma valid_arguments:
  assumes "task_arguments exe h = Ok line"
  shows "valid_utf8 line"
proof -
  have "valid_utf8 ''--headless ''" "valid_utf8 '' --home ''" "valid_utf8 '' service run''"
    by (rule valid_ascii, code_simp)+
  moreover obtain e q where "task_quote (utf8_lossy exe) = Ok e" "task_quote (utf8_lossy h) = Ok q"
    "line = ''--headless '' @ e @ '' --home '' @ q @ '' service run''"
    using assms by (auto simp: task_arguments_def)
  ultimately show ?thesis by (simp only: valid_append valid_quoted [OF utf8_lossy_is_valid])
qed

lemma valid_escape: "valid_utf8 s \<Longrightarrow> valid_utf8 (xml_escape s)"
  unfolding xml_escape_def
  by (intro valid_replace; (assumption | (rule valid_ascii, code_simp) | code_simp))

lemma valid_lines:
  assumes "\<forall>l \<in> set ls. valid_utf8 l"
  shows "valid_utf8 (unlines ls)"
proof -
  have "valid_utf8 newline" by (rule valid_ascii, code_simp)
  with assms show ?thesis unfolding unlines_def by (intro valid_concat) (auto intro: valid_append)
qed

lemma valid_head: "valid_utf8 user \<Longrightarrow> valid_utf8 (task_head user)"
  unfolding task_head_def
  by (rule valid_lines, simp only: list.set ball_simps, intro conjI valid_append TrueI; (assumption | rule valid_ascii, code_simp))

lemma valid_body:
  assumes "valid_utf8 user" "valid_utf8 line"
  shows "valid_utf8 (task_body user line)"
proof -
  have "valid_utf8 ''      <Arguments>''" "valid_utf8 ''</Arguments>''" "valid_utf8 newline" "valid_utf8 task_tail"
    by (rule valid_ascii, code_simp)+
  then show ?thesis
    using assms unfolding task_body_def by (intro valid_append valid_head valid_escape)
qed

text \<open>
  C38: the Task Scheduler reads the definition as it was meant: UTF-16 with its mark, in which the
  arguments are one text without markup, which the program is given as its home and \<open>service run\<close>,
  whatever characters the paths have.
\<close>

theorem task_definition_read:
  assumes "task_arguments exe h = Ok line" "valid_utf8 user"
  shows "\<exists>us x. le_units (task_file (task_body user line)) = 0xFEFF # us
     \<and> from_utf16_lossy us = task_head user @ ''      <Arguments>'' @ x @ ''</Arguments>'' @ newline @ task_tail
     \<and> xml_text x = Some line
     \<and> windows_arguments None False 0 line
         = [''--headless'', utf8_lossy exe, ''--home'', utf8_lossy h, ''service'', ''run'']"
proof (intro exI conjI)
  show "le_units (task_file (task_body user line)) = 0xFEFF # encode_utf16 (task_body user line)"
    unfolding task_file_def by (rule le_units_bytes)
  show "from_utf16_lossy (encode_utf16 (task_body user line))
      = task_head user @ ''      <Arguments>'' @ xml_escape line @ ''</Arguments>'' @ newline @ task_tail"
    using utf16_roundtrip [OF valid_body [OF assms(2) valid_arguments [OF assms(1)]]] by (simp add: task_body_def)
  show "xml_text (xml_escape line) = Some line" by (rule xml_text_escape)
  show "windows_arguments None False 0 line
      = [''--headless'', utf8_lossy exe, ''--home'', utf8_lossy h, ''service'', ''run'']"
    by (rule task_runs_manager [OF assms(1)])
qed

theorem task_definition_read_witness:
  "\<exists>line us x. task_arguments ''C:/a b/r.exe'' [CHR ''D'', CHR '':'', CHR 0x5C] = Ok line
     \<and> le_units (task_file (task_body sample_user line)) = 0xFEFF # us
     \<and> from_utf16_lossy us = task_head sample_user @ ''      <Arguments>'' @ x @ ''</Arguments>'' @ newline @ task_tail
     \<and> windows_arguments None False 0 line
       = [''--headless'', ''C:/a b/r.exe'', ''--home'', [CHR ''D'', CHR '':'', CHR 0x5C], ''service'', ''run'']"
proof -
  have utf8: "utf8_lossy ''C:/a b/r.exe'' = ''C:/a b/r.exe''"
    "utf8_lossy [CHR ''D'', CHR '':'', CHR 0x5C] = [CHR ''D'', CHR '':'', CHR 0x5C]"
    by (rule utf8_lossy_valid, code_simp)+
  then obtain line where line: "task_arguments ''C:/a b/r.exe'' [CHR ''D'', CHR '':'', CHR 0x5C] = Ok line"
    by (simp add: task_arguments_def task_quote_def)
  have "valid_utf8 sample_user" by (rule valid_ascii, code_simp)
  from task_definition_read [OF line this] line utf8 show ?thesis by auto
qed

end
