(* ===== verification/Windows_Manager.thy ===== *)
theory Windows_Manager
  imports Windows_Service_Contract
begin

text \<open>
  The manager on Windows (\<open>serve\<close> of src/manager.rs) and the entry point of its task (\<open>task::run\<close> of
  src/service.rs): the process of Windows_Access around the engine, whose world is the system's.
\<close>

section \<open>A process with an engine\<close>

text \<open>
  What the process does to the system, with its caches, and what the engine does: both act on the
  engine's world.
\<close>

type_synonym ('w, 'a) node = "('w engine process, 'a) prog"

definition by_process :: "('w, 'a) win \<Rightarrow> ('w, 'a) node" where
  "by_process m p = (let (r, q) = m \<lparr>sid_cell = sid_cell p, trusted_cell = trusted_cell p,
      outside = world (outside p)\<rparr> in
     (r, \<lparr>sid_cell = sid_cell q, trusted_cell = trusted_cell q,
      outside = (outside p)\<lparr>world := outside q\<rparr>\<rparr>))"

definition by_engine :: "('w, 'a) act \<Rightarrow> ('w, 'a) node" where
  "by_engine m p = (let (r, e) = m (outside p) in (r, p\<lparr>outside := e\<rparr>))"

section \<open>The manager\<close>

text \<open>\<open>Paths::prepare\<close> on Windows.\<close>

definition prepare_win :: "'w system \<Rightarrow> 'w env \<Rightarrow> ('w, unit) win" where
  "prepare_win F E =
     seq_p (secure_dir_win F E (home E))
     (seq_p (secure_dir_win F E (path_join F (home E) ''credentials''))
     (seq_p (secure_dir_win F E (path_join F (home E) ''runs''))
     (secure_dir_win F E (path_join F (home E) ''logs''))))"

definition write_line :: "'w system \<Rightarrow> string \<Rightarrow> ('w, unit) node" where
  "write_line F s = by_process (query (print_error F s))"

text \<open>Up to the loop, and the loop for the given wake-ups.\<close>

definition serve_started :: "'w system \<Rightarrow> 'w env \<Rightarrow> ('w, unit) node" where
  "serve_started F E =
     seq_p (by_process (prepare_win F E))
     (seq_p (by_process (lock_win F E))
     (seq_p (by_engine (open_engine E))
     (bind_p (by_process (pipe_bind F E)) (\<lambda>_.
      seq_p (write_line F (''runnerctl manager listening at '' @ utf8_lossy (socket_win F (home E))))
      (seq_p (by_engine (modify attach)) (by_engine (perform (signals E))))))))"

definition serve_win :: "'w system \<Rightarrow> 'w env \<Rightarrow> wakeup list \<Rightarrow> ('w, unit) node" where
  "serve_win F E ws =
     seq_p (serve_started F E)
     (bind_p (attempt (by_engine (serve_loop E ws))) (\<lambda>result.
      seq_p (by_process (io (fs_remove_file E (socket_win F (home E))))) (give result)))"

section \<open>The task's entry point\<close>

text \<open>
  A schedule says how the managers of the process go on: each serves its wake-ups and ends, until
  the parent exits, between two managers or when one has served some wake-ups.
\<close>

datatype stint = Serves "wakeup list" | Leaves "wakeup list option"

definition RESTART_PAUSE :: nat where
  "RESTART_PAUSE = 10 * second"

definition report :: "'w system \<Rightarrow> 'a res \<Rightarrow> ('w, unit) node" where
  "report F r = (case r of Err er \<Rightarrow> write_line F (''error: '' @ error_text er) | _ \<Rightarrow> ret ())"

definition leave :: "'w system \<Rightarrow> 'w env \<Rightarrow> ('w, unit) node" where
  "leave F E =
     bind_p (attempt (by_process (wait_for_parent F))) (\<lambda>result.
     seq_p (report F result)
     (seq_p (by_process (query (fs_remove_file E (socket_win F (home E))))) (ret ())))"

fun task_turns :: "'w system \<Rightarrow> 'w env \<Rightarrow> stint list \<Rightarrow> ('w, unit) node" where
  "task_turns F E [] = ret ()"
| "task_turns F E (Serves ws # ts) =
     bind_p (attempt (serve_win F E ws)) (\<lambda>r.
     if is_Ok r then ret ()
     else
       seq_p (report F r)
       (seq_p (by_process (query (pause F RESTART_PAUSE))) (task_turns F E ts)))"
| "task_turns F E (Leaves None # ts) = leave F E"
| "task_turns F E (Leaves (Some ws) # ts) =
     bind_p (attempt (seq_p (serve_started F E) (by_engine (serve_loop E ws)))) (\<lambda>r.
     seq_p (report F r) (leave F E))"

definition task_run :: "'w system \<Rightarrow> 'w env \<Rightarrow> stint list \<Rightarrow> ('w, unit) node" where
  "task_run F E ts =
     seq_p (by_process (prepare_win F E))
     (seq_p (by_process (io (open_append F (path_join F (home E) ''manager.log''))))
     (seq_p (by_process (redirect_output F)) (task_turns F E ts)))"

section \<open>Processes move only the world\<close>

lemma by_process_post:
  assumes "keeps (\<lambda>_. True) (\<lambda>_. False) m" "\<And>w. I ((outside p)\<lparr>world := w\<rparr>)"
  shows "post (\<lambda>_ p'. I (outside p')) (\<lambda>_ p'. I (outside p')) (by_process m p)"
proof -
  let ?q = "\<lparr>sid_cell = sid_cell p, trusted_cell = trusted_cell p, outside = world (outside p)\<rparr>"
  have "case m ?q of (Panic _, _) \<Rightarrow> False | _ \<Rightarrow> True"
    using assms(1) by (auto simp: keeps_def split: prod.splits res.splits)
  then show ?thesis
    using assms(2) by (cases "m ?q" rule: outcome_cases) (auto simp: by_process_def)
qed

lemma by_engine_post:
  "post (\<lambda>_ p'. I (outside p')) (\<lambda>_ p'. J (outside p')) (by_engine m p) \<longleftrightarrow> post (\<lambda>_. I) (\<lambda>_. J) (m (outside p))"
  by (cases "m (outside p)" rule: outcome_cases) (auto simp: by_engine_def)

lemma sum_calm [simp]: "from_sum x \<noteq> Panic m"
  by (auto simp: from_sum_def split: sum.split)

lemma or_error_calm [simp]: "or_error x t \<noteq> Panic m"
  by (cases x) auto

named_theorems win_calm \<open>operations of the system do not panic\<close>

lemma calm_query [win_calm]: "keeps (\<lambda>_. True) (\<lambda>_. False) (query f)"
  by (rule keeps_post) (simp add: query_def case_prod_beta)

lemma calm_io [win_calm]: "keeps (\<lambda>_. True) (\<lambda>_. False) (io f)"
  unfolding io_def by (intro keeps_intros win_calm)

lemma calm_user [win_calm]: "keeps (\<lambda>_. True) (\<lambda>_. False) (user_sid F)"
  unfolding user_sid_def Let_def by (intro keeps_intros win_calm keeps_give TrueI) auto

lemma calm_trusted [win_calm]: "keeps (\<lambda>_. True) (\<lambda>_. False) (trusted F)"
  unfolding trusted_def by (intro keeps_intros win_calm keeps_give TrueI) auto

lemma scan_calm [simp]: "scan_entries ks f xs \<noteq> Panic m"
  by (induction ks f xs rule: scan_entries.induct) (auto split: option.split)

lemma calm_files [win_calm]:
  "keeps (\<lambda>_. True) (\<lambda>_. False) (restrict F path d)"
  "keeps (\<lambda>_. True) (\<lambda>_. False) (private_path F path)"
  unfolding restrict_def descriptor_new_def dacl_def private_path_def private_dacl_def
  by (intro keeps_intros win_calm keeps_give; simp)+

lemma calm_secure [win_calm]: "keeps (\<lambda>_. True) (\<lambda>_. False) (secure_dir_win F E path)"
  unfolding secure_dir_win_def by (intro keeps_intros win_calm)

lemma keeps_after_attempt:
  assumes "keeps I W m" "\<And>r. (\<And>q. r \<noteq> Panic q) \<Longrightarrow> keeps I W (f r)"
  shows "keeps I W (bind_p (attempt m) f)"
  unfolding keeps_def
proof (intro allI impI)
  fix s assume "I s"
  with assms(1) have "case m s of (Ok _, t) \<Rightarrow> I t | (Err _, t) \<Rightarrow> I t | (Panic _, t) \<Rightarrow> W t"
    by (simp add: keeps_def)
  then show "case bind_p (attempt m) f s of (Ok _, t) \<Rightarrow> I t | (Err _, t) \<Rightarrow> I t | (Panic _, t) \<Rightarrow> W t"
    using assms(2) by (cases "m s" rule: outcome_cases) (auto simp: bind_p_def attempt_def keeps_def)
qed

lemma calm_temp [win_calm]: "keeps (\<lambda>_. True) (\<lambda>_. False) (write_temp F E tmp path data)"
  unfolding write_temp_def by (intro keeps_intros win_calm)

lemma calm_write [win_calm]: "keeps (\<lambda>_. True) (\<lambda>_. False) (atomic_write_win F E path data)"
  unfolding atomic_write_win_def
  by (intro keeps_after_attempt keeps_bind_give keeps_seq keeps_when keeps_ret win_calm keeps_give
        keeps_bind [OF calm_query]) simp_all

lemma calm_manager [win_calm]:
  "keeps (\<lambda>_. True) (\<lambda>_. False) (prepare_win F E)" "keeps (\<lambda>_. True) (\<lambda>_. False) (lock_win F E)"
  "keeps (\<lambda>_. True) (\<lambda>_. False) (pipe_bind F E)" "keeps (\<lambda>_. True) (\<lambda>_. False) (redirect_output F)"
  "keeps (\<lambda>_. True) (\<lambda>_. False) (wait_for_parent F)"
  unfolding prepare_win_def lock_win_def pipe_bind_def private_descriptor_def descriptor_new_def create_def
    redirect_output_def wait_for_parent_def Let_def
  by (intro keeps_intros win_calm keeps_give; simp)+

section \<open>The manager leaves a sound disk\<close>

definition sound :: "'w engine process \<Rightarrow> bool" where
  "sound p \<longleftrightarrow> disk_ok (outside p)"

text \<open>Fewer than 2 ^ 64 requests arrive while these wake-ups are served.\<close>

definition few_requests :: "'w env \<Rightarrow> wakeup list \<Rightarrow> bool" where
  "few_requests E ws \<longleftrightarrow> (\<forall>e. mutations e = 0 \<longrightarrow> mutations (snd (serve_loop E ws e)) < 2 ^ 64)"

lemma sound_process: "keeps (\<lambda>_. True) (\<lambda>_. False) m \<Longrightarrow> sound p \<Longrightarrow>
    post (\<lambda>_. sound) (\<lambda>_. sound) (by_process m p)"
  unfolding sound_def by (rule by_process_post) simp_all

lemma started_outcome:
  assumes "life_ok E" "sound p"
  shows "post (\<lambda>_ p'. resting (outside p') \<and> mutations (outside p') = 0) (\<lambda>_. sound) (serve_started F E p)"
proof -
  let ?R = "\<lambda>p'. resting (outside p') \<and> mutations (outside p') = 0"
  have world: "post (\<lambda>_. ?R) (\<lambda>_. ?R) (by_process m q)" if "keeps (\<lambda>_. True) (\<lambda>_. False) m" "?R q"
    for m :: "('a, 'x) win" and q
    by (rule by_process_post [OF that(1), where I = "\<lambda>e. resting e \<and> mutations e = 0"]) (use that(2) in simp)
  have up: "post (\<lambda>_. ?R) (\<lambda>_. sound) (by_process m q)" if "keeps (\<lambda>_. True) (\<lambda>_. False) m" "?R q"
    for m :: "('a, 'x) win" and q
    by (rule post_mono [OF world [OF that]]) (auto simp: sound_def resting_disk)
  have open': "post (\<lambda>_. ?R) (\<lambda>_. sound) (by_engine (open_engine E) q)" if "sound q" for q
    unfolding sound_def by_engine_post [where I = "\<lambda>e. resting e \<and> mutations e = 0"]
    by (rule post_mono [OF open_engine_spec]) (use that assms(1) in \<open>auto simp: sound_def life_ok_def\<close>)
  have signal: "post (\<lambda>_. ?R) (\<lambda>_. sound) (seq_p (by_engine (modify attach)) (by_engine (perform (signals E))) q)"
    if "?R q" for q
    using that by (auto simp: by_engine_def modify_def perform_def bind_p_def seq_p_def ask_def ret_def throw_def
        case_prod_beta sound_def resting_disk split: option.split)
  show ?thesis
    unfolding serve_started_def write_line_def post_seq [of _ _ "by_process _"] post_seq [of _ _ "by_engine (open_engine E)"]
      post_bind
    by (intro post_mono [OF sound_process [OF calm_manager(1) assms(2)]] post_mono [OF sound_process [OF calm_manager(2)]]
        post_mono [OF open'] post_mono [OF up [OF calm_manager(3)]] post_mono [OF up [OF calm_query]] signal; assumption)
qed

lemma loop_outcome:
  assumes "life_ok E" "few_requests E ws" "resting (outside p)" "mutations (outside p) = 0"
  shows "post (\<lambda>_. sound) (\<lambda>_. sound) (by_engine (serve_loop E ws) p)"
proof -
  have "mutations (snd (serve_loop E ws (outside p))) < 2 ^ 64"
    using assms(2,4) by (simp add: few_requests_def)
  from loop_spec [OF _ assms(3) this] assms(1) show ?thesis
    unfolding sound_def by_engine_post life_ok_def
    by (auto intro: post_mono resting_disk recoverable_disk)
qed

lemma serve_win_outcome:
  assumes "life_ok E" "few_requests E ws" "sound p"
  shows "post (\<lambda>_. sound) (\<lambda>_. sound) (serve_win F E ws p)"
proof -
  have close: "post (\<lambda>_. sound) (\<lambda>_. sound)
      (seq_p (by_process (io (fs_remove_file E (socket_win F (home E))))) (give r) q)"
    if "sound q" "\<And>m. r \<noteq> Panic m" for r :: "unit res" and q
    unfolding post_seq
    by (rule post_mono [OF sound_process [OF calm_io that(1)]]) (use that(2) in \<open>auto simp: post_give split: res.split\<close>)
  have "post (\<lambda>_. sound) (\<lambda>_. sound) (bind_p (attempt (by_engine (serve_loop E ws))) (\<lambda>result.
      seq_p (by_process (io (fs_remove_file E (socket_win F (home E))))) (give result)) q)"
    if "resting (outside q) \<and> mutations (outside q) = 0" for q
    unfolding post_bind post_attempt
    by (rule post_mono [OF loop_outcome [OF assms(1,2)]]) (use that in \<open>auto simp del: post_seq intro!: close\<close>)
  then show ?thesis
    unfolding serve_win_def post_seq [of _ _ "serve_started F E"]
    by (rule post_mono [OF started_outcome [OF assms(1,3)]])
qed

lemma sound_note: "sound p \<Longrightarrow> post (\<lambda>_. sound) (\<lambda>_ _. False) (write_line F s p)"
  by (simp add: write_line_def by_process_def query_def case_prod_beta sound_def)

lemma sound_report: "sound p \<Longrightarrow> post (\<lambda>_. sound) (\<lambda>_ _. False) (report F r p)"
  unfolding report_def by (cases r) (auto intro: sound_note)

lemma sound_query: "sound p \<Longrightarrow> post (\<lambda>_. sound) (\<lambda>_ _. False) (by_process (query f) p)"
  by (simp add: by_process_def query_def case_prod_beta sound_def)

lemma leave_outcome: "sound p \<Longrightarrow> post (\<lambda>_. sound) (\<lambda>_ _. False) (leave F E p)"
  unfolding leave_def post_bind post_seq post_attempt
  by (rule post_mono [OF sound_process [OF calm_manager(5)]])
    (auto intro!: post_mono [OF sound_report] post_mono [OF sound_query])

fun turn_requests :: "stint \<Rightarrow> wakeup list" where
  "turn_requests (Serves ws) = ws"
| "turn_requests (Leaves None) = []"
| "turn_requests (Leaves (Some ws)) = ws"

lemma turns_outcome:
  assumes "life_ok E" "\<forall>t \<in> set ts. few_requests E (turn_requests t)" "sound p"
  shows "post (\<lambda>_. sound) (\<lambda>_ _. False) (task_turns F E ts p)"
  using assms(2,3)
proof (induction ts arbitrary: p)
  case (Cons t ts)
  show ?case
  proof (cases t)
    case (Serves ws)
    have rest: "post (\<lambda>_. sound) (\<lambda>_ _. False) (seq_p (report F r)
         (seq_p (by_process (query (pause F RESTART_PAUSE))) (task_turns F E ts)) q)"
      if "sound q" for r :: "unit res" and q
      unfolding post_seq using Cons.IH Cons.prems(1)
      by (intro post_mono [OF sound_report [OF that]] post_mono [OF sound_query]) auto
    have "few_requests E ws" using Cons.prems(1) Serves by simp
    then show ?thesis
      unfolding Serves task_turns.simps post_bind post_attempt
      by (intro post_mono [OF serve_win_outcome [OF assms(1) _ Cons.prems(2)]])
        (auto simp del: post_seq intro: rest)
  next
    case (Leaves at_wakeups)
    show ?thesis
    proof (cases at_wakeups)
      case None
      then show ?thesis using leave_outcome [OF Cons.prems(2)] Leaves by simp
    next
      case (Some ws)
      have "few_requests E ws" using Cons.prems(1) Leaves Some by simp
      then have served: "post (\<lambda>_. sound) (\<lambda>_. sound) (seq_p (serve_started F E) (by_engine (serve_loop E ws)) p)"
        unfolding post_seq
        by (intro post_mono [OF started_outcome [OF assms(1) Cons.prems(2)]] loop_outcome [OF assms(1)]) auto
      have "post (\<lambda>_. sound) (\<lambda>_ _. False) (seq_p (report F r) (leave F E) q)" if "sound q"
        for r :: "unit res" and q
        unfolding post_seq by (rule post_mono [OF sound_report [OF that]]) (auto intro: leave_outcome)
      then show ?thesis
        unfolding Leaves Some task_turns.simps post_bind [of _ _ "attempt _"] post_attempt
        by (intro post_mono [OF served])
    qed
  qed
qed simp


definition sample_node :: "(acl option \<times> nat) engine process" where
  "sample_node = \<lparr>sid_cell = Some sample_user, trusted_cell = None, outside = engine_of fresh_state (Some sample_acl, 0)\<rparr>"

lemma sample_files_life: "life_ok sample_files"
proof -
  have "uuids_ok sample_files"
    by (simp add: uuids_ok_def sample_files_def env_of_def simple_uuid_def is_ascii_alphanumeric_def
      is_ascii_digit_def is_ascii_alphabetic_def byte_def)
  moreover have "dates_ok sample_files" by (auto simp: dates_ok_def sample_files_def env_of_def)
  ultimately show ?thesis by (simp add: life_ok_def sample_files_def)
qed

lemma sample_start: "is_Ok (fst (seq_p (by_process (prepare_win sample_system sample_files))
    (seq_p (by_process (io (open_append sample_system (path_join sample_system (home sample_files) ''manager.log''))))
      (by_process (redirect_output sample_system))) sample_node))"
  by (simp add: prepare_win_def secure_dir_win_def no_symlink_def redirect_output_def sample_node_def engine_of_def
      sample_files_def env_of_def by_process_def win_evals sample_acl_def upt_rec)


end
