(* ===== verification/Spec2Isabelle.thy ===== *)
theory Spec2Isabelle
  imports Control_Spec Reconcile_Contract Container_Contract Github_Contract Command_Contract Progress Windows_Manager
begin

text \<open>
  Verification of runnerctl (src/src, Rust): a manager that keeps pools of self-hosted GitHub
  Actions runners alive in Docker containers, its command line, and its registration with the
  service manager of the system.

  \<^bold>\<open>The program.\<close> One process per home directory is the manager. It owns a state (pools, runs, the
  configuration) that it keeps in a single row of SQLite, serves requests over a local channel, and
  ticks: every tick takes the next pool and reconciles its runs with the containers of Docker and
  the runners registered with GitHub. While it awaits Docker or GitHub it goes on answering requests;
  a request that changes anything interrupts the reconciliation, which starts over at a later tick.
  A command reaches the manager over the channel or, when none runs, takes the lock and works on the
  store itself.

  \<^bold>\<open>How it is modelled.\<close> A Rust \<open>Result\<close> is \<open>res\<close> (Prelude), where a panic is a third outcome apart from
  errors; a program passes an explicit state (\<open>('s, 'a) prog\<close>). A \<open>String\<close> is the list of its UTF-8
  bytes, \<open>u32\<close> and \<open>u64\<close> are words, with wrapping, saturating and checked operations written out as
  in the code. The engine (\<open>engine\<close>, a record) carries the fields of \<open>Engine\<close>, the stored row, the
  configuration file and an unspecified world; whatever the program calls is a function of the
  environment (\<open>env\<close>, a record) over that world, which may answer in any way. Requests and edits of
  config.toml arrive at each await (\<open>arrivals\<close>), and the theorems hold whatever arrives.

  \<^bold>\<open>The theories, in the order of their imports.\<close>

  Prelude: results, programs, their two-exit postconditions (\<open>post\<close>) and invariants (\<open>keeps\<close>),
  bytes, decimal text. Utf8: decoding, splitting and joining of text. Utf16: characters and UTF-16.
  Ordered_Map: \<open>BTreeMap\<close> as an ordered association list, behind the interfaces \<open>finite_map\<close> and
  \<open>ordered_finite_map\<close>. Json_Value: JSON values, their lookup and their linear order.

  Config: src/config.rs, the configuration and its validation. Manager_State: src/state.rs, pools,
  runs and the well-formedness of a state. Retry: the backoff and the health of a pool
  (\<open>record_failure\<close>, \<open>pool_health\<close> of src/manager.rs). Retiring: \<open>mark_retiring\<close>.

  Environment: the record of what is called, private directories and atomic writes of
  src/config.rs, the engine, the store (interface \<open>durable_store\<close>). Engine: every request
  (\<open>handle_inner\<close>, \<open>handle_local\<close>). Engine_Invariant: what a request keeps. External: awaiting
  (\<open>Engine::external\<close>), with the interfaces \<open>awaiting\<close>, \<open>stable\<close>, \<open>memory_blind\<close>, \<open>bookkeeping\<close> and
  \<open>counting\<close> that say what a predicate must withstand to hold at every await point.

  Docker: src/docker.rs. Github: src/github.rs. Reconcile: \<open>tick\<close> and \<open>reconcile\<close> of src/manager.rs.
  Reconcile_Calls: the calls each part can make. Reconcile_Invariant and Tick_Invariant: that a
  reconciliation and a tick keep the engine well formed, as \<open>spec\<close>, a postcondition that also allows
  for the counter of epochs to wrap.

  Control_Spec: what operators see of the state, what each request means to them (\<open>intends\<close>), and the
  proof that the handlers of Engine refine it.

  Image: src/image.rs. Serving: opening the engine, the lock, queries, the doctor, connections, the
  loop (src/manager.rs). Answer_Types: the types of JSON and the type of each answer. Lifecycle: histories of managers, commands and edits. Client: \<open>send\<close>,
  \<open>dispatch\<close> and \<open>wait_for_cleanup\<close> (src/manager.rs, src/main.rs), with the manager at the other end.
  Service: src/service.rs. Command_Line: src/main.rs, from the commands and the constraints on their
  arguments to the exit status of the process (\<open>main\<close>). Progress: the turns of the pools.

  Windows_Access: src/windows.rs, and what src/config.rs does with it. Windows_Service: the named
  pipe of src/ipc.rs and the task of src/service.rs. Windows_Manager: \<open>serve\<close> and the entry point of
  the task, a process of Windows around the engine.

  Sample is the manager on which properties are applied. The contracts (Requests,
  Reconcile_Contract, Container_Contract, Github_Contract, Wire, Service_Contract,
  Command_Contract, Windows_Access_Contract, Windows_Service_Contract) state what the components
  promise, each with the property's number.

  \<^bold>\<open>What is shown.\<close> A tick, a manager from start to end, every command and every history of them
  never panic and leave a well-formed state in the store (C1, C3, C4, C5); no pool starves and a
  deleted pool that is drained goes (C6, and Progress); every response has the type of its request
  (C7); each request has the effect it promises, is durable when accepted and harmless when refused
  (Requests), and is a step of the operators' specification (C10); the task of Windows outlives the
  managers that fail (C35); a reconciliation that was interfered
  with stops, removes nothing by force, creates nothing during the backoff and removes no container
  whose logs could be saved and were not (Reconcile_Contract, with C2 the limits on new runs); what is
  passed to Docker, to the service managers and over the channel is what the other side reads
  (Container_Contract, Service_Contract, Wire, Windows_Service_Contract); tokens stay on the origin
  and private directories are private (Github_Contract, Windows_Access_Contract); validation meets
  its declarative specification (Config).

  \<^bold>\<open>Hypotheses about what is called\<close>, each a named definition: \<open>reads_ok\<close> (the stored row can be
  read), \<open>uuids_ok\<close> (32 alphanumeric characters), \<open>dates_ok\<close> (a date that was read can be printed),
  \<open>life_ok\<close> (these three), \<open>few_requests\<close> (the ticks of one manager see fewer than 2 ^ 64), \<open>ticking\<close> and \<open>passing\<close> (time goes on, and sleeping lasts), \<open>served_by\<close> and
  \<open>readable\<close> (JSON text is read as it was written, and the manager is at the other end),
  \<open>sddl_documented\<close> and \<open>lists_stored\<close> (security descriptors of Windows). Each property that has one
  is applied where it holds.

  \<^bold>\<open>Bounds.\<close> The pages of a runner list are at most \<open>MAX_PAGES\<close> = 10000, as in the code, so the loop
  over them is structural. \<open>mutations\<close> counts what \<open>epoch\<close>, a \<open>u64\<close> that wraps, counts: the properties
  of ticks and managers hold for fewer than 2 ^ 64 requests, for at that number an interference can
  go unnoticed. C6 assumes that the cursor does not wrap meanwhile. The rounds of
  \<open>wait_loop\<close>, \<open>pipe_attempts\<close> and \<open>follow_logs\<close> are fuel, and running out of it is a result of its own.
  A wait needs at most two rounds more than its timeout has seconds (C24), opening a pipe at
  most 251 attempts (C36); \<open>follow_logs\<close> goes on until it is interrupted, as the code
  does.

  \<^bold>\<open>Not modelled.\<close> The text of TOML and JSON, SQLite, HTTP, RSA, SHA-256, base64, RFC 3339 and the
  docker command are parameters: libraries or services. Turning the words of a command line into a
  command is clap's, and so are its messages; hidden prompts are calls. Errors are compared and
  printed by their outermost message, without the causes that \<open>{:#}\<close> appends. The bounded pool of
  connection tasks and the interval timer of the loop: the loop runs over any schedule of its
  branches instead, each connection on its own, and the signals that end it are one of them. Writing
  to the terminal does not fail. A crash in the middle of an operation. That serde reads a structure
  from an array as well, and duplicate keys of JSON objects. On Windows: the handles and buffers of
  the security interface (its functions give values), the socket and home paths of Windows in the
  engine; and when the parent of the task ends, its manager is dropped before or after one of the
  wake-ups of its loop, never inside a tick. Accepting and connecting on a Unix socket are one call
  of the runtime each. Tests.
\<close>

section \<open>The manager's tick\<close>

text \<open>
  C1: whatever control requests and edits of config.toml arrive while a tick awaits docker or
  GitHub, the tick does not panic; when it returns, the engine is well formed, no reconciliation
  is left open and the store agrees with memory on all that is durable, and when it fails, the
  store still holds a well-formed state. (The epoch that detects interference is 64 bits wide:
  fewer than that many requests arrive in one tick.)
\<close>

theorem tick_safe:
  assumes "reads_ok E" "resting e" "mutations (snd (tick E e)) < mutations e + 2 ^ 64"
  shows "case tick E e of
      (Ok _, e') \<Rightarrow> resting e'
    | (Err _, e') \<Rightarrow> (\<exists>s. row e' = Some s \<and> wf_state s)
    | (Panic _, _) \<Rightarrow> False"
  using spec_outcome [OF tick_spec [OF assms(1,2)] assms(3)]
  by (cases "tick E e" rule: outcome_cases) (auto simp: rested_def recoverable_def)

theorem tick_safe_witness:
  "\<exists>e'. tick quiet_env (engine_of fresh_state ()) = (Ok (), e') \<and> resting e'"
proof -
  obtain e' where t: "tick quiet_env (engine_of fresh_state ()) = (Ok (), e')" "mutations e' = 0"
    using first_tick by blast
  with tick_safe [of quiet_env "engine_of fresh_state ()"] show ?thesis by simp
qed

text \<open>
  C2: a run that is new after a tick is the only new one; it is of the current configuration and
  generation of its pool, which is running and not being deleted, and with it the pool has no
  more runs than replicas and the manager no more than \<open>max_runners\<close>, whatever requests changed
  them during the tick.
\<close>

theorem tick_new_runs:
  assumes "reads_ok E" "resting e" "mutations (snd (tick E e)) < mutations e + 2 ^ 64"
    "tick E e = (Ok u, e')" "k \<in> set (bm_keys (s_runs (st e')))" "k \<notin> set (bm_keys (s_runs (st e)))"
  shows "\<exists>r name p ps. set (bm_keys (s_runs (st e'))) \<subseteq> insert k (set (bm_keys (s_runs (st e))))
     \<and> bm_get (s_runs (st e')) k = Some r \<and> run_phase r = ''creating'' \<and> run_pool r = p
     \<and> find_pool name (s_config (st e')) = Some p \<and> bm_get (s_pools (st e')) name = Some ps
     \<and> run_pool_id r = ps_id ps \<and> run_generation r = ps_generation ps
     \<and> ps_running ps \<and> \<not> ps_deleting ps
     \<and> length (pool_runs (ps_id ps) (st e')) \<le> unat (pl_replicas p)
     \<and> length (s_runs (st e')) \<le> unat (mg_max_runners (cfg_manager (s_config (st e'))))"
proof -
  have "fits (st e) (st e')"
    using spec_outcome [OF tick_spec [OF assms(1,2)] assms(3)] assms(4) by (simp add: rested_def)
  then show ?thesis
    using assms(5,6) unfolding fits_def
  proof (elim disjE exE conjE, goal_cases)
    case (2 rid r name ps)
    then have "k = rid" by auto
    with 2 show ?case by (intro exI [of _ r] exI [of _ name] exI [of _ "run_pool r"] exI [of _ ps]) simp
  qed auto
qed

theorem tick_new_runs_witness:
  "\<exists>e' r. tick quiet_env (engine_of fresh_state ()) = (Ok (), e')
     \<and> bm_get (s_runs (st e')) ''rc-01234567-1234567890ab4cde8f01234567890abc'' = Some r \<and> run_phase r = ''creating''
     \<and> length (s_runs (st e')) \<le> 16"
proof -
  obtain e' where t: "tick quiet_env (engine_of fresh_state ()) = (Ok (), e')" "mutations e' = 0"
    "s_runs (st e') = [(''rc-01234567-1234567890ab4cde8f01234567890abc'', first_run)]"
    using first_tick by blast
  have "s_runs fresh_state = []" by (simp add: fresh_state_def)
  then have "\<exists>r. bm_get (s_runs (st e')) ''rc-01234567-1234567890ab4cde8f01234567890abc'' = Some r \<and> run_phase r = ''creating''"
    using tick_new_runs [OF sample_reads(3) sample_resting(2) _ t(1), of "''rc-01234567-1234567890ab4cde8f01234567890abc''"] t
    by (auto simp: bm_keys_def)
  then show ?thesis using t by auto
qed

end
